(* ===== verification/P2P_Prelude.thy ===== *)
theory P2P_Prelude
  imports Main "HOL-Library.Word" "HOL-Library.Countable"
begin

section \<open>Prelude: bytes, error values, panics and text\<close>

text \<open>
  Types and facts every component shares.

  A Go \<open>[]byte\<close> is a list of 8-bit words, a Go \<open>string\<close> a HOL \<open>string\<close> (both are byte
  sequences).  A returned \<open>(value, error)\<close> pair is a sum: \<open>Inl e\<close> for a non-nil error, \<open>Inr v\<close>
  for a nil error.  The sentinel errors the code compares by identity are constructors of
  \<open>go_error\<close>; an error made by \<open>fmt.Errorf\<close> or \<open>errors.Wrap\<close> keeps its constant text only,
  because no caller looks inside it.  A computation that may hit a run-time panic (nil pointer,
  index out of range) has an option type: \<open>None\<close> is the panic, which ends the process.
\<close>

type_synonym byte = "8 word"
type_synonym bytes = "byte list"

datatype go_error =
    ErrConnNotOpened
  | ErrNotReady
  | ErrBufferFull
  | ErrUpdateIsAlreadyExist
  | ErrUpdateIsOlder
  | ErrUpdateVerificationFailed
  | ErrMsg string
  | ErrSys nat

type_synonym 'a result = "go_error + 'a"
type_synonym 'a may_panic = "'a option"

abbreviation second :: int where
  "second \<equiv> 1000000000"

named_theorems codec_simps \<open>equations that evaluate the encoders and decoders\<close>
named_theorems frame_simps \<open>fields an operation leaves alone\<close>

subsection \<open>Results\<close>

definition is_err :: "'a result \<Rightarrow> bool" where
  "is_err r = (case r of Inl _ \<Rightarrow> True | Inr _ \<Rightarrow> False)"

lemma is_err_simps [simp]: "is_err (Inl e)" "\<not> is_err (Inr v)"
  by (simp_all add: is_err_def)

lemma not_is_err_iff: "\<not> is_err r \<longleftrightarrow> (\<exists>v. r = Inr v)"
  by (cases r) simp_all

text \<open>Running the setters of a message one after the other: the first error stops.\<close>

fun apply_all :: "('m \<Rightarrow> 'm result) list \<Rightarrow> 'm \<Rightarrow> 'm result" where
  "apply_all [] m = Inr m"
| "apply_all (f # fs) m = (case f m of Inl e \<Rightarrow> Inl e | Inr m' \<Rightarrow> apply_all fs m')"

lemma apply_all_append:
  "apply_all (fs @ gs) m = (case apply_all fs m of Inl e \<Rightarrow> Inl e | Inr m' \<Rightarrow> apply_all gs m')"
  by (induction fs arbitrary: m) (auto split: sum.splits)

subsection \<open>Decimal and hexadecimal text\<close>

text \<open>\<open>strconv.Itoa\<close> and the \<open>%d\<close> verb.\<close>

fun nat_dec :: "nat \<Rightarrow> string" where
  "nat_dec n = (if n < 10 then [''0123456789'' ! n]
                else nat_dec (n div 10) @ [''0123456789'' ! (n mod 10)])"

declare nat_dec.simps [simp del]

definition int_dec :: "int \<Rightarrow> string" where
  "int_dec i = (if i < 0 then CHR ''-'' # nat_dec (nat (- i)) else nat_dec (nat i))"

definition dec_chars :: "char set" where
  "dec_chars = set ''0123456789''"

lemma nth_dec_chars: "n < 10 \<Longrightarrow> ''0123456789'' ! n \<in> dec_chars"
  unfolding dec_chars_def by (rule nth_mem) simp

lemma nat_dec_chars: "set (nat_dec n) \<subseteq> dec_chars"
proof (induction n rule: nat_dec.induct)
  case (1 n)
  then show ?case
    by (subst nat_dec.simps) (auto simp: nth_dec_chars)
qed

lemma nat_dec_ne: "nat_dec n \<noteq> []"
  by (subst nat_dec.simps) simp

lemma int_dec_chars: "set (int_dec i) \<subseteq> insert (CHR ''-'') dec_chars"
  using nat_dec_chars by (auto simp: int_dec_def)

text \<open>\<open>hex.EncodeToString\<close> and \<open>hex.DecodeString\<close> of Go's \<open>encoding/hex\<close>.\<close>

definition hex_digit :: "nat \<Rightarrow> char" where
  "hex_digit n = ''0123456789abcdef'' ! n"

fun hex_encode :: "bytes \<Rightarrow> string" where
  "hex_encode [] = []"
| "hex_encode (b # bs) = hex_digit (unat b div 16) # hex_digit (unat b mod 16) # hex_encode bs"

definition hex_value :: "char \<Rightarrow> nat option" where
  "hex_value c =
     (let n = of_char c :: nat in
      if 48 \<le> n \<and> n \<le> 57 then Some (n - 48)
      else if 97 \<le> n \<and> n \<le> 102 then Some (n - 87)
      else if 65 \<le> n \<and> n \<le> 70 then Some (n - 55)
      else None)"

fun hex_decode :: "string \<Rightarrow> bytes result" where
  "hex_decode [] = Inr []"
| "hex_decode [c] = Inl (ErrMsg ''encoding/hex: odd length hex string'')"
| "hex_decode (c # d # cs) =
     (case (hex_value c, hex_value d) of
        (Some h, Some l) \<Rightarrow>
          (case hex_decode cs of Inl e \<Rightarrow> Inl e
           | Inr bs \<Rightarrow> Inr (word_of_nat (16 * h + l) # bs))
      | _ \<Rightarrow> Inl (ErrMsg ''encoding/hex: invalid byte''))"

definition hex_chars :: "char set" where
  "hex_chars = set ''0123456789abcdef''"

lemma hex_digit_chars: "n < 16 \<Longrightarrow> hex_digit n \<in> hex_chars"
  unfolding hex_digit_def hex_chars_def by (rule nth_mem) simp

lemma hex_value_digits:
  "hex_value (hex_digit 0) = Some 0" "hex_value (hex_digit 1) = Some 1"
  "hex_value (hex_digit 2) = Some 2" "hex_value (hex_digit 3) = Some 3"
  "hex_value (hex_digit 4) = Some 4" "hex_value (hex_digit 5) = Some 5"
  "hex_value (hex_digit 6) = Some 6" "hex_value (hex_digit 7) = Some 7"
  "hex_value (hex_digit 8) = Some 8" "hex_value (hex_digit 9) = Some 9"
  "hex_value (hex_digit 10) = Some 10" "hex_value (hex_digit 11) = Some 11"
  "hex_value (hex_digit 12) = Some 12" "hex_value (hex_digit 13) = Some 13"
  "hex_value (hex_digit 14) = Some 14" "hex_value (hex_digit 15) = Some 15"
  by (simp_all add: hex_value_def hex_digit_def)

lemma hex_value_digit [codec_simps]: "n < 16 \<Longrightarrow> hex_value (hex_digit n) = Some n"
proof -
  assume "n < 16"
  then have "n \<in> set [0, 1, 2, 3, 4, 5, 6, 7, 8, 9, 10, 11, 12, 13, 14, 15]" by (simp, arith)
  then show "hex_value (hex_digit n) = Some n"
    by (auto simp only: list.set insert_iff empty_iff hex_value_digits)
qed

lemma unat_byte_div: "unat (b :: byte) div 16 < 16"
  using unsigned_less [of b, where 'a = nat] by simp

lemma hex_encode_chars: "set (hex_encode bs) \<subseteq> hex_chars"
  by (induction bs) (auto simp: hex_digit_chars unat_byte_div)

lemma hex_encode_length [simp]: "length (hex_encode bs) = 2 * length bs"
  by (induction bs) auto

lemma hex_decode_encode [codec_simps]: "hex_decode (hex_encode bs) = Inr bs"
proof (induction bs)
  case Nil
  then show ?case by simp
next
  case (Cons b bs)
  have "word_of_nat (16 * (unat b div 16) + unat b mod 16) = b" by simp
  with Cons show ?case by (simp add: hex_value_digit unat_byte_div)
qed

lemma hex_encode_inj: "hex_encode xs = hex_encode ys \<Longrightarrow> xs = ys"
  by (metis hex_decode_encode sum.inject(2))

subsection \<open>Ranging over a map\<close>

text \<open>
  Go ranges over a map in an unspecified order.  A loop over a map takes the order as an
  argument: any list that holds every key once.
\<close>

definition range_order :: "'k list \<Rightarrow> ('k \<Rightarrow> 'v option) \<Rightarrow> bool" where
  "range_order ks m \<longleftrightarrow> distinct ks \<and> set ks = dom m"

lemma range_order_set: "range_order ks m \<Longrightarrow> set ks = dom m"
  by (simp add: range_order_def)

lemma range_order_Some: "range_order ks m \<Longrightarrow> k \<in> set ks \<Longrightarrow> \<exists>v. m k = Some v"
  by (auto simp: range_order_def)

end
