(* ===== verification/Automata.thy ===== *)
theory Automata
  imports P2P_Prelude
begin

section \<open>The finite state machine of \<open>automata.go\<close>\<close>

text \<open>
  \<open>State\<close> and \<open>Event\<close> are Go integers with named constants; the constants are the constructors
  here and \<open>state_code\<close>/\<open>event_code\<close> give the \<open>iota\<close> numbers.  \<open>NewAutomata\<close> builds the nested
  transition map from a list, \<open>automata_event\<close> is the method \<open>Event\<close>: it looks the transition up,
  moves, and names the callback to run next.  Callbacks are values of a type variable, because a
  callback acts on the component that owns the automaton (the overlay connection), which applies it.
\<close>

datatype go_state =
    StateClosed | StateOpening | StateOpened | StateBinding | StateBindError
  | StateListening | StateProcessingMessage | StateMessageError

datatype go_event =
    EventOpen | EventClose | EventBind | EventSuccess | EventError
  | EventUnderLimit | EventOverLimit | EventChannelExpired

fun state_code :: "go_state \<Rightarrow> int" where
  "state_code StateClosed = 0"
| "state_code StateOpening = 1"
| "state_code StateOpened = 2"
| "state_code StateBinding = 3"
| "state_code StateBindError = 4"
| "state_code StateListening = 5"
| "state_code StateProcessingMessage = 6"
| "state_code StateMessageError = 7"

fun event_code :: "go_event \<Rightarrow> int" where
  "event_code EventOpen = 100"
| "event_code EventClose = 101"
| "event_code EventBind = 102"
| "event_code EventSuccess = 103"
| "event_code EventError = 104"
| "event_code EventUnderLimit = 105"
| "event_code EventOverLimit = 106"
| "event_code EventChannelExpired = 107"

text \<open>States and events are ordered as the Go integers are.\<close>

lemma state_code_inj: "state_code s = state_code t \<longleftrightarrow> s = t"
  by (cases s; cases t) simp_all

lemma event_code_inj: "event_code s = event_code t \<longleftrightarrow> s = t"
  by (cases s; cases t) simp_all

instantiation go_state :: linorder
begin
definition less_eq_go_state :: "go_state \<Rightarrow> go_state \<Rightarrow> bool" where
  "s \<le> t \<longleftrightarrow> state_code s \<le> state_code t"
definition less_go_state :: "go_state \<Rightarrow> go_state \<Rightarrow> bool" where
  "s < t \<longleftrightarrow> state_code s < state_code t"
instance
  by standard (auto simp: less_eq_go_state_def less_go_state_def state_code_inj)
end

instantiation go_event :: linorder
begin
definition less_eq_go_event :: "go_event \<Rightarrow> go_event \<Rightarrow> bool" where
  "s \<le> t \<longleftrightarrow> event_code s \<le> event_code t"
definition less_go_event :: "go_event \<Rightarrow> go_event \<Rightarrow> bool" where
  "s < t \<longleftrightarrow> event_code s < event_code t"
instance
  by standard (auto simp: less_eq_go_event_def less_go_event_def event_code_inj)
end

text \<open>\<open>State.String\<close> and \<open>Event.String\<close>, on the integers, with the default of their switches.\<close>

definition State_String :: "int \<Rightarrow> string" where
  "State_String s =
     (if s = state_code StateClosed then ''closed''
      else if s = state_code StateOpening then ''opening''
      else if s = state_code StateOpened then ''opened''
      else if s = state_code StateBinding then ''binding''
      else if s = state_code StateBindError then ''bindError''
      else if s = state_code StateListening then ''listening''
      else if s = state_code StateProcessingMessage then ''processingMessage''
      else if s = state_code StateMessageError then ''messageError''
      else ''undefined'')"

definition Event_String :: "int \<Rightarrow> string" where
  "Event_String e =
     (if e = event_code EventBind then ''bind''
      else if e = event_code EventChannelExpired then ''channelExpired''
      else if e = event_code EventClose then ''close''
      else if e = event_code EventError then ''error''
      else if e = event_code EventOpen then ''open''
      else if e = event_code EventOverLimit then ''overLimit''
      else if e = event_code EventSuccess then ''success''
      else if e = event_code EventUnderLimit then ''underLimit''
      else ''undefined'')"

lemma State_String_inj: "State_String (state_code s) = State_String (state_code t) \<longleftrightarrow> s = t"
  by (cases s; cases t) (simp_all add: State_String_def)

lemma State_String_defined: "State_String (state_code s) \<noteq> ''undefined''"
  by (cases s) (simp_all add: State_String_def)

lemma Event_String_inj: "Event_String (event_code s) = Event_String (event_code t) \<longleftrightarrow> s = t"
  by (cases s; cases t) (simp_all add: Event_String_def)

lemma Event_String_defined: "Event_String (event_code s) \<noteq> ''undefined''"
  by (cases s) (simp_all add: Event_String_def)

subsection \<open>Transitions\<close>

record transition =
  Src :: go_state
  Ev :: go_event
  Dest :: go_state

type_synonym transitions = "go_state \<rightharpoonup> (go_event \<rightharpoonup> go_state)"

record 'cb automata =
  current :: go_state
  transitions :: transitions
  callbacks :: "go_state \<rightharpoonup> 'cb"

text \<open>One turn of the loop of \<open>NewAutomata\<close>: make the inner map if it is missing, then store.\<close>

definition add_transition :: "transition \<Rightarrow> transitions \<Rightarrow> transitions" where
  "add_transition t m =
     (let m1 = (if m (Src t) = None then m(Src t \<mapsto> Map.empty) else m)
      in m1(Src t \<mapsto> (the (m1 (Src t)))(Ev t \<mapsto> Dest t)))"

definition NewAutomata ::
  "go_state \<Rightarrow> transition list \<Rightarrow> (go_state \<rightharpoonup> 'cb) \<Rightarrow> 'cb automata" where
  "NewAutomata cur ts cbs =
     \<lparr>current = cur, transitions = fold add_transition ts Map.empty, callbacks = cbs\<rparr>"

text \<open>Indexing the nested map; a missing inner map reads as an empty one, as a nil map does.\<close>

definition lookup :: "transitions \<Rightarrow> go_state \<Rightarrow> go_event \<Rightarrow> go_state option" where
  "lookup m s e = (case m s of None \<Rightarrow> None | Some inner \<Rightarrow> inner e)"

definition Current :: "'cb automata \<Rightarrow> go_state" where
  "Current a = current a"

text \<open>
  The method \<open>Event\<close>.  With no transition it returns an error and changes nothing; otherwise it
  stores the destination and yields the callback registered for the state it is now in, if any.
\<close>

definition automata_event ::
  "'cb automata \<Rightarrow> go_event \<Rightarrow> ('cb automata \<times> 'cb option) result" where
  "automata_event a e =
     (case lookup (transitions a) (current a) e of
        Some dest \<Rightarrow>
          (let a' = a\<lparr>current := dest\<rparr> in Inr (a', callbacks a' (current a')))
      | None \<Rightarrow> Inl (ErrMsg (''state '' @ State_String (state_code (current a)) @
                  '' does not have transition for event '' @ Event_String (event_code e))))"

subsection \<open>Correctness of the construction and of \<open>Event\<close>\<close>

lemma lookup_empty [simp]: "lookup Map.empty s e = None"
  by (simp add: lookup_def)

lemma lookup_add [simp]:
  "lookup (add_transition t m) s e =
     (if s = Src t \<and> e = Ev t then Some (Dest t) else lookup m s e)"
  by (auto simp: lookup_def add_transition_def Let_def split: option.splits)

text \<open>The transition table as a set of edges, the last edge of a pair winning.\<close>

definition edge_of :: "transition \<Rightarrow> (go_state \<times> go_event) \<times> go_state" where
  "edge_of t = ((Src t, Ev t), Dest t)"

lemma lookup_fold:
  "lookup (fold add_transition ts m) s e =
     (case map_of (rev (map edge_of ts)) (s, e) of Some d \<Rightarrow> Some d | None \<Rightarrow> lookup m s e)"
  by (induction ts arbitrary: m) (auto simp: edge_of_def map_add_def split: option.splits)

lemma lookup_NewAutomata:
  "lookup (transitions (NewAutomata cur ts cbs)) s e = map_of (rev (map edge_of ts)) (s, e)"
  by (simp add: NewAutomata_def lookup_fold option.case_eq_if)

lemma NewAutomata_current [simp]: "current (NewAutomata cur ts cbs) = cur"
  and NewAutomata_callbacks [simp]: "callbacks (NewAutomata cur ts cbs) = cbs"
  by (simp_all add: NewAutomata_def)

lemma automata_event_Inr_iff:
  "automata_event a e = Inr (a', cb) \<longleftrightarrow>
     (\<exists>d. lookup (transitions a) (current a) e = Some d \<and> a' = a\<lparr>current := d\<rparr> \<and> cb = callbacks a d)"
  by (auto simp: automata_event_def Let_def split: option.splits)

lemma automata_event_Inl_iff:
  "is_err (automata_event a e) \<longleftrightarrow> lookup (transitions a) (current a) e = None"
  by (auto simp: automata_event_def Let_def split: option.splits)

lemma automata_event_frame [frame_simps]:
  "automata_event a e = Inr (a', cb) \<Longrightarrow> transitions a' = transitions a"
  "automata_event a e = Inr (a', cb) \<Longrightarrow> callbacks a' = callbacks a"
  by (auto simp: automata_event_Inr_iff)

text \<open>Raising a list of events, the callbacks left out: rejected events leave the state as it is.\<close>

fun automata_run :: "'cb automata \<Rightarrow> go_event list \<Rightarrow> 'cb automata" where
  "automata_run a [] = a"
| "automata_run a (e # es) =
     (case automata_event a e of Inl _ \<Rightarrow> automata_run a es | Inr (a', _) \<Rightarrow> automata_run a' es)"

lemma automata_run_append: "automata_run a (es @ fs) = automata_run (automata_run a es) fs"
  by (induction es arbitrary: a) (auto split: sum.splits)

lemma automata_run_frame [frame_simps]:
  "transitions (automata_run a es) = transitions a"
  "callbacks (automata_run a es) = callbacks a"
  by (induction es arbitrary: a) (auto split: sum.splits dest: automata_event_frame)

end
