(* ===== verification/Net_Addr.thy ===== *)
theory Net_Addr
  imports P2P_Prelude
begin

section \<open>Addresses: the part of Go's package \<open>net\<close> the program uses\<close>

text \<open>
  \<open>net.IP\<close> is a byte slice of length 4 or 16 (or anything else, when it is malformed);
  \<open>net.UDPAddr\<close> is a record.  \<open>ip_Equal\<close>, \<open>ip_String\<close>, \<open>udp_String\<close> and \<open>resolve_literal\<close> are
  \<open>IP.Equal\<close>, \<open>IP.String\<close>, \<open>UDPAddr.String\<close> and \<open>ResolveUDPAddr\<close> on the text of an address.
\<close>

type_synonym ip = bytes

record udp_addr =
  IP :: ip
  Port :: int
  Zone :: string

instance udp_addr_ext :: (countable) countable
  by (rule countable_classI [of "\<lambda>r. to_nat (IP r, Port r, Zone r, udp_addr.more r)"]) simp

definition v4_prefix :: bytes where
  "v4_prefix = [0, 0, 0, 0, 0, 0, 0, 0, 0, 0, 255, 255]"

definition ip_To4 :: "ip \<Rightarrow> ip option" where
  "ip_To4 a =
     (if length a = 4 then Some a
      else if length a = 16 \<and> take 12 a = v4_prefix then Some (drop 12 a)
      else None)"

definition ip_To16 :: "ip \<Rightarrow> ip option" where
  "ip_To16 a =
     (if length a = 4 then Some (v4_prefix @ a)
      else if length a = 16 then Some a
      else None)"

text \<open>\<open>IP.Equal\<close>: a 4-byte address and its 16-byte form are the same address.\<close>

definition ip_Equal :: "ip \<Rightarrow> ip \<Rightarrow> bool" where
  "ip_Equal a b =
     (if length a = length b then a = b
      else if length a = 4 \<and> length b = 16 then take 12 b = v4_prefix \<and> a = drop 12 b
      else if length a = 16 \<and> length b = 4 then take 12 a = v4_prefix \<and> b = drop 12 a
      else False)"

definition ip_wf :: "ip \<Rightarrow> bool" where
  "ip_wf a \<longleftrightarrow> length a = 4 \<or> length a = 16"

lemma v4_prefix_length [simp]: "length v4_prefix = 12"
  by (simp add: v4_prefix_def)

lemma ip_Equal_refl [simp]: "ip_Equal a a"
  by (simp add: ip_Equal_def)

lemma ip_Equal_sym: "ip_Equal a b \<longleftrightarrow> ip_Equal b a"
  by (auto simp: ip_Equal_def)

lemma ip_To16_Some: "ip_wf a \<Longrightarrow> \<exists>b. ip_To16 a = Some b \<and> length b = 16"
  by (auto simp: ip_To16_def ip_wf_def)

text \<open>On well-formed addresses \<open>Equal\<close> compares the 16-byte forms.\<close>

lemma ip_Equal_To16:
  assumes "ip_wf a" and "ip_wf b"
  shows "ip_Equal a b \<longleftrightarrow> ip_To16 a = ip_To16 b"
proof -
  have split: "x = take 12 x @ drop 12 x" for x :: bytes by simp
  show ?thesis
    using assms split [of a] split [of b]
    by (auto simp: ip_Equal_def ip_To16_def ip_wf_def) (metis append_take_drop_id)+
qed

lemma ip_Equal_trans:
  "ip_wf a \<Longrightarrow> ip_wf b \<Longrightarrow> ip_wf c \<Longrightarrow> ip_Equal a b \<Longrightarrow> ip_Equal b c \<Longrightarrow> ip_Equal a c"
  by (simp add: ip_Equal_To16)

subsection \<open>Text of an address\<close>

fun join_with :: "string \<Rightarrow> string list \<Rightarrow> string" where
  "join_with sep [] = []"
| "join_with sep [x] = x"
| "join_with sep (x # xs) = x @ sep @ join_with sep xs"

text \<open>\<open>appendHex\<close>: a 16-bit group without leading zeros.\<close>

fun nat_hex :: "nat \<Rightarrow> string" where
  "nat_hex n = (if n < 16 then [hex_digit n] else nat_hex (n div 16) @ [hex_digit (n mod 16)])"

declare nat_hex.simps [simp del]

fun ip_groups :: "bytes \<Rightarrow> nat list" where
  "ip_groups (h # l # bs) = (256 * unat h + unat l) # ip_groups bs"
| "ip_groups _ = []"

text \<open>
  The search for the longest run of zero groups: \<open>zero_run i gs best\<close> with \<open>best = (start, length)\<close>;
  the first of the longest runs wins.  A run of one group is not shortened.
\<close>

fun zero_prefix :: "nat list \<Rightarrow> nat" where
  "zero_prefix (0 # gs) = Suc (zero_prefix gs)"
| "zero_prefix _ = 0"

definition zero_run :: "nat list \<Rightarrow> nat \<times> nat" where
  "zero_run gs = fold (\<lambda>i best. let n = zero_prefix (drop i gs) in if snd best < n then (i, n) else best)
                   [0..<length gs] (0, 0)"

definition groups_String :: "nat list \<Rightarrow> string" where
  "groups_String gs =
     (let (i, n) = zero_run gs in
      if n \<le> 1 then join_with '':'' (map nat_hex gs)
      else join_with '':'' (map nat_hex (take i gs)) @ ''::'' @
           join_with '':'' (map nat_hex (drop (i + n) gs)))"

definition ip_String :: "ip \<Rightarrow> string" where
  "ip_String a =
     (if a = [] then ''<nil>''
      else case ip_To4 a of
        Some q \<Rightarrow> join_with ''.'' (map (\<lambda>b. nat_dec (unat b)) q)
      | None \<Rightarrow> if length a \<noteq> 16 then CHR ''?'' # hex_encode a else groups_String (ip_groups a))"

text \<open>\<open>JoinHostPort\<close> brackets a host that holds a colon.\<close>

definition join_host_port :: "string \<Rightarrow> string \<Rightarrow> string" where
  "join_host_port h p =
     (if CHR '':'' \<in> set h then ''['' @ h @ '']:'' @ p else h @ '':'' @ p)"

text \<open>\<open>UDPAddr.String\<close>; a nil pointer prints as \<open><nil>\<close>.\<close>

definition udp_String :: "udp_addr option \<Rightarrow> string" where
  "udp_String p =
     (case p of None \<Rightarrow> ''<nil>''
      | Some a \<Rightarrow>
          (let h = (if IP a = [] then [] else ip_String (IP a)) in
           if Zone a \<noteq> [] then join_host_port (h @ ''%'' @ Zone a) (int_dec (Port a))
           else join_host_port h (int_dec (Port a))))"

text \<open>
  The characters of these texts: none of them is a quote or a backslash, unless the zone holds one.
\<close>

definition addr_chars :: "char set" where
  "addr_chars = set ''0123456789abcdef.:-?<>nil[]%''"

lemma dec_subset_addr: "dec_chars \<subseteq> addr_chars"
  by (auto simp: dec_chars_def addr_chars_def)

lemma hex_subset_addr: "hex_chars \<subseteq> addr_chars"
  by (auto simp: hex_chars_def addr_chars_def)

lemma minus_addr_char: "CHR ''-'' \<in> addr_chars"
  by (simp add: addr_chars_def)

lemma join_with_chars: "set (join_with sep xs) \<subseteq> set sep \<union> \<Union> (set ` set xs)"
  by (induction sep xs rule: join_with.induct) auto

lemma nat_hex_chars: "set (nat_hex n) \<subseteq> hex_chars"
proof (induction n rule: nat_hex.induct)
  case (1 n)
  then show ?case by (subst nat_hex.simps) (auto simp: hex_digit_chars)
qed

lemma join_hex_chars: "set (join_with '':'' (map nat_hex gs)) \<subseteq> addr_chars"
proof -
  have "\<Union> (set ` set (map nat_hex gs)) \<subseteq> addr_chars"
    using nat_hex_chars hex_subset_addr by fastforce
  moreover have "set '':'' \<subseteq> addr_chars" by (simp add: addr_chars_def)
  ultimately show ?thesis
    using join_with_chars [of "'':''" "map nat_hex gs"] by blast
qed

lemma join_dec_chars: "set (join_with ''.'' (map (\<lambda>b. nat_dec (f b)) gs)) \<subseteq> addr_chars"
proof -
  have "\<Union> (set ` set (map (\<lambda>b. nat_dec (f b)) gs)) \<subseteq> addr_chars"
    using nat_dec_chars dec_subset_addr by fastforce
  moreover have "set ''.'' \<subseteq> addr_chars" by (simp add: addr_chars_def)
  ultimately show ?thesis
    using join_with_chars [of "''.''" "map (\<lambda>b. nat_dec (f b)) gs"] by blast
qed

lemma groups_String_chars: "set (groups_String gs) \<subseteq> addr_chars"
proof -
  have "CHR '':'' \<in> addr_chars" by (simp add: addr_chars_def)
  then show ?thesis
    using join_hex_chars by (auto simp: groups_String_def split: prod.splits)
qed

lemma ip_String_chars: "set (ip_String a) \<subseteq> addr_chars"
proof -
  have "set ''<nil>'' \<subseteq> addr_chars" "CHR ''?'' \<in> addr_chars" by (simp_all add: addr_chars_def)
  then show ?thesis
    using join_dec_chars groups_String_chars hex_encode_chars [of a] hex_subset_addr
    by (auto simp: ip_String_def split: option.splits)
qed

lemma join_host_port_chars:
  "set (join_host_port h p) \<subseteq> set h \<union> set p \<union> set ''[]:''"
  by (auto simp: join_host_port_def)

lemma udp_String_chars:
  "set (udp_String p) \<subseteq> addr_chars \<union> (case p of None \<Rightarrow> {} | Some a \<Rightarrow> set (Zone a))"
proof (cases p)
  case None
  then show ?thesis by (simp add: udp_String_def addr_chars_def)
next
  case (Some a)
  have brackets: "set ''[]:'' \<subseteq> addr_chars" "CHR ''%'' \<in> addr_chars"
    by (simp_all add: addr_chars_def)
  have port: "set (int_dec (Port a)) \<subseteq> addr_chars"
    using int_dec_chars [of "Port a"] dec_subset_addr minus_addr_char by blast
  let ?h = "if IP a = [] then [] else ip_String (IP a)"
  have host: "set ?h \<subseteq> addr_chars"
    using ip_String_chars by simp
  have sep: "set ''[]:'' \<subseteq> addr_chars"
    using brackets by blast
  have no_zone: "set (join_host_port ?h (int_dec (Port a))) \<subseteq> addr_chars"
    using host port sep join_host_port_chars [of ?h "int_dec (Port a)"] by blast
  have "set (?h @ ''%'' @ Zone a) \<subseteq> addr_chars \<union> set (Zone a)"
    using host brackets(2) by auto
  then have zone: "set (join_host_port (?h @ ''%'' @ Zone a) (int_dec (Port a))) \<subseteq> addr_chars \<union> set (Zone a)"
    using port sep join_host_port_chars [of "?h @ ''%'' @ Zone a" "int_dec (Port a)"] by blast
  have eq: "udp_String p = (if Zone a \<noteq> [] then join_host_port (?h @ ''%'' @ Zone a) (int_dec (Port a))
      else join_host_port ?h (int_dec (Port a)))"
    by (simp only: udp_String_def Some option.case Let_def)
  have "set (udp_String p) \<subseteq> addr_chars \<union> set (Zone a)"
  proof (cases "Zone a = []")
    case False
    then show ?thesis using zone eq by (simp only: if_True simp_thms)
  next
    case True
    then show ?thesis using no_zone eq by (simp only: if_False simp_thms le_supI1)
  qed
  then show ?thesis by (simp only: Some option.case)
qed

subsection \<open>Resolving the text of an address\<close>

text \<open>
  \<open>net.ResolveUDPAddr("udp", a.String())\<close> on an address made of an IP literal: no name is looked up,
  the result is the same address with its IP in 16-byte form.  Any other IP is a host name that does
  not resolve.
\<close>

definition resolve_literal :: "udp_addr \<Rightarrow> udp_addr result" where
  "resolve_literal a =
     (case ip_To16 (IP a) of
        Some b \<Rightarrow> Inr (a\<lparr>IP := b\<rparr>)
      | None \<Rightarrow> Inl (ErrMsg ''lookup: no such host''))"

lemma resolve_literal_wf:
  "ip_wf (IP a) \<Longrightarrow> \<exists>b. resolve_literal a = Inr b \<and> ip_wf (IP b) \<and> Port b = Port a"
  using ip_To16_Some [of "IP a"] by (auto simp: resolve_literal_def ip_wf_def)

lemma resolve_literal_Equal:
  "ip_wf (IP a) \<Longrightarrow> resolve_literal a = Inr b \<Longrightarrow> ip_Equal (IP b) (IP a)"
  by (auto simp: resolve_literal_def ip_To16_def ip_wf_def ip_Equal_def split: if_splits)

end
