(* ===== verification/Peer.thy ===== *)
theory Peer
  imports Net_Addr
begin

section \<open>Peers and sessions (\<open>common.go\<close>)\<close>

text \<open>
  \<open>PeerID\<close> is a Go array of six bytes, \<open>Session\<close> a slice of pointers to UDP addresses (a nil pointer
  is \<open>None\<close>), \<open>SessionTable\<close> a map from the one to the other.  The theory models how the identity of
  the local machine is found (board serial number, else a MAC address), how its address is chosen,
  \<open>Session.Equal\<close> and the hand-written JSON text of a session table.
\<close>

datatype peer_id = PID byte byte byte byte byte byte

instance peer_id :: countable
  by countable_datatype

fun pid_bytes :: "peer_id \<Rightarrow> bytes" where
  "pid_bytes (PID a b c d e f) = [a, b, c, d, e, f]"

fun pid_of_bytes :: "bytes \<Rightarrow> peer_id option" where
  "pid_of_bytes [a, b, c, d, e, f] = Some (PID a b c d e f)"
| "pid_of_bytes _ = None"

lemma pid_bytes_length [simp]: "length (pid_bytes p) = 6"
  by (cases p) simp

lemma pid_of_bytes_bytes [codec_simps]: "pid_of_bytes (pid_bytes p) = Some p"
  by (cases p) simp

lemma pid_of_bytes_Some_bytes: "pid_of_bytes bs = Some p \<Longrightarrow> bs = pid_bytes p"
  by (induction bs rule: pid_of_bytes.induct) auto

lemma pid_of_bytes_Some: "pid_of_bytes bs = Some p \<longleftrightarrow> bs = pid_bytes p"
  using pid_of_bytes_Some_bytes pid_of_bytes_bytes by blast

lemma pid_of_bytes_length: "length bs = 6 \<Longrightarrow> \<exists>p. pid_of_bytes bs = Some p"
  by (induction bs rule: pid_of_bytes.induct) auto

lemma pid_of_bytes_None: "pid_of_bytes bs = None \<longleftrightarrow> length bs \<noteq> 6"
  by (cases "pid_of_bytes bs") (auto dest: pid_of_bytes_Some_bytes pid_of_bytes_length)

lemma pid_bytes_inj: "pid_bytes p = pid_bytes q \<longleftrightarrow> p = q"
  by (cases p; cases q) simp

text \<open>The text of an identifier is used as a JSON key.\<close>

definition PeerID_String :: "peer_id \<Rightarrow> string" where
  "PeerID_String pid = hex_encode (pid_bytes pid)"

lemma PeerID_String_inj: "PeerID_String p = PeerID_String q \<longleftrightarrow> p = q"
  using hex_encode_inj pid_bytes_inj by (auto simp: PeerID_String_def)

lemma PeerID_String_length: "length (PeerID_String p) = 12"
  by (simp add: PeerID_String_def)

subsection \<open>The local peer's identity\<close>

text \<open>\<open>strings.Split(s, " ")\<close> with a one-character separator.\<close>

fun split_on :: "char \<Rightarrow> string \<Rightarrow> string list" where
  "split_on c [] = [[]]"
| "split_on c (x # xs) =
     (if x = c then [] # split_on c xs
      else case split_on c xs of [] \<Rightarrow> [[x]] | y # ys \<Rightarrow> (x # y) # ys)"

lemma split_on_ne: "split_on c s \<noteq> []"
  by (cases s) (auto split: list.splits)

lemma split_on_no_sep: "c \<notin> set s \<Longrightarrow> split_on c s = [s]"
  by (induction s) auto

lemma split_on_append_sep:
  "c \<notin> set s \<Longrightarrow> split_on c (s @ c # t) = s # split_on c t"
  by (induction s) auto

text \<open>
  The copy loop of \<open>RaspberryPiSerial\<close>: from the last byte of the serial number backwards, into
  \<open>pid[j]\<close> for \<open>j = 5\<close> downwards.  The list is the reversed serial, the number is \<open>j + 1\<close>.
\<close>

fun copy_serial :: "bytes \<Rightarrow> nat \<Rightarrow> bytes \<Rightarrow> bytes" where
  "copy_serial [] j pid = pid"
| "copy_serial (b # bs) 0 pid = pid"
| "copy_serial (b # bs) (Suc j) pid = copy_serial bs j (pid[j := b])"

definition serial_of_line :: "string \<Rightarrow> peer_id result may_panic" where
  "serial_of_line line =
     (let parts = split_on (CHR '' '') line in
      if length parts \<le> 1 then None
      else
        let s0 = dropWhile (\<lambda>c. c = CHR ''0'') (parts ! 1);
            s = (if length s0 mod 2 = 1 then CHR ''0'' # s0 else s0)
        in case hex_decode s of
             Inl e \<Rightarrow> Some (Inl (ErrMsg ''failed converting serial to []byte''))
           | Inr serial \<Rightarrow>
               map_option Inr (pid_of_bytes (copy_serial (rev serial) 6 (replicate 6 0))))"

fun scan_serial :: "string list \<Rightarrow> go_error option \<Rightarrow> peer_id result may_panic" where
  "scan_serial [] (Some e) = Some (Inl (ErrMsg ''failed to read serial number''))"
| "scan_serial [] None = Some (Inl (ErrMsg ''cannot find serial number from /proc/cpuinfo''))"
| "scan_serial (line # ls) e =
     (if 10 < length line \<and> take 7 line = ''Serial'' @ [CHR 0x09] then serial_of_line line
      else scan_serial ls e)"

text \<open>\<open>cpuinfo\<close> is the result of opening the file: its lines and the scanner's final error.\<close>

definition RaspberryPiSerial :: "(string list \<times> go_error option) result \<Rightarrow> peer_id result may_panic" where
  "RaspberryPiSerial cpuinfo =
     (case cpuinfo of
        Inl e \<Rightarrow> Some (Inl (ErrMsg ''cannot open /proc/cpuinfo''))
      | Inr (ls, e) \<Rightarrow> scan_serial ls e)"

text \<open>A network interface as \<open>net.Interfaces\<close> and \<open>Interface.Addrs\<close> describe it.\<close>

record iface =
  if_Name :: string
  if_Up :: bool
  if_HardwareAddr :: bytes
  if_Addrs :: "(ip result) list result"  \<comment> \<open>each address as \<open>net.ParseCIDR\<close> reads it\<close>

fun first_mac :: "iface list \<Rightarrow> bytes result" where
  "first_mac [] = Inl (ErrMsg ''No active ethernet available'')"
| "first_mac (i # is) =
     (if if_Up i \<and> if_HardwareAddr i \<noteq> [] then Inr (if_HardwareAddr i) else first_mac is)"

definition ActiveMacAddress :: "iface list result \<Rightarrow> bytes result" where
  "ActiveMacAddress ifaces = (case ifaces of Inl e \<Rightarrow> Inl e | Inr is \<Rightarrow> first_mac is)"

text \<open>
  Copying a MAC address into the six-byte array, index by index: a longer address runs past the
  array and panics.
\<close>

definition copy_mac :: "bytes \<Rightarrow> peer_id may_panic" where
  "copy_mac mac =
     (if length mac > 6 then None
      else pid_of_bytes (mac @ replicate (6 - length mac) 0))"

definition LocalPeerID ::
  "(string list \<times> go_error option) result \<Rightarrow> iface list result \<Rightarrow> peer_id result may_panic" where
  "LocalPeerID cpuinfo ifaces =
     (case RaspberryPiSerial cpuinfo of
        None \<Rightarrow> None
      | Some (Inr serial) \<Rightarrow> Some (Inr serial)
      | Some (Inl _) \<Rightarrow>
          (case ActiveMacAddress ifaces of
             Inr mac \<Rightarrow>
               (if length mac \<ge> 6 then map_option Inr (copy_mac mac)
                else Some (Inl (ErrMsg ''CPU serial and active ethernet are not available'')))
           | Inl _ \<Rightarrow> Some (Inl (ErrMsg ''CPU serial and active ethernet are not available''))))"

subsection \<open>What the serial number becomes\<close>

lemma copy_serial_length [simp]: "length (copy_serial bs j pid) = length pid"
  by (induction bs j pid rule: copy_serial.induct) auto

lemma serial_of_line_no_panic:
  "length (split_on (CHR '' '') line) > 1 \<Longrightarrow> serial_of_line line \<noteq> None"
  using pid_of_bytes_length by (auto simp: serial_of_line_def Let_def split: sum.splits)

text \<open>The bytes are right-aligned: the last six of them, zeros in front when there are fewer.\<close>

definition right_align :: "nat \<Rightarrow> bytes \<Rightarrow> bytes" where
  "right_align n bs = replicate (n - length bs) 0 @ drop (length bs - n) bs"

lemma copy_serial_eq:
  "j \<le> length pid \<Longrightarrow>
   copy_serial bs j pid =
     take (j - length bs) pid @ rev (take j bs) @ drop j pid"
proof (induction bs j pid rule: copy_serial.induct)
  case (3 b bs j pid)
  then have "copy_serial bs j (pid[j := b]) =
      take (j - length bs) (pid[j := b]) @ rev (take j bs) @ drop j (pid[j := b])"
    by simp
  moreover have "drop j (pid[j := b]) = b # drop (Suc j) pid"
    using 3 by (simp add: drop_update_swap Cons_nth_drop_Suc [symmetric])
  ultimately show ?case by simp
qed auto

lemma copy_serial_right_align:
  "copy_serial (rev bs) 6 (replicate 6 0) = right_align 6 bs"
  by (simp add: copy_serial_eq right_align_def take_rev)

lemma right_align_dropWhile: "right_align n (dropWhile (\<lambda>b. b = 0) bs) = right_align n bs"
proof (induction bs)
  case (Cons b bs)
  have "right_align n (0 # bs) = right_align n bs"
  proof (cases "length bs < n")
    case True
    then have "n - length bs = Suc (n - Suc (length bs))" by arith
    then have "replicate (n - length bs) (0 :: byte) = replicate (n - Suc (length bs)) 0 @ [0]"
      by (simp add: replicate_append_same)
    with True show ?thesis by (simp add: right_align_def)
  next
    case False
    then have "Suc (length bs) - n = Suc (length bs - n)" by arith
    with False show ?thesis by (simp add: right_align_def)
  qed
  with Cons show ?case by simp
qed simp

text \<open>Trimming zeros off the hexadecimal text and padding it back to even length trims zero bytes.\<close>

definition pad_even :: "string \<Rightarrow> string" where
  "pad_even s = (if length s mod 2 = 1 then CHR ''0'' # s else s)"

lemma hex_digit_zero_iff: "n < 16 \<Longrightarrow> hex_digit n = CHR ''0'' \<longleftrightarrow> n = 0"
  using hex_value_digit [of n] hex_value_digit [of 0] by (auto simp: hex_digit_def)

lemma pad_even_trim:
  "pad_even (dropWhile (\<lambda>c. c = CHR ''0'') (hex_encode bs)) = hex_encode (dropWhile (\<lambda>b. b = 0) bs)"
proof (induction bs)
  case (Cons b bs)
  let ?h = "unat b div 16" and ?l = "unat b mod 16"
  have h: "hex_digit ?h = CHR ''0'' \<longleftrightarrow> ?h = 0" and l: "hex_digit ?l = CHR ''0'' \<longleftrightarrow> ?l = 0"
    using hex_digit_zero_iff unat_byte_div by auto
  have z: "b = 0 \<longleftrightarrow> ?h = 0 \<and> ?l = 0"
    by (metis bits_mod_div_trivial div_mult_mod_eq mult_0 plus_nat.add_0 unat_0 word_unat_eq_iff mod_0 div_0)
  show ?case
    using Cons h l z by (auto simp: pad_even_def hex_digit_def)
qed (simp add: pad_even_def)

lemma hex_chars_no_blank: "CHR '' '' \<notin> hex_chars"
  by (simp add: hex_chars_def)

lemma serial_of_line_hex:
  assumes "CHR '' '' \<notin> set key"
  shows "serial_of_line (key @ CHR '' '' # hex_encode bs) = map_option Inr (pid_of_bytes (right_align 6 bs))"
proof -
  have "CHR '' '' \<notin> set (hex_encode bs)"
    using hex_encode_chars hex_chars_no_blank by blast
  then have parts: "split_on (CHR '' '') (key @ CHR '' '' # hex_encode bs) = [key, hex_encode bs]"
    using assms by (simp add: split_on_append_sep split_on_no_sep)
  have "hex_decode (pad_even (dropWhile (\<lambda>c. c = CHR ''0'') (hex_encode bs)))
          = Inr (dropWhile (\<lambda>b. b = 0) bs)"
    by (simp add: pad_even_trim hex_decode_encode)
  then show ?thesis
    by (simp add: serial_of_line_def parts pad_even_def [symmetric]
        copy_serial_right_align right_align_dropWhile del: One_nat_def)
qed

text \<open>\<open>LocalPeerID\<close> panics on a MAC address longer than six bytes, and only there or in the serial.\<close>

lemma LocalPeerID_mac:
  assumes "RaspberryPiSerial cpuinfo = Some (Inl e)" and "ActiveMacAddress ifaces = Inr mac"
  shows "LocalPeerID cpuinfo ifaces =
    (if length mac = 6 then map_option Inr (pid_of_bytes mac)
     else if length mac < 6 then Some (Inl (ErrMsg ''CPU serial and active ethernet are not available''))
     else None)"
  using assms by (auto simp: LocalPeerID_def copy_mac_def)

lemma first_mac_Inr: "first_mac is = Inr mac \<Longrightarrow> \<exists>i \<in> set is. if_Up i \<and> if_HardwareAddr i = mac \<and> mac \<noteq> []"
  by (induction "is") (auto split: if_splits)

subsection \<open>The local machine's IPv4 address\<close>

text \<open>
  \<open>rExclude\<close> is the regular expression \<open>^[lo|tun|utun]\<close>: a character class, so it matches every
  name that starts with one of the characters between the brackets.
\<close>

definition rExclude :: "string \<Rightarrow> bool" where
  "rExclude name = (case name of [] \<Rightarrow> False | c # _ \<Rightarrow> c \<in> set ''lo|tun|utun'')"

text \<open>
  The address loop of \<open>LocalIPv4\<close>: \<open>dial\<close> says whether an IP socket bound to the address reaches
  the server.  On a parse error the IP is nil, \<open>To4\<close> of it is nil, and the loop does not skip it.
\<close>

fun dial_addrs :: "(ip \<Rightarrow> bool) \<Rightarrow> ip result list \<Rightarrow> ip option" where
  "dial_addrs dial [] = None"
| "dial_addrs dial (a # as) =
     (let (laddr, err) = (case a of Inr x \<Rightarrow> (x, False) | Inl _ \<Rightarrow> ([], True)) in
      if err \<and> ip_To4 laddr \<noteq> None then dial_addrs dial as
      else if dial laddr then Some laddr else dial_addrs dial as)"

fun local_scan :: "(ip \<Rightarrow> bool) \<Rightarrow> iface list \<Rightarrow> ip option" where
  "local_scan dial [] = None"
| "local_scan dial (i # is) =
     (if rExclude (if_Name i) \<or> \<not> if_Up i then local_scan dial is
      else case if_Addrs i of
             Inl _ \<Rightarrow> local_scan dial is
           | Inr as \<Rightarrow> (case dial_addrs dial as of Some x \<Rightarrow> Some x | None \<Rightarrow> local_scan dial is))"

definition LocalIPv4 :: "unit result \<Rightarrow> iface list result \<Rightarrow> (ip \<Rightarrow> bool) \<Rightarrow> ip option" where
  "LocalIPv4 raddr ifaces dial =
     (case raddr of Inl _ \<Rightarrow> None
      | Inr _ \<Rightarrow> (case ifaces of Inl _ \<Rightarrow> None | Inr is \<Rightarrow> local_scan dial is))"

fun first_v4 :: "ip result list \<Rightarrow> ip option" where
  "first_v4 [] = None"
| "first_v4 (a # as) =
     (case a of Inr x \<Rightarrow> (if ip_To4 x \<noteq> None then Some x else first_v4 as) | Inl _ \<Rightarrow> first_v4 as)"

definition IPv4ofInterface :: "iface result \<Rightarrow> ip option" where
  "IPv4ofInterface i =
     (case i of Inl _ \<Rightarrow> None
      | Inr f \<Rightarrow> (case if_Addrs f of Inl _ \<Rightarrow> None | Inr as \<Rightarrow> first_v4 as))"

lemma first_v4_Some: "first_v4 as = Some x \<Longrightarrow> Inr x \<in> set as \<and> ip_To4 x \<noteq> None"
  by (induction as) (auto split: sum.splits if_splits)

lemma dial_addrs_Some: "dial_addrs dial as = Some x \<Longrightarrow> dial x"
  by (induction as) (auto simp: Let_def split: sum.splits if_splits)

lemma local_scan_Some:
  "local_scan dial is = Some x \<Longrightarrow>
   \<exists>i \<in> set is. if_Up i \<and> \<not> rExclude (if_Name i) \<and> dial x"
  by (induction "is") (auto dest: dial_addrs_Some split: if_splits sum.splits option.splits)

subsection \<open>Sessions\<close>

type_synonym session = "udp_addr option list"
type_synonym session_table = "peer_id \<rightharpoonup> session"

text \<open>
  \<open>Session.Equal\<close>, the loop as it is written: a pair of positions that agree ends it with \<open>False\<close>.
  Dereferencing a nil pointer, or indexing past the other session, panics.
\<close>

fun session_loop :: "session \<Rightarrow> session \<Rightarrow> bool may_panic" where
  "session_loop [] ss = Some True"
| "session_loop (x # s) [] = None"
| "session_loop (x # s) (y # ss) =
     (case y of None \<Rightarrow> None
      | Some b \<Rightarrow> (case x of None \<Rightarrow> None
        | Some a \<Rightarrow> if IP b = IP a \<and> Port b = Port a then Some False else session_loop s ss))"

definition Session_Equal :: "session \<Rightarrow> session \<Rightarrow> bool may_panic" where
  "Session_Equal s ss = (if length s \<noteq> length ss then Some False else session_loop s ss)"

text \<open>What the name and the comment promise: same length, same IP and port at every position.\<close>

definition same_endpoint :: "udp_addr \<Rightarrow> udp_addr \<Rightarrow> bool" where
  "same_endpoint a b \<longleftrightarrow> IP a = IP b \<and> Port a = Port b"

definition sessions_same :: "udp_addr list \<Rightarrow> udp_addr list \<Rightarrow> bool" where
  "sessions_same as bs = list_all2 same_endpoint as bs"

text \<open>What the code computes: same length, and the endpoints differ at every position.\<close>

lemma session_loop_differ:
  "length as = length bs \<Longrightarrow>
   session_loop (map Some as) (map Some bs) = Some (list_all2 (\<lambda>a b. \<not> same_endpoint a b) as bs)"
  by (induction as bs rule: list_induct2) (auto simp: same_endpoint_def)

lemma Session_Equal_differ:
  "Session_Equal (map Some as) (map Some bs) = Some (list_all2 (\<lambda>a b. \<not> same_endpoint a b) as bs)"
  by (auto simp: Session_Equal_def session_loop_differ dest: list_all2_lengthD)

lemma Session_Equal_refl_False:
  "as \<noteq> [] \<Longrightarrow> Session_Equal (map Some as) (map Some as) = Some False"
  using Session_Equal_differ [of as as] by (cases as) (auto simp: same_endpoint_def)

lemma Session_Equal_panic:
  "Session_Equal s ss = None \<Longrightarrow> None \<in> set s \<or> None \<in> set ss"
proof -
  have "session_loop s ss = None \<Longrightarrow> length s = length ss \<Longrightarrow> None \<in> set s \<or> None \<in> set ss"
    by (induction s ss rule: session_loop.induct) (auto split: option.splits if_splits)
  then show "Session_Equal s ss = None \<Longrightarrow> None \<in> set s \<or> None \<in> set ss"
    by (auto simp: Session_Equal_def split: if_splits)
qed

subsection \<open>The JSON text of a session table\<close>

text \<open>\<open>SessionTable.JSON\<close>, its two loops with their index tests; \<open>pids\<close> is the order of the range.\<close>

definition quoted :: "string \<Rightarrow> string" where
  "quoted s = [CHR 0x22] @ s @ [CHR 0x22]"

fun json_addrs :: "nat \<Rightarrow> session \<Rightarrow> string" where
  "json_addrs j [] = []"
| "json_addrs j (a # as) =
     (if j > 0 then '','' else []) @ quoted (udp_String a) @ json_addrs (Suc j) as"

fun json_sessions :: "nat \<Rightarrow> peer_id list \<Rightarrow> session_table \<Rightarrow> string" where
  "json_sessions i [] st = []"
| "json_sessions i (pid # pids) st =
     (if i > 0 then '','' else []) @ quoted (PeerID_String pid) @ '':'' @
     ''['' @ json_addrs 0 (case st pid of Some s \<Rightarrow> s | None \<Rightarrow> []) @ '']'' @
     json_sessions (Suc i) pids st"

definition SessionTable_JSON :: "peer_id list \<Rightarrow> session_table \<Rightarrow> string" where
  "SessionTable_JSON pids st = ''{'' @ json_sessions 0 pids st @ ''}''"

text \<open>
  A reader for that shape of JSON text: an object of string keys and arrays of strings, no escapes
  inside the strings.
\<close>

definition read_string :: "string \<Rightarrow> (string \<times> string) option" where
  "read_string cs =
     (case cs of
        c # cs' \<Rightarrow>
          (let s = takeWhile (\<lambda>d. d \<noteq> CHR 0x22) cs'; r = dropWhile (\<lambda>d. d \<noteq> CHR 0x22) cs' in
           if c \<noteq> CHR 0x22 \<or> r = [] \<or> CHR 0x5C \<in> set s then None else Some (s, tl r))
      | [] \<Rightarrow> None)"

lemma read_string_shorter: "read_string cs = Some (s, r) \<Longrightarrow> length r < length cs"
  using length_dropWhile_le [of "\<lambda>d. d \<noteq> CHR 0x22" "tl cs"]
  by (auto simp: read_string_def Let_def split: list.splits if_splits)

definition json_safe :: "string \<Rightarrow> bool" where
  "json_safe s \<longleftrightarrow> CHR 0x22 \<notin> set s \<and> CHR 0x5C \<notin> set s"

lemma read_string_quoted: "json_safe s \<Longrightarrow> read_string (quoted s @ r) = Some (s, r)"
proof -
  assume safe: "json_safe s"
  then have "\<forall>d \<in> set s. d \<noteq> CHR 0x22" and esc: "CHR 0x5C \<notin> set s"
    by (auto simp: json_safe_def)
  then have "takeWhile (\<lambda>d. d \<noteq> CHR 0x22) (s @ CHR 0x22 # r) = s"
    and "dropWhile (\<lambda>d. d \<noteq> CHR 0x22) (s @ CHR 0x22 # r) = CHR 0x22 # r"
    by (simp_all add: takeWhile_append2 dropWhile_append2)
  with esc show ?thesis by (simp add: read_string_def quoted_def)
qed

fun read_strings :: "nat \<Rightarrow> string \<Rightarrow> (string list \<times> string) option" where
  "read_strings 0 cs = None"
| "read_strings (Suc n) cs =
     (case read_string cs of None \<Rightarrow> None
      | Some (s, r) \<Rightarrow>
          (case r of
             c # r' \<Rightarrow>
               (if c = CHR '']'' then Some ([s], r')
                else if c = CHR '','' then
                  (case read_strings n r' of None \<Rightarrow> None | Some (ss, r2) \<Rightarrow> Some (s # ss, r2))
                else None)
           | [] \<Rightarrow> None))"

definition read_array :: "nat \<Rightarrow> string \<Rightarrow> (string list \<times> string) option" where
  "read_array n cs =
     (case cs of
        CHR ''['' # CHR '']'' # r \<Rightarrow> Some ([], r)
      | CHR ''['' # r \<Rightarrow> read_strings n r
      | _ \<Rightarrow> None)"

fun read_members :: "nat \<Rightarrow> string \<Rightarrow> ((string \<times> string list) list \<times> string) option" where
  "read_members 0 cs = None"
| "read_members (Suc n) cs =
     (case read_string cs of None \<Rightarrow> None
      | Some (k, r) \<Rightarrow>
          (case r of
             [] \<Rightarrow> None
           | d # r1 \<Rightarrow>
               if d \<noteq> CHR '':'' then None
               else case read_array (length cs) r1 of None \<Rightarrow> None
                 | Some (v, r2) \<Rightarrow>
                     (case r2 of
                        c # r3 \<Rightarrow>
                          (if c = CHR ''}'' then Some ([(k, v)], r3)
                           else if c = CHR '','' then
                             (case read_members n r3 of None \<Rightarrow> None
                              | Some (ms, r4) \<Rightarrow> Some ((k, v) # ms, r4))
                           else None)
                      | [] \<Rightarrow> None)))"

definition read_table :: "string \<Rightarrow> (string \<times> string list) list option" where
  "read_table cs =
     (case cs of
        CHR ''{'' # CHR ''}'' # r \<Rightarrow> (if r = [] then Some [] else None)
      | CHR ''{'' # r \<Rightarrow> (case read_members (length r) r of Some (ms, []) \<Rightarrow> Some ms | _ \<Rightarrow> None)
      | _ \<Rightarrow> None)"

text \<open>The writer's output reads back as the table, whatever the order of the range.\<close>

definition session_safe :: "session \<Rightarrow> bool" where
  "session_safe s \<longleftrightarrow> (\<forall>a. Some a \<in> set s \<longrightarrow> json_safe (Zone a))"

lemma addr_chars_safe: "CHR 0x22 \<notin> addr_chars" "CHR 0x5C \<notin> addr_chars"
  by (simp_all add: addr_chars_def)

lemma udp_String_safe: "(\<And>a. p = Some a \<Longrightarrow> json_safe (Zone a)) \<Longrightarrow> json_safe (udp_String p)"
  using udp_String_chars [of p] addr_chars_safe
  by (cases p) (auto simp: json_safe_def)

lemma PeerID_String_safe: "json_safe (PeerID_String p)"
  using hex_encode_chars [of "pid_bytes p"] by (auto simp: json_safe_def PeerID_String_def hex_chars_def)

lemma read_strings_json:
  assumes "\<And>a. a \<in> set (p # ps) \<Longrightarrow> json_safe (udp_String a)" and "length ps < n"
  shows "read_strings n (quoted (udp_String p) @ json_addrs (Suc j) ps @ CHR '']'' # r)
           = Some (map udp_String (p # ps), r)"
  using assms
proof (induction ps arbitrary: p n j)
  case Nil
  then obtain m where "n = Suc m" by (cases n) auto
  with Nil show ?case by (simp add: read_string_quoted)
next
  case (Cons q ps)
  then obtain m where n: "n = Suc m" by (cases n) auto
  with Cons have "read_strings m (quoted (udp_String q) @ json_addrs (Suc (Suc j)) ps @ CHR '']'' # r)
      = Some (map udp_String (q # ps), r)"
    by auto
  with n Cons.prems show ?case by (simp add: read_string_quoted)
qed

lemma quoted_ne: "\<exists>x xs. quoted s = CHR 0x22 # x # xs"
  by (cases s) (auto simp: quoted_def)

lemma json_addrs_length: "length as \<le> length (json_addrs j as)"
  by (induction as arbitrary: j) (auto simp: quoted_def intro!: le_SucI trans_le_add2)

lemma read_array_json:
  assumes "session_safe s" and "length s < n"
  shows "read_array n (CHR ''['' # json_addrs 0 s @ CHR '']'' # r) = Some (map udp_String s, r)"
proof (cases s)
  case Nil
  then show ?thesis by (simp add: read_array_def)
next
  case (Cons p ps)
  have safe: "json_safe (udp_String a)" if "a \<in> set (p # ps)" for a
    using assms(1) that by (intro udp_String_safe) (auto simp: session_safe_def Cons)
  have "read_strings n (quoted (udp_String p) @ json_addrs (Suc 0) ps @ CHR '']'' # r)
      = Some (map udp_String (p # ps), r)"
    using assms(2) by (intro read_strings_json safe) (auto simp: Cons)
  then show ?thesis
    using quoted_ne [of "udp_String p"] by (auto simp: read_array_def Cons)
qed

definition table_texts :: "peer_id list \<Rightarrow> session_table \<Rightarrow> (string \<times> string list) list" where
  "table_texts pids st = map (\<lambda>pid. (PeerID_String pid,
     map udp_String (case st pid of Some s \<Rightarrow> s | None \<Rightarrow> []))) pids"

lemma read_members_json:
  assumes "\<And>pid. pid \<in> set (p # ps) \<Longrightarrow> session_safe (case st pid of Some s \<Rightarrow> s | None \<Rightarrow> [])"
    and "length ps < n"
  shows "read_members n (quoted (PeerID_String p) @ '':['' @
            json_addrs 0 (case st p of Some s \<Rightarrow> s | None \<Rightarrow> []) @ '']'' @
            json_sessions (Suc i) ps st @ CHR ''}'' # r) = Some (table_texts (p # ps) st, r)"
  using assms
proof (induction ps arbitrary: p n i)
  case Nil
  let ?s = "case st p of Some s \<Rightarrow> s | None \<Rightarrow> []"
  from Nil obtain m where n: "n = Suc m" by (cases n) auto
  let ?cs = "quoted (PeerID_String p) @ '':['' @ json_addrs 0 ?s @ '']}'' @ r"
  have "length ?s < length ?cs"
    using json_addrs_length [of ?s 0] by simp
  then have "read_array (length ?cs) (CHR ''['' # json_addrs 0 ?s @ CHR '']'' # ''}'' @ r)
      = Some (map udp_String ?s, ''}'' @ r)"
    using Nil by (intro read_array_json) auto
  then show ?case
    by (simp add: n read_string_quoted PeerID_String_safe table_texts_def)
next
  case (Cons q ps)
  let ?s = "case st p of Some s \<Rightarrow> s | None \<Rightarrow> []"
  from Cons obtain m where n: "n = Suc m" by (cases n) auto
  let ?tl = "json_sessions (Suc i) (q # ps) st @ CHR ''}'' # r"
  let ?cs = "quoted (PeerID_String p) @ '':['' @ json_addrs 0 ?s @ '']'' @ ?tl"
  have "length ?s < length ?cs"
    using json_addrs_length [of ?s 0] by simp
  then have arr: "read_array (length ?cs) (CHR ''['' # json_addrs 0 ?s @ CHR '']'' # ?tl)
      = Some (map udp_String ?s, ?tl)"
    using Cons.prems by (intro read_array_json) auto
  have IH: "read_members m (quoted (PeerID_String q) @ '':['' @
            json_addrs 0 (case st q of Some s \<Rightarrow> s | None \<Rightarrow> []) @ '']'' @
            json_sessions (Suc (Suc i)) ps st @ CHR ''}'' # r) = Some (table_texts (q # ps) st, r)"
    using Cons.prems n by (intro Cons.IH) auto
  then show ?case
    using arr by (simp add: n read_string_quoted PeerID_String_safe table_texts_def)
qed

lemma json_sessions_length: "length ps \<le> length (json_sessions i ps st)"
  by (induction ps arbitrary: i) (auto simp: quoted_def intro!: le_SucI trans_le_add2)

lemma read_table_object:
  assumes "r = CHR 0x22 # xs" and "read_members (length r) r = Some (ms, [])"
  shows "read_table (CHR ''{'' # r) = Some ms"
  unfolding read_table_def using assms(2) by (simp add: assms(1) del: read_members.simps)

lemma read_table_JSON:
  assumes "\<And>pid s. st pid = Some s \<Longrightarrow> session_safe s"
  shows "read_table (SessionTable_JSON pids st) = Some (table_texts pids st)"
proof (cases pids)
  case Nil
  then show ?thesis by (simp add: read_table_def SessionTable_JSON_def table_texts_def)
next
  case (Cons p ps)
  have safe: "session_safe (case st pid of Some s \<Rightarrow> s | None \<Rightarrow> [])" for pid
    using assms by (cases "st pid") (auto simp: session_safe_def)
  let ?r = "quoted (PeerID_String p) @ '':['' @
            json_addrs 0 (case st p of Some s \<Rightarrow> s | None \<Rightarrow> []) @ '']'' @
            json_sessions (Suc 0) ps st @ ''}''"
  have "length ps < length ?r"
    using json_sessions_length [of ps "Suc 0" st] by simp
  then have "read_members (length ?r) ?r = Some (table_texts (p # ps) st, [])"
    using safe by (intro read_members_json [where r = "[]"]) auto
  moreover obtain xs where "?r = CHR 0x22 # xs"
    by (simp add: quoted_def)
  ultimately have "read_table (CHR ''{'' # ?r) = Some (table_texts (p # ps) st)"
    by (intro read_table_object)
  then show ?thesis
    by (simp add: SessionTable_JSON_def Cons)
qed

end
