(* ===== verification/Stun_Msg.thy ===== *)
theory Stun_Msg
  imports Peer
begin

unbundle bit_operations_syntax

section \<open>STUN messages and what \<open>common.go\<close> puts into them\<close>

text \<open>
  The STUN library (\<open>github.com/gortc/stun\<close>) and the MessagePack codec are not part of the
  repository: they are a parameter of the model, a record \<open>stun_lib\<close> of the functions the code
  calls, over an abstract type of messages.  \<open>stun_laws\<close> states what their documentation promises
  and the code relies on; theorems that need it have it as a hypothesis.  The setters and getters
  that \<open>common.go\<close> itself defines (\<open>PeerMessage\<close>, \<open>PeerID\<close>, \<open>TorrentPorts\<close>, \<open>SessionTable\<close>) and
  \<open>validateMessage\<close> are modelled.
\<close>

datatype stun_method = MethodBinding | MethodData | MethodChannelBind | MethodOther nat
datatype stun_class = ClassRequest | ClassIndication | ClassSuccessResponse | ClassErrorResponse
datatype message_type = MessageType (Method: stun_method) (Class: stun_class)
datatype stun_attr = AttrUsername | AttrData | AttrEvenPort

definition BindingRequest :: message_type where
  "BindingRequest = MessageType MethodBinding ClassRequest"
definition BindingSuccess :: message_type where
  "BindingSuccess = MessageType MethodBinding ClassSuccessResponse"
definition stunDataIndication :: message_type where
  "stunDataIndication = MessageType MethodData ClassIndication"
definition stunBindingIndication :: message_type where
  "stunBindingIndication = MessageType MethodBinding ClassIndication"
definition stunChannelBindIndication :: message_type where
  "stunChannelBindIndication = MessageType MethodChannelBind ClassIndication"

definition stunMaxPacketDataSize :: nat where
  "stunMaxPacketDataSize = 56 * 1024"

type_synonym xor_addr = "ip \<times> int"
type_synonym table_entries = "(peer_id \<times> session) list"

record 'm stun_lib =
  lib_new :: 'm                                   \<comment> \<open>a message after \<open>Reset\<close>\<close>
  lib_type :: "'m \<Rightarrow> message_type"
  lib_tid :: "'m \<Rightarrow> bytes"                          \<comment> \<open>\<open>TransactionID\<close>\<close>
  lib_get :: "'m \<Rightarrow> stun_attr \<Rightarrow> bytes result"       \<comment> \<open>\<open>Message.Get\<close>\<close>
  lib_add :: "'m \<Rightarrow> stun_attr \<Rightarrow> bytes \<Rightarrow> 'm"        \<comment> \<open>\<open>Message.Add\<close>\<close>
  lib_build :: "('m \<Rightarrow> 'm result) list \<Rightarrow> 'm result"  \<comment> \<open>\<open>Build\<close>\<close>
  lib_set_type :: "message_type \<Rightarrow> 'm \<Rightarrow> 'm result"
  lib_rand_tid :: "'m \<Rightarrow> 'm result"                 \<comment> \<open>the setter \<open>stun.TransactionID\<close>\<close>
  lib_set_tid :: "bytes \<Rightarrow> 'm \<Rightarrow> 'm result"          \<comment> \<open>\<open>NewTransactionIDSetter\<close>\<close>
  lib_add_xor :: "xor_addr \<Rightarrow> 'm \<Rightarrow> 'm result"       \<comment> \<open>\<open>XORMappedAddress.AddTo\<close>\<close>
  lib_get_xor :: "'m \<Rightarrow> xor_addr result"             \<comment> \<open>\<open>XORMappedAddress.GetFrom\<close>\<close>
  lib_add_integrity :: "string \<Rightarrow> 'm \<Rightarrow> 'm result"   \<comment> \<open>\<open>NewShortTermIntegrity(p).AddTo\<close>\<close>
  lib_check_integrity :: "string \<Rightarrow> 'm \<Rightarrow> go_error option"
  lib_add_fingerprint :: "'m \<Rightarrow> 'm result"
  lib_check_fingerprint :: "'m \<Rightarrow> go_error option"
  lib_username :: "'m \<Rightarrow> bytes result"              \<comment> \<open>\<open>Username.GetFrom\<close>\<close>
  lib_is_message :: "bytes \<Rightarrow> bool"                 \<comment> \<open>\<open>IsMessage\<close>\<close>
  lib_decode :: "bytes \<Rightarrow> 'm result"                \<comment> \<open>\<open>Message.Write\<close>\<close>
  lib_raw :: "'m \<Rightarrow> bytes"                          \<comment> \<open>the field \<open>Raw\<close>\<close>
  lib_marshal :: "table_entries \<Rightarrow> bytes result"    \<comment> \<open>\<open>msgpack.Marshal\<close> of a session table\<close>
  lib_unmarshal :: "bytes \<Rightarrow> table_entries result"

text \<open>Two messages with the same type, the same attributes and the same mapped address.\<close>

definition same_content :: "'m stun_lib \<Rightarrow> 'm \<Rightarrow> 'm \<Rightarrow> bool" where
  "same_content lib m m' \<longleftrightarrow>
     lib_type lib m' = lib_type lib m \<and> lib_get lib m' = lib_get lib m \<and>
     lib_get_xor lib m' = lib_get_xor lib m"

definition attr_laws :: "'m stun_lib \<Rightarrow> bool" where
  "attr_laws lib \<longleftrightarrow>
     (\<forall>t. is_err (lib_get lib (lib_new lib) t)) \<and>
     (\<forall>m t v. is_err (lib_get lib m t) \<longrightarrow> lib_get lib (lib_add lib m t v) t = Inr v) \<and>
     (\<forall>m t u v. u \<noteq> t \<longrightarrow> lib_get lib (lib_add lib m t v) u = lib_get lib m u) \<and>
     (\<forall>m t v. lib_type lib (lib_add lib m t v) = lib_type lib m) \<and>
     (\<forall>m t v. lib_get_xor lib (lib_add lib m t v) = lib_get_xor lib m) \<and>
     (\<forall>m. lib_username lib m = lib_get lib m AttrUsername)"

definition header_laws :: "'m stun_lib \<Rightarrow> bool" where
  "header_laws lib \<longleftrightarrow>
     (\<forall>fs. lib_build lib fs = apply_all fs (lib_new lib)) \<and>
     (\<forall>ty m m'. lib_set_type lib ty m = Inr m' \<longrightarrow> lib_type lib m' = ty \<and>
        lib_get lib m' = lib_get lib m \<and> lib_get_xor lib m' = lib_get_xor lib m) \<and>
     (\<forall>m m'. lib_rand_tid lib m = Inr m' \<longrightarrow> same_content lib m m') \<and>
     (\<forall>i m m'. lib_set_tid lib i m = Inr m' \<longrightarrow> same_content lib m m') \<and>
     (\<forall>a p m m'. ip_wf a \<and> 0 \<le> p \<and> p < 65536 \<and> lib_add_xor lib (a, p) m = Inr m' \<longrightarrow>
        lib_type lib m' = lib_type lib m \<and> lib_get lib m' = lib_get lib m \<and>
        (\<exists>b. lib_get_xor lib m' = Inr (b, p) \<and> ip_wf b \<and> ip_Equal b a)) \<and>
     (\<forall>m a p. lib_get_xor lib m = Inr (a, p) \<longrightarrow> ip_wf a)"

definition protection_laws :: "'m stun_lib \<Rightarrow> bool" where
  "protection_laws lib \<longleftrightarrow>
     (\<forall>p m m'. lib_add_integrity lib p m = Inr m' \<longrightarrow> same_content lib m m') \<and>
     (\<forall>m m'. lib_add_fingerprint lib m = Inr m' \<longrightarrow> same_content lib m m') \<and>
     (\<forall>p m m1 m2. lib_add_integrity lib p m = Inr m1 \<and> lib_add_fingerprint lib m1 = Inr m2 \<longrightarrow>
        lib_check_integrity lib p m2 = None \<and> lib_check_fingerprint lib m2 = None)"

definition wire_laws :: "'m stun_lib \<Rightarrow> bool" where
  "wire_laws lib \<longleftrightarrow>
     (\<forall>m. lib_is_message lib (lib_raw lib m) \<and> lib_decode lib (lib_raw lib m) = Inr m) \<and>
     (\<forall>es b. lib_marshal lib es = Inr b \<longrightarrow> lib_unmarshal lib b = Inr es)"

definition stun_laws :: "'m stun_lib \<Rightarrow> bool" where
  "stun_laws lib \<longleftrightarrow> attr_laws lib \<and> header_laws lib \<and> protection_laws lib \<and> wire_laws lib"

lemma attr_lawsD:
  assumes "stun_laws lib"
  shows "is_err (lib_get lib (lib_new lib) t)"
    and "is_err (lib_get lib m t) \<Longrightarrow> lib_get lib (lib_add lib m t v) t = Inr v"
    and "u \<noteq> t \<Longrightarrow> lib_get lib (lib_add lib m t v) u = lib_get lib m u"
    and "lib_type lib (lib_add lib m t v) = lib_type lib m"
    and "lib_get_xor lib (lib_add lib m t v) = lib_get_xor lib m"
    and "lib_username lib m = lib_get lib m AttrUsername"
  using assms by (auto simp: stun_laws_def attr_laws_def)

lemma header_lawsD:
  assumes "stun_laws lib"
  shows "lib_build lib fs = apply_all fs (lib_new lib)"
    and "lib_set_type lib ty m = Inr m' \<Longrightarrow> lib_type lib m' = ty \<and>
        lib_get lib m' = lib_get lib m \<and> lib_get_xor lib m' = lib_get_xor lib m"
    and "lib_rand_tid lib m = Inr m' \<Longrightarrow> same_content lib m m'"
    and "lib_set_tid lib i m = Inr m' \<Longrightarrow> same_content lib m m'"
    and "ip_wf a \<Longrightarrow> 0 \<le> p \<Longrightarrow> p < 65536 \<Longrightarrow> lib_add_xor lib (a, p) m = Inr m' \<Longrightarrow>
        lib_type lib m' = lib_type lib m \<and> lib_get lib m' = lib_get lib m \<and>
        (\<exists>b. lib_get_xor lib m' = Inr (b, p) \<and> ip_wf b \<and> ip_Equal b a)"
    and "lib_get_xor lib m = Inr (a, p) \<Longrightarrow> ip_wf a"
  using assms by (simp_all only: stun_laws_def header_laws_def)

lemma protection_lawsD:
  assumes "stun_laws lib"
  shows "lib_add_integrity lib p m = Inr m' \<Longrightarrow> same_content lib m m'"
    and "lib_add_fingerprint lib m = Inr m' \<Longrightarrow> same_content lib m m'"
    and "lib_add_integrity lib p m = Inr m1 \<Longrightarrow> lib_add_fingerprint lib m1 = Inr m2 \<Longrightarrow>
        lib_check_integrity lib p m2 = None \<and> lib_check_fingerprint lib m2 = None"
  using assms by (auto simp: stun_laws_def protection_laws_def)

lemma wire_lawsD:
  assumes "stun_laws lib"
  shows "lib_is_message lib (lib_raw lib m)"
    and "lib_decode lib (lib_raw lib m) = Inr m"
    and "lib_marshal lib es = Inr b \<Longrightarrow> lib_unmarshal lib b = Inr es"
  using assms by (auto simp: stun_laws_def wire_laws_def)

subsection \<open>Attributes the program defines\<close>

text \<open>\<open>PeerMessage.AddTo\<close>.\<close>

definition PeerMessage_AddTo :: "'m stun_lib \<Rightarrow> bytes \<Rightarrow> 'm \<Rightarrow> 'm result" where
  "PeerMessage_AddTo lib pd m = Inr (lib_add lib m AttrData pd)"

text \<open>\<open>PeerID.AddTo\<close> and \<open>PeerID.GetFrom\<close>: the identifier travels as the user name.\<close>

definition PeerID_AddTo :: "'m stun_lib \<Rightarrow> peer_id \<Rightarrow> 'm \<Rightarrow> 'm result" where
  "PeerID_AddTo lib pid m = Inr (lib_add lib m AttrUsername (pid_bytes pid))"

definition PeerID_GetFrom :: "'m stun_lib \<Rightarrow> 'm \<Rightarrow> peer_id result" where
  "PeerID_GetFrom lib m =
     (case lib_get lib m AttrUsername of
        Inl e \<Rightarrow> Inl (ErrMsg ''cannot get username from the message'')
      | Inr buf \<Rightarrow>
          (case pid_of_bytes buf of
             None \<Rightarrow> Inl (ErrMsg ''length of username is not 6 bytes'')
           | Some pid \<Rightarrow> Inr pid))"

text \<open>\<open>binary.LittleEndian\<close>'s \<open>PutUint32\<close> and \<open>Uint32\<close>.\<close>

definition put_u32 :: "32 word \<Rightarrow> bytes" where
  "put_u32 v = [ucast v, ucast (drop_bit 8 v), ucast (drop_bit 16 v), ucast (drop_bit 24 v)]"

definition get_u32 :: "bytes \<Rightarrow> 32 word" where
  "get_u32 b = ucast (b ! 0) OR push_bit 8 (ucast (b ! 1)) OR push_bit 16 (ucast (b ! 2))
     OR push_bit 24 (ucast (b ! 3))"

type_synonym torrent_ports = "int \<times> int"  \<comment> \<open>(external, internal)\<close>

text \<open>
  \<open>TorrentPorts.AddTo\<close> converts each port to \<open>uint32\<close>; \<open>TorrentPorts.GetFrom\<close> reads the two words
  back into \<open>int\<close> (64 bits wide) without looking at the length of the value: slicing or reading
  past a value shorter than eight bytes panics.
\<close>

definition ports_bytes :: "torrent_ports \<Rightarrow> bytes" where
  "ports_bytes tp = put_u32 (word_of_int (fst tp)) @ put_u32 (word_of_int (snd tp))"

definition ports_of_bytes :: "bytes \<Rightarrow> torrent_ports may_panic" where
  "ports_of_bytes b =
     (if length b < 8 then None
      else Some (uint (get_u32 (take 4 b)), uint (get_u32 (drop 4 b))))"

definition TorrentPorts_AddTo :: "'m stun_lib \<Rightarrow> torrent_ports \<Rightarrow> 'm \<Rightarrow> 'm result" where
  "TorrentPorts_AddTo lib tp m = Inr (lib_add lib m AttrEvenPort (ports_bytes tp))"

definition TorrentPorts_GetFrom :: "'m stun_lib \<Rightarrow> 'm \<Rightarrow> torrent_ports result may_panic" where
  "TorrentPorts_GetFrom lib m =
     (case lib_get lib m AttrEvenPort of
        Inl e \<Rightarrow> Some (Inl e)
      | Inr b \<Rightarrow> map_option Inr (ports_of_bytes b))"

text \<open>
  \<open>SessionTable.AddTo\<close>, given the entries in the order the encoder ranges over them, and
  \<open>GetSessionTableFrom\<close>: decoding fills a map entry by entry.
\<close>

definition SessionTable_AddTo :: "'m stun_lib \<Rightarrow> table_entries \<Rightarrow> 'm \<Rightarrow> 'm result" where
  "SessionTable_AddTo lib es m =
     (case lib_marshal lib es of
        Inl e \<Rightarrow> Inl e
      | Inr data \<Rightarrow> Inr (lib_add lib m AttrData data))"

definition table_of :: "table_entries \<Rightarrow> session_table" where
  "table_of es = fold (\<lambda>(k, v) t. t(k \<mapsto> v)) es Map.empty"

definition GetSessionTableFrom :: "'m stun_lib \<Rightarrow> 'm \<Rightarrow> session_table result" where
  "GetSessionTableFrom lib m =
     (case lib_get lib m AttrData of
        Inl e \<Rightarrow> Inl e
      | Inr data \<Rightarrow> (case lib_unmarshal lib data of Inl e \<Rightarrow> Inl e | Inr es \<Rightarrow> Inr (table_of es)))"

text \<open>\<open>validateMessage\<close>: the expected type, if one is given, then user name, fingerprint, integrity.\<close>

definition validateMessage ::
  "'m stun_lib \<Rightarrow> 'm \<Rightarrow> message_type option \<Rightarrow> string \<Rightarrow> go_error option" where
  "validateMessage lib m t password =
     (if (case t of None \<Rightarrow> False
          | Some ty \<Rightarrow> Method (lib_type lib m) \<noteq> Method ty \<or> Class (lib_type lib m) \<noteq> Class ty)
      then Some (ErrMsg ''incorrect message type'')
      else case lib_username lib m of
        Inl e \<Rightarrow> Some (ErrMsg ''invalid username'')
      | Inr _ \<Rightarrow>
          (case lib_check_fingerprint lib m of
             Some e \<Rightarrow> Some (ErrMsg ''fingerprint is incorrect'')
           | None \<Rightarrow>
               (case lib_check_integrity lib password m of
                  Some e \<Rightarrow> Some (ErrMsg ''Integrity bad'')
                | None \<Rightarrow> None)))"

lemma validateMessage_None_iff:
  "validateMessage lib m t password = None \<longleftrightarrow>
     (\<forall>ty. t = Some ty \<longrightarrow> lib_type lib m = ty) \<and> \<not> is_err (lib_username lib m) \<and>
     lib_check_fingerprint lib m = None \<and> lib_check_integrity lib password m = None"
  by (cases t; cases "lib_type lib m")
    (auto simp: validateMessage_def message_type.expand split: option.splits sum.splits)

lemma map_of_rev_distinct: "distinct (map fst es) \<Longrightarrow> map_of (rev es) = map_of es"
proof (induction es)
  case (Cons e es)
  then have "map_of es (fst e) = None"
    by (simp add: map_of_eq_None_iff)
  with Cons show ?case
    by (cases e) (auto simp: map_add_def fun_eq_iff split: option.splits)
qed simp

lemma table_of_distinct: "distinct (map fst es) \<Longrightarrow> table_of es = map_of es"
proof -
  have "fold (\<lambda>(k, v) t. t(k \<mapsto> v)) es t = t ++ map_of (rev es)" for t :: session_table
    by (induction es arbitrary: t) (auto simp: map_add_upd_left map_add_def fun_eq_iff split: option.splits)
  then show "distinct (map fst es) \<Longrightarrow> table_of es = map_of es"
    by (simp add: table_of_def map_of_rev_distinct)
qed

lemma table_of_simps [simp]: "table_of [] = Map.empty" "table_of [(k, v)] = [k \<mapsto> v]"
  by (simp_all add: table_of_def)

subsection \<open>Attribute codecs\<close>

text \<open>
  The contract of a setter/getter pair: an attribute, an encoder and a decoder that inverts it on
  valid values.  With the library's laws, what one side puts into a message the other side reads.
\<close>

locale attribute_codec =
  fixes attr :: stun_attr
    and encode :: "'a \<Rightarrow> bytes"
    and decode :: "bytes \<Rightarrow> 'a option"
    and valid :: "'a \<Rightarrow> bool"
  assumes decode_encode: "valid x \<Longrightarrow> decode (encode x) = Some x"
begin

lemma encode_inj: "valid x \<Longrightarrow> valid y \<Longrightarrow> encode x = encode y \<Longrightarrow> x = y"
  using decode_encode by (metis option.inject)

lemma read_back:
  assumes "stun_laws lib" and "is_err (lib_get lib m attr)" and "valid x"
  shows "\<exists>b. lib_get lib (lib_add lib m attr (encode x)) attr = Inr b \<and> decode b = Some x"
  using attr_lawsD(2) [OF assms(1,2)] decode_encode [OF assms(3)] by auto

end

lemma get_put_u32 [codec_simps]: "get_u32 (put_u32 v @ r) = v"
proof (rule bit_word_eqI)
  fix n assume "n < LENGTH(32)"
  then consider "n < 8" | "8 \<le> n" "n < 16" | "16 \<le> n" "n < 24" | "24 \<le> n" "n < 32"
    by fastforce
  then show "bit (get_u32 (put_u32 v @ r)) n \<longleftrightarrow> bit v n"
    by cases (simp_all add: get_u32_def put_u32_def bit_simps, arith+)
qed

lemma put_u32_length [simp]: "length (put_u32 v) = 4"
  by (simp add: put_u32_def)

lemma ports_bytes_length [simp]: "length (ports_bytes tp) = 8"
  by (simp add: ports_bytes_def)

definition valid_ports :: "torrent_ports \<Rightarrow> bool" where
  "valid_ports tp \<longleftrightarrow> 0 \<le> fst tp \<and> fst tp < 2 ^ 32 \<and> 0 \<le> snd tp \<and> snd tp < 2 ^ 32"

lemma ports_of_bytes_mod:
  "ports_of_bytes (ports_bytes tp) = Some (fst tp mod 2 ^ 32, snd tp mod 2 ^ 32)"
proof -
  have "get_u32 (take 4 (ports_bytes tp)) = word_of_int (fst tp)"
    using get_put_u32 [of "word_of_int (fst tp)" "[]"] by (simp add: ports_bytes_def)
  moreover have "get_u32 (drop 4 (ports_bytes tp)) = word_of_int (snd tp)"
    using get_put_u32 [of "word_of_int (snd tp)" "[]"] by (simp add: ports_bytes_def)
  ultimately show ?thesis
    by (simp add: ports_of_bytes_def uint_word_of_int)
qed

interpretation pid_codec: attribute_codec AttrUsername pid_bytes pid_of_bytes "\<lambda>_. True"
  by unfold_locales (simp add: pid_of_bytes_bytes)

interpretation ports_codec: attribute_codec AttrEvenPort ports_bytes ports_of_bytes valid_ports
  by unfold_locales (auto simp: ports_of_bytes_mod valid_ports_def)

lemma PeerID_GetFrom_Inr:
  "PeerID_GetFrom lib m = Inr pid \<longleftrightarrow> lib_get lib m AttrUsername = Inr (pid_bytes pid)"
  by (auto simp: PeerID_GetFrom_def pid_of_bytes_bytes split: sum.splits option.splits
      dest: pid_of_bytes_Some_bytes)

lemma PeerID_AddTo_GetFrom:
  assumes "stun_laws lib" and "is_err (lib_get lib m AttrUsername)"
  shows "PeerID_AddTo lib pid m = Inr m' \<Longrightarrow> PeerID_GetFrom lib m' = Inr pid"
  using pid_codec.read_back [OF assms, of pid]
  by (auto simp: PeerID_AddTo_def PeerID_GetFrom_def)

lemma TorrentPorts_AddTo_GetFrom:
  assumes "stun_laws lib" and "is_err (lib_get lib m AttrEvenPort)" and "valid_ports tp"
  shows "TorrentPorts_AddTo lib tp m = Inr m' \<Longrightarrow> TorrentPorts_GetFrom lib m' = Some (Inr tp)"
  using ports_codec.read_back [OF assms]
  by (auto simp: TorrentPorts_AddTo_def TorrentPorts_GetFrom_def)

lemma TorrentPorts_GetFrom_panic_iff:
  "TorrentPorts_GetFrom lib m = None \<longleftrightarrow>
     (\<exists>b. lib_get lib m AttrEvenPort = Inr b \<and> length b < 8)"
  by (auto simp: TorrentPorts_GetFrom_def ports_of_bytes_def split: sum.splits)

lemma SessionTable_AddTo_GetFrom:
  assumes "stun_laws lib" and "is_err (lib_get lib m AttrData)"
    and "SessionTable_AddTo lib es m = Inr m'"
  shows "GetSessionTableFrom lib m' = Inr (table_of es)"
  using assms(3) attr_lawsD(2) [OF assms(1,2)] wire_lawsD(3) [OF assms(1)]
  by (auto simp: SessionTable_AddTo_def GetSessionTableFrom_def split: sum.splits)

subsection \<open>Building a protected message\<close>

text \<open>
  Every message the program sends is built the same way: an identifier, the type, some attributes,
  then the integrity and the fingerprint.  The attributes see a message with nothing in it, and the
  receiver sees what they put there, under a valid integrity.
\<close>

lemma protected_build:
  assumes laws: "stun_laws lib"
    and build: "lib_build lib (tid # lib_set_type lib ty # fs @ [lib_add_integrity lib p, lib_add_fingerprint lib]) = Inr m"
    and tid: "\<And>m m'. tid m = Inr m' \<Longrightarrow> same_content lib m m'"
  obtains m0 m1 where "apply_all fs m0 = Inr m1" "lib_type lib m0 = ty" "\<And>t. is_err (lib_get lib m0 t)"
    "same_content lib m1 m" "lib_check_integrity lib p m = None" "lib_check_fingerprint lib m = None"
proof -
  obtain ma m0 where ma: "tid (lib_new lib) = Inr ma" and m0: "lib_set_type lib ty ma = Inr m0"
    and rest: "apply_all (fs @ [lib_add_integrity lib p, lib_add_fingerprint lib]) m0 = Inr m"
    using build by (auto simp: header_lawsD(1) [OF laws] split: sum.splits)
  then obtain m1 m2 where m1: "apply_all fs m0 = Inr m1" and m2: "lib_add_integrity lib p m1 = Inr m2"
    and m: "lib_add_fingerprint lib m2 = Inr m"
    by (auto simp: apply_all_append split: sum.splits)
  have "lib_type lib m0 = ty" "\<And>t. is_err (lib_get lib m0 t)"
    using header_lawsD(2) [OF laws m0] tid [OF ma] attr_lawsD(1) [OF laws] by (auto simp: same_content_def)
  moreover have "same_content lib m1 m"
    using protection_lawsD(1) [OF laws m2] protection_lawsD(2) [OF laws m] by (auto simp: same_content_def)
  ultimately show thesis
    using that m1 protection_lawsD(3) [OF laws m2 m] by blast
qed

lemma same_content_GetFrom:
  assumes "same_content lib m m'"
  shows "PeerID_GetFrom lib m' = PeerID_GetFrom lib m"
    "TorrentPorts_GetFrom lib m' = TorrentPorts_GetFrom lib m"
    "GetSessionTableFrom lib m' = GetSessionTableFrom lib m"
  using assms by (simp_all add: same_content_def PeerID_GetFrom_def TorrentPorts_GetFrom_def GetSessionTableFrom_def)

text \<open>A message with a user name and a valid protection passes \<open>validateMessage\<close>.\<close>

lemma validate_ok:
  assumes "stun_laws lib" "PeerID_GetFrom lib m = Inr pid"
    and "lib_check_integrity lib p m = None" "lib_check_fingerprint lib m = None"
    and "\<And>ty. t = Some ty \<Longrightarrow> lib_type lib m = ty"
  shows "validateMessage lib m t p = None"
  using assms by (auto simp: validateMessage_None_iff PeerID_GetFrom_Inr attr_lawsD(6))

end
