(* ===== verification/Channel.thy ===== *)
theory Channel
  imports P2P_Prelude
begin

section \<open>Buffered channels\<close>

text \<open>
  A call that may wait returns a \<open>blocking\<close> value.  The locale \<open>bounded_fifo\<close> is the contract of a
  buffered Go channel used with a non-blocking send: a send into a full buffer is refused, everything
  accepted comes out in order.
\<close>

datatype 'a blocking = Blocks | Returns 'a

fun send_all :: "('a \<Rightarrow> 's \<Rightarrow> 's result) \<Rightarrow> 'a list \<Rightarrow> 's \<Rightarrow> 's result" where
  "send_all send [] s = Inr s"
| "send_all send (x # xs) s = (case send x s of Inl e \<Rightarrow> Inl e | Inr s' \<Rightarrow> send_all send xs s')"

fun recv_n :: "('s \<Rightarrow> ('a option \<times> 's) blocking) \<Rightarrow> nat \<Rightarrow> 's \<Rightarrow> ('a list \<times> 's) option" where
  "recv_n recv 0 s = Some ([], s)"
| "recv_n recv (Suc n) s =
     (case recv s of
        Returns (Some x, s') \<Rightarrow> map_option (\<lambda>(xs, s''). (x # xs, s'')) (recv_n recv n s')
      | _ \<Rightarrow> None)"

locale bounded_fifo =
  fixes items :: "'s \<Rightarrow> 'a list"
    and send :: "'a \<Rightarrow> 's \<Rightarrow> 's result"
    and recv :: "'s \<Rightarrow> ('a option \<times> 's) blocking"
    and cap :: nat
  assumes send_ok: "length (items s) < cap \<Longrightarrow> \<exists>s'. send x s = Inr s' \<and> items s' = items s @ [x]"
    and send_full: "cap \<le> length (items s) \<Longrightarrow> send x s = Inl ErrBufferFull"
    and recv_ok: "items s = x # xs \<Longrightarrow> \<exists>s'. recv s = Returns (Some x, s') \<and> items s' = xs"
    and recv_empty: "items s = [] \<Longrightarrow> recv s = Blocks"
begin

lemma send_all_ok:
  "length (items s) + length xs \<le> cap \<Longrightarrow>
   \<exists>s'. send_all send xs s = Inr s' \<and> items s' = items s @ xs"
proof (induction xs arbitrary: s)
  case (Cons x xs)
  then obtain s1 where s1: "send x s = Inr s1" "items s1 = items s @ [x]"
    using send_ok [of s x] by auto
  with Cons.prems have "length (items s1) + length xs \<le> cap" by simp
  from Cons.IH [OF this] s1 show ?case by auto
qed simp

lemma send_all_full:
  "cap < length (items s) + length xs \<Longrightarrow> length (items s) \<le> cap \<Longrightarrow>
   send_all send xs s = Inl ErrBufferFull"
proof (induction xs arbitrary: s)
  case (Cons x xs)
  then show ?case
  proof (cases "length (items s) < cap")
    case True
    then obtain s1 where "send x s = Inr s1" "items s1 = items s @ [x]"
      using send_ok [of s x] by auto
    with Cons True show ?thesis by simp
  qed (simp add: send_full)
qed simp

lemma recv_all: "\<exists>s'. recv_n recv (length (items s)) s = Some (items s, s') \<and> items s' = []"
proof (induction "items s" arbitrary: s)
  case Nil
  then show ?case by (metis list.size(3) recv_n.simps(1))
next
  case (Cons x xs)
  then obtain s1 where "recv s = Returns (Some x, s1)" "items s1 = xs"
    using recv_ok [of s x xs] by auto
  moreover from this Cons obtain s2 where "recv_n recv (length xs) s1 = Some (xs, s2)" "items s2 = []"
    by blast
  ultimately show ?case
    using Cons.hyps(2) [symmetric] by simp
qed

lemma fifo:
  assumes "length (items s) + length xs \<le> cap"
  shows "\<exists>s1 s2. send_all send xs s = Inr s1 \<and>
    recv_n recv (length (items s) + length xs) s1 = Some (items s @ xs, s2) \<and> recv s2 = Blocks"
  using send_all_ok [OF assms] recv_all recv_empty by (metis length_append)

end

end
