(* ===== verification/Overlay.thy ===== *)
theory Overlay
  imports Automata Stun_Msg Channel
begin

section \<open>The overlay connection (\<open>overlaysock.go\<close>): state and operations\<close>

text \<open>
  \<open>overlay\<close> is the struct \<open>OverlayConn\<close>.  Each callback of its automaton is a function of the
  answers of the environment (\<open>cb_env\<close>: what the sockets, the STUN client and the clock return) that
  gives the new state, the calls it makes on the environment in order (\<open>action\<close>) and the event it
  raises last, if any: in the source every callback ends with at most one call of \<open>automata.Event\<close>.
  \<open>None\<close> is a run-time panic.  How the events follow one another is in the theory \<open>Overlay_Run\<close>.
  Times and durations are integers in nanoseconds.
\<close>

subsection \<open>The connection under the overlay\<close>

record udp_conn =
  conn_fd :: nat
  conn_laddr :: udp_addr

record overlayUDPConn =
  ou_conn :: "udp_conn option"
  ou_rendezvous :: udp_addr

definition newOverlayUDPConn :: "udp_conn result \<Rightarrow> udp_addr \<Rightarrow> overlayUDPConn result" where
  "newOverlayUDPConn listen rendezvous =
     (case listen of
        Inl e \<Rightarrow> Inl (ErrMsg ''failed creating UDP connection'')
      | Inr c \<Rightarrow> Inr \<lparr>ou_conn = Some c, ou_rendezvous = rendezvous\<rparr>)"

text \<open>\<open>Read\<close>, \<open>Write\<close> and \<open>Close\<close>, given what the socket answers.\<close>

definition overlayUDPConn_Read :: "overlayUDPConn \<Rightarrow> (udp_conn \<Rightarrow> int \<times> go_error option) \<Rightarrow> int \<times> go_error option" where
  "overlayUDPConn_Read oc read =
     (case ou_conn oc of None \<Rightarrow> (-1, Some ErrConnNotOpened) | Some c \<Rightarrow> read c)"

definition overlayUDPConn_Write ::
  "overlayUDPConn \<Rightarrow> (udp_conn \<Rightarrow> bytes \<Rightarrow> udp_addr \<Rightarrow> int \<times> go_error option) \<Rightarrow> bytes \<Rightarrow> int \<times> go_error option" where
  "overlayUDPConn_Write oc write p =
     (case ou_conn oc of None \<Rightarrow> (-1, Some ErrConnNotOpened) | Some c \<Rightarrow> write c p (ou_rendezvous oc))"

definition overlayUDPConn_Close :: "overlayUDPConn \<Rightarrow> (udp_conn \<Rightarrow> go_error option) \<Rightarrow> go_error option" where
  "overlayUDPConn_Close oc close = (case ou_conn oc of None \<Rightarrow> None | Some c \<Rightarrow> close c)"

subsection \<open>State\<close>

record overlay_config =
  oc_Address :: string
  oc_Server :: string
  oc_StunPassword :: string
  oc_BindingWait :: int
  oc_BindingMaxErrors :: int
  oc_ListeningWait :: int
  oc_ListeningMaxErrors :: int
  oc_ListeningBufferSize :: int
  oc_ErrorBackoff :: int
  oc_ChannelLifespan :: int
  oc_torrentPorts :: torrent_ports

datatype overlay_cb =
    CbOpening | CbOpened | CbBinding | CbBindError
  | CbListening | CbProcessingMessage | CbMessageError | CbClosed

record overlay =
  ov_ID :: peer_id
  ov_Reopen :: bool
  ov_Config :: overlay_config
  ov_rendezvousAddr :: udp_addr
  ov_localAddr :: udp_addr
  ov_externalAddr :: "udp_addr option"
  ov_xorAddr :: xor_addr
  ov_automata :: "overlay_cb automata"
  ov_conn :: "overlayUDPConn option"
  ov_stun :: "nat option"
  ov_errCount :: int
  ov_channelExpired :: int
  ov_msg :: bytes
  ov_senderAddr :: "udp_addr option"
  ov_peers :: session_table
  ov_peerDataChan :: "bytes list"
  ov_readDeadline :: "int option"
  ov_writeDeadline :: "int option"

definition peerDataChan_cap :: nat where
  "peerDataChan_cap = 16"

datatype action =
    Sleep int
  | CloseConn overlayUDPConn
  | CloseStun nat
  | StopKeepAlive
  | StartTransaction bytes int   \<comment> \<open>raw request, deadline\<close>
  | WriteTo bytes udp_addr

record cb_env =
  env_now :: int
  env_listen :: "udp_conn result"              \<comment> \<open>\<open>net.ListenUDP\<close>\<close>
  env_client :: "nat result"                   \<comment> \<open>\<open>stun.NewClient\<close>\<close>
  env_set_deadline :: "go_error option"        \<comment> \<open>\<open>UDPConn.SetDeadline\<close>\<close>
  env_start :: "go_error option"               \<comment> \<open>\<open>stun.Client.Start\<close>\<close>
  env_read :: "(bytes \<times> udp_addr) result"      \<comment> \<open>the datagram \<open>UDPConn.ReadFromUDP\<close> gets\<close>

type_synonym cb_result = "(overlay \<times> action list \<times> go_event option) may_panic"

text \<open>The automaton of \<open>createAutomata\<close>.\<close>

definition overlay_transitions :: "transition list" where
  "overlay_transitions =
    [ \<lparr>Src = StateClosed, Ev = EventOpen, Dest = StateOpening\<rparr>,
      \<lparr>Src = StateOpening, Ev = EventSuccess, Dest = StateOpened\<rparr>,
      \<lparr>Src = StateOpening, Ev = EventError, Dest = StateClosed\<rparr>,
      \<lparr>Src = StateOpened, Ev = EventClose, Dest = StateClosed\<rparr>,
      \<lparr>Src = StateOpened, Ev = EventBind, Dest = StateBinding\<rparr>,
      \<lparr>Src = StateBinding, Ev = EventSuccess, Dest = StateListening\<rparr>,
      \<lparr>Src = StateBinding, Ev = EventError, Dest = StateBindError\<rparr>,
      \<lparr>Src = StateBindError, Ev = EventUnderLimit, Dest = StateOpened\<rparr>,
      \<lparr>Src = StateBindError, Ev = EventOverLimit, Dest = StateClosed\<rparr>,
      \<lparr>Src = StateListening, Ev = EventClose, Dest = StateClosed\<rparr>,
      \<lparr>Src = StateListening, Ev = EventSuccess, Dest = StateProcessingMessage\<rparr>,
      \<lparr>Src = StateListening, Ev = EventError, Dest = StateMessageError\<rparr>,
      \<lparr>Src = StateListening, Ev = EventChannelExpired, Dest = StateBinding\<rparr>,
      \<lparr>Src = StateProcessingMessage, Ev = EventSuccess, Dest = StateListening\<rparr>,
      \<lparr>Src = StateProcessingMessage, Ev = EventError, Dest = StateMessageError\<rparr>,
      \<lparr>Src = StateMessageError, Ev = EventUnderLimit, Dest = StateListening\<rparr>,
      \<lparr>Src = StateMessageError, Ev = EventOverLimit, Dest = StateBinding\<rparr> ]"

fun overlay_callback :: "go_state \<Rightarrow> overlay_cb" where
  "overlay_callback StateOpening = CbOpening"
| "overlay_callback StateOpened = CbOpened"
| "overlay_callback StateBinding = CbBinding"
| "overlay_callback StateBindError = CbBindError"
| "overlay_callback StateListening = CbListening"
| "overlay_callback StateProcessingMessage = CbProcessingMessage"
| "overlay_callback StateMessageError = CbMessageError"
| "overlay_callback StateClosed = CbClosed"

definition createAutomata :: "overlay_cb automata" where
  "createAutomata = NewAutomata StateClosed overlay_transitions (\<lambda>s. Some (overlay_callback s))"

text \<open>
  \<open>NewOverlayConn\<close>: the local identity and the two addresses are looked up, the struct is filled in
  and its automaton created.  The constructor then raises \<open>eventOpen\<close> (see \<open>Overlay_Run\<close>) and builds
  the packet that \<open>sendKeepAlive\<close> sends to the peers.
\<close>

definition NewOverlayConn ::
  "overlay_config \<Rightarrow> peer_id result \<Rightarrow> udp_addr result \<Rightarrow> udp_addr result \<Rightarrow> overlay result" where
  "NewOverlayConn cfg pid serverAddr localAddr =
     (case pid of
        Inl e \<Rightarrow> Inl (ErrMsg ''failed to get local ID'')
      | Inr i \<Rightarrow> (case serverAddr of
          Inl e \<Rightarrow> Inl (ErrMsg ''Cannot resolve server address'')
        | Inr server \<Rightarrow> (case localAddr of
            Inl e \<Rightarrow> Inl (ErrMsg ''Cannot resolve local address'')
          | Inr local \<Rightarrow>
              Inr \<lparr>ov_ID = i, ov_Reopen = True, ov_Config = cfg,
                ov_rendezvousAddr = server, ov_localAddr = local,
                ov_externalAddr = None, ov_xorAddr = ([], 0),
                ov_automata = createAutomata, ov_conn = None, ov_stun = None, ov_errCount = 0,
                ov_channelExpired = 0, ov_msg = [], ov_senderAddr = None,
                ov_peers = Map.empty, ov_peerDataChan = [],
                ov_readDeadline = None, ov_writeDeadline = None\<rparr>)))"

definition keepAliveMessage :: "'m stun_lib \<Rightarrow> overlay \<Rightarrow> 'm result" where
  "keepAliveMessage lib ov =
     lib_build lib [lib_rand_tid lib, lib_set_type lib stunChannelBindIndication,
       PeerID_AddTo lib (ov_ID ov), lib_add_integrity lib (oc_StunPassword (ov_Config ov)),
       lib_add_fingerprint lib]"

subsection \<open>Callbacks\<close>

text \<open>\<open>overlay.conn.conn\<close>: dereferencing a nil \<open>overlay.conn\<close> panics.\<close>

definition overlay_sock :: "overlay \<Rightarrow> udp_conn may_panic" where
  "overlay_sock ov = (case ov_conn ov of None \<Rightarrow> None | Some oc \<Rightarrow> ou_conn oc)"

definition cb_closed :: "overlay \<Rightarrow> cb_result" where
  "cb_closed ov =
     (let closing = (case ov_conn ov of Some c \<Rightarrow> [CloseConn c] | None \<Rightarrow> []) @
                    (case ov_stun ov of Some s \<Rightarrow> [CloseStun s] | None \<Rightarrow> []);
          ov' = ov\<lparr>ov_conn := None, ov_stun := None, ov_errCount := 0\<rparr>
      in if ov_Reopen ov then Some (ov', closing, Some EventOpen)
         else Some (ov', closing @ [StopKeepAlive], None))"

definition cb_opening :: "cb_env \<Rightarrow> overlay \<Rightarrow> cb_result" where
  "cb_opening env ov =
     (case newOverlayUDPConn (env_listen env) (ov_rendezvousAddr ov) of
        Inl e \<Rightarrow>
          Some (ov\<lparr>ov_conn := None\<rparr>, [Sleep (oc_ErrorBackoff (ov_Config ov) * second)], Some EventError)
      | Inr oc \<Rightarrow>
          (case env_client env of
             Inl e \<Rightarrow> Some (ov\<lparr>ov_conn := Some oc, ov_stun := None\<rparr>, [], Some EventError)
           | Inr s \<Rightarrow> Some (ov\<lparr>ov_conn := Some oc, ov_stun := Some s\<rparr>, [], Some EventSuccess)))"

definition cb_opened :: "overlay \<Rightarrow> cb_result" where
  "cb_opened ov = Some (ov, [], Some EventBind)"

definition bindingRequestMessage :: "'m stun_lib \<Rightarrow> overlay \<Rightarrow> 'm result may_panic" where
  "bindingRequestMessage lib ov =
     (case overlay_sock ov of
        None \<Rightarrow> None
      | Some c \<Rightarrow>
          Some (case resolve_literal (conn_laddr c) of
             Inl e \<Rightarrow> Inl e
           | Inr addr \<Rightarrow>
               lib_build lib [lib_rand_tid lib, lib_set_type lib BindingRequest,
                 lib_add_xor lib (IP addr, Port addr),
                 TorrentPorts_AddTo lib (oc_torrentPorts (ov_Config ov)),
                 PeerID_AddTo lib (ov_ID ov),
                 lib_add_integrity lib (oc_StunPassword (ov_Config ov)),
                 lib_add_fingerprint lib]))"

text \<open>
  \<open>binding\<close> starts a transaction and leaves: the handler of the transaction runs later, when the
  client has a reply, a time-out or an error for it.
\<close>

definition cb_binding :: "'m stun_lib \<Rightarrow> cb_env \<Rightarrow> overlay \<Rightarrow> cb_result" where
  "cb_binding lib env ov =
     (let deadline = env_now env + oc_BindingWait (ov_Config ov) * second in
      case overlay_sock ov of
        None \<Rightarrow> None
      | Some c \<Rightarrow>
          (case env_set_deadline env of
             Some e \<Rightarrow> Some (ov, [], Some EventError)
           | None \<Rightarrow>
               (case bindingRequestMessage lib ov of
                  None \<Rightarrow> None
                | Some (Inl e) \<Rightarrow> Some (ov, [], Some EventError)
                | Some (Inr msg) \<Rightarrow>
                    (case ov_stun ov of
                       None \<Rightarrow> None
                     | Some s \<Rightarrow>
                         (case env_start env of
                            Some e \<Rightarrow> Some (ov, [], Some EventError)
                          | None \<Rightarrow> Some (ov, [StartTransaction (lib_raw lib msg) deadline], None))))))"

definition updateSessionTable :: "'m stun_lib \<Rightarrow> 'm \<Rightarrow> overlay \<Rightarrow> overlay result" where
  "updateSessionTable lib req ov =
     (case GetSessionTableFrom lib req of
        Inl e \<Rightarrow> Inl (ErrMsg ''updateSessionTable - failed getting session table from message'')
      | Inr st \<Rightarrow> Inr (ov\<lparr>ov_peers := ov_peers ov ++ st\<rparr>))"

text \<open>\<open>stun.Event\<close>: an error, or a message (possibly nil).\<close>

record 'm stun_event =
  ev_Error :: "go_error option"
  ev_Message :: "'m option"

definition binding_handler ::
  "'m stun_lib \<Rightarrow> int \<Rightarrow> 'm stun_event \<Rightarrow> overlay \<Rightarrow> (overlay \<times> go_event) may_panic" where
  "binding_handler lib now e ov =
     (if ev_Error e \<noteq> None then Some (ov, EventError)
      else case ev_Message e of
        None \<Rightarrow> Some (ov, EventError)
      | Some m \<Rightarrow>
          (case validateMessage lib m (Some BindingSuccess) (oc_StunPassword (ov_Config ov)) of
             Some err \<Rightarrow> Some (ov, EventError)
           | None \<Rightarrow>
               (case lib_get_xor lib m of
                  Inl err \<Rightarrow> Some (ov, EventError)
                | Inr xa \<Rightarrow>
                    (let ov1 = ov\<lparr>ov_xorAddr := xa\<rparr> in
                     case updateSessionTable lib m ov1 of
                       Inl err \<Rightarrow> Some (ov1, EventError)
                     | Inr ov2 \<Rightarrow>
                         (let ext = (case resolve_literal \<lparr>IP = fst xa, Port = snd xa, Zone = []\<rparr> of
                                       Inr a \<Rightarrow> Some a | Inl _ \<Rightarrow> None);
                              ov3 = ov2\<lparr>ov_externalAddr := ext\<rparr>
                          in case overlay_sock ov3 of
                               None \<Rightarrow> None
                             | Some _ \<Rightarrow>
                                 Some (ov3\<lparr>ov_channelExpired :=
                                         now + oc_ChannelLifespan (ov_Config ov) * second\<rparr>,
                                       EventSuccess))))))"

definition cb_bindError :: "overlay \<Rightarrow> cb_result" where
  "cb_bindError ov =
     (let n = ov_errCount ov + 1 in
      if n \<ge> oc_BindingMaxErrors (ov_Config ov)
      then Some (ov\<lparr>ov_errCount := 0\<rparr>, [Sleep (oc_ErrorBackoff (ov_Config ov) * second)], Some EventOverLimit)
      else Some (ov\<lparr>ov_errCount := n\<rparr>, [], Some EventUnderLimit))"

text \<open>
  \<open>listening\<close>: a negative buffer size makes \<open>make\<close> panic; a datagram longer than the buffer is cut.
\<close>

definition cb_listening :: "cb_env \<Rightarrow> overlay \<Rightarrow> cb_result" where
  "cb_listening env ov =
     (if oc_ListeningBufferSize (ov_Config ov) < 0 then None
      else case overlay_sock ov of
        None \<Rightarrow> None
      | Some c \<Rightarrow>
          (case env_set_deadline env of
             Some e \<Rightarrow> Some (ov, [], Some EventError)
           | None \<Rightarrow>
               (case env_read env of
                  Inl e \<Rightarrow>
                    (if env_now env > ov_channelExpired ov
                     then Some (ov, [], Some EventChannelExpired)
                     else Some (ov, [], Some EventError))
                | Inr (datagram, addr) \<Rightarrow>
                    Some (ov\<lparr>ov_channelExpired := env_now env + oc_ChannelLifespan (ov_Config ov) * second,
                             ov_msg := take (nat (oc_ListeningBufferSize (ov_Config ov))) datagram,
                             ov_senderAddr := Some addr\<rparr>,
                          [], Some EventSuccess))))"

definition parseHeader :: "'m stun_lib \<Rightarrow> overlay \<Rightarrow> ('m \<times> peer_id) result" where
  "parseHeader lib ov =
     (if \<not> lib_is_message lib (ov_msg ov) then Inl (ErrMsg ''sent a message that is not a STUN message'')
      else case lib_decode lib (ov_msg ov) of
        Inl e \<Rightarrow> Inl (ErrMsg ''failed to read message'')
      | Inr req \<Rightarrow>
          (case validateMessage lib req None (oc_StunPassword (ov_Config ov)) of
             Some e \<Rightarrow> Inl (ErrMsg ''sent invalid STUN message'')
           | None \<Rightarrow>
               (case PeerID_GetFrom lib req of
                  Inl e \<Rightarrow> Inl (ErrMsg ''failed to get peerID'')
                | Inr pid \<Rightarrow> Inr (req, pid))))"

text \<open>The \<open>select\<close> with a default case: a non-blocking send into the buffered channel.\<close>

definition chan_send :: "bytes \<Rightarrow> overlay \<Rightarrow> overlay result" where
  "chan_send data ov =
     (if length (ov_peerDataChan ov) < peerDataChan_cap
      then Inr (ov\<lparr>ov_peerDataChan := ov_peerDataChan ov @ [data]\<rparr>)
      else Inl ErrBufferFull)"

definition peerDataIndication :: "'m stun_lib \<Rightarrow> 'm \<Rightarrow> overlay \<Rightarrow> overlay result" where
  "peerDataIndication lib req ov =
     (case lib_get lib req AttrData of
        Inl e \<Rightarrow> Inl (ErrMsg ''sent an invalid data request'')
      | Inr data \<Rightarrow> chan_send data ov)"

definition dispatch_message :: "'m stun_lib \<Rightarrow> 'm \<Rightarrow> overlay \<Rightarrow> overlay result" where
  "dispatch_message lib req ov =
     (let bad = Inl (ErrMsg ''sent a bad message'') in
      case Method (lib_type lib req) of
        MethodBinding \<Rightarrow>
          (case Class (lib_type lib req) of
             ClassSuccessResponse \<Rightarrow> updateSessionTable lib req ov
           | ClassIndication \<Rightarrow> updateSessionTable lib req ov
           | _ \<Rightarrow> bad)
      | MethodData \<Rightarrow>
          (case Class (lib_type lib req) of
             ClassIndication \<Rightarrow> peerDataIndication lib req ov
           | _ \<Rightarrow> bad)
      | MethodChannelBind \<Rightarrow>
          (case Class (lib_type lib req) of
             ClassIndication \<Rightarrow> Inr ov
           | _ \<Rightarrow> bad)
      | MethodOther _ \<Rightarrow> bad)"

definition cb_processingMessage :: "'m stun_lib \<Rightarrow> overlay \<Rightarrow> cb_result" where
  "cb_processingMessage lib ov =
     (case parseHeader lib ov of
        Inl e \<Rightarrow> Some (ov, [], Some EventError)
      | Inr (req, pid) \<Rightarrow>
          (case dispatch_message lib req ov of
             Inr ov' \<Rightarrow> Some (ov', [], Some EventSuccess)
           | Inl e \<Rightarrow> Some (ov, [], Some EventError)))"

definition cb_messageError :: "overlay \<Rightarrow> cb_result" where
  "cb_messageError ov =
     (let n = ov_errCount ov + 1 in
      if n \<ge> oc_ListeningMaxErrors (ov_Config ov)
      then Some (ov\<lparr>ov_errCount := 0\<rparr>, [], Some EventOverLimit)
      else Some (ov\<lparr>ov_errCount := n\<rparr>, [], Some EventUnderLimit))"

fun run_callback :: "'m stun_lib \<Rightarrow> cb_env \<Rightarrow> overlay_cb \<Rightarrow> overlay \<Rightarrow> cb_result" where
  "run_callback lib env CbOpening ov = cb_opening env ov"
| "run_callback lib env CbOpened ov = cb_opened ov"
| "run_callback lib env CbBinding ov = cb_binding lib env ov"
| "run_callback lib env CbBindError ov = cb_bindError ov"
| "run_callback lib env CbListening ov = cb_listening env ov"
| "run_callback lib env CbProcessingMessage ov = cb_processingMessage lib ov"
| "run_callback lib env CbMessageError ov = cb_messageError ov"
| "run_callback lib env CbClosed ov = cb_closed ov"

subsection \<open>Sending\<close>

text \<open>
  The address a packet for a peer goes to: the external one, or the internal one when the peer is
  behind the same NAT.  A short session, a nil pointer in it or a missing external address panics.
\<close>

definition peer_target :: "overlay \<Rightarrow> session \<Rightarrow> udp_addr option may_panic" where
  "peer_target ov addrs =
     (case addrs of
        [] \<Rightarrow> None
      | a0 # _ \<Rightarrow>
          (case a0 of
             None \<Rightarrow> None
           | Some a \<Rightarrow>
               (case ov_externalAddr ov of
                  None \<Rightarrow> None
                | Some ext \<Rightarrow>
                    (if ip_Equal (IP a) (IP ext)
                     then (if length addrs \<le> 1 then None else Some (addrs ! 1))
                     else Some a0))))"

text \<open>A write to a nil address is refused by the socket.\<close>

definition send_to :: "(udp_addr \<Rightarrow> go_error option) \<Rightarrow> udp_addr option \<Rightarrow> go_error option" where
  "send_to write target = (case target of None \<Rightarrow> Some (ErrMsg ''missing address'') | Some a \<Rightarrow> write a)"

text \<open>The peers' loop of \<open>sendKeepAlive\<close>; the failure log line reads \<open>addrs[1]\<close>.\<close>

fun keepalive_loop ::
  "(udp_addr \<Rightarrow> go_error option) \<Rightarrow> bytes \<Rightarrow> overlay \<Rightarrow> peer_id list \<Rightarrow> action list may_panic" where
  "keepalive_loop write raw ov [] = Some []"
| "keepalive_loop write raw ov (i # is) =
     (if i = ov_ID ov then keepalive_loop write raw ov is
      else case ov_peers ov i of
        None \<Rightarrow> keepalive_loop write raw ov is
      | Some addrs \<Rightarrow>
          (case peer_target ov addrs of
             None \<Rightarrow> None
           | Some target \<Rightarrow>
               (if send_to write target = None
                then map_option (\<lambda>as. WriteTo raw (the target) # as) (keepalive_loop write raw ov is)
                else if length addrs \<le> 1 then None
                else keepalive_loop write raw ov is)))"

definition online_states :: "go_state list" where
  "online_states = [StateListening, StateProcessingMessage, StateMessageError]"

definition sendKeepAlive ::
  "'m stun_lib \<Rightarrow> (udp_addr \<Rightarrow> go_error option) \<Rightarrow> 'm \<Rightarrow> overlay \<Rightarrow> peer_id list \<Rightarrow> action list may_panic" where
  "sendKeepAlive lib write msg ov ids =
     (case ov_conn ov of
        None \<Rightarrow> Some []
      | Some _ \<Rightarrow>
          (case bindingRequestMessage lib ov of
             None \<Rightarrow> None
           | Some r \<Rightarrow>
               (let server = (case r of
                      Inr bindMsg \<Rightarrow>
                        (if write (ov_rendezvousAddr ov) = None
                         then [WriteTo (lib_raw lib bindMsg) (ov_rendezvousAddr ov)] else [])
                    | Inl _ \<Rightarrow> [])
                in if Current (ov_automata ov) \<in> set online_states
                   then map_option (\<lambda>as. server @ as) (keepalive_loop write (lib_raw lib msg) ov ids)
                   else Some server)))"

text \<open>
  The loop of \<open>multicastMessage\<close>.  The error variable lives outside the loop: \<open>err\<close> is its value
  when the loop reaches the peer.  Writing without a connection panics; both log lines read
  \<open>addrs[1]\<close>.
\<close>

fun multicast_loop ::
  "(udp_addr \<Rightarrow> go_error option) \<Rightarrow> bytes \<Rightarrow> overlay \<Rightarrow> go_error option \<Rightarrow> peer_id list \<Rightarrow> action list may_panic" where
  "multicast_loop write raw ov err [] = Some []"
| "multicast_loop write raw ov err (i # is) =
     (if i = ov_ID ov then multicast_loop write raw ov err is
      else case ov_peers ov i of
        None \<Rightarrow> multicast_loop write raw ov err is
      | Some addrs \<Rightarrow>
          (case peer_target ov addrs of
             None \<Rightarrow> None
           | Some target \<Rightarrow>
               (let err' = (if err = None then send_to write target else err) in
                if err = None \<and> overlay_sock ov = None then None
                else if length addrs \<le> 1 then None
                else map_option (\<lambda>as. (if err' = None then [WriteTo raw (the target)] else []) @ as)
                       (multicast_loop write raw ov err' is))))"

definition dataMessage :: "'m stun_lib \<Rightarrow> overlay \<Rightarrow> bytes \<Rightarrow> 'm result" where
  "dataMessage lib ov data =
     lib_build lib [lib_rand_tid lib, lib_set_type lib stunDataIndication,
       PeerMessage_AddTo lib data, PeerID_AddTo lib (ov_ID ov),
       lib_add_integrity lib (oc_StunPassword (ov_Config ov)), lib_add_fingerprint lib]"

definition multicastMessage ::
  "'m stun_lib \<Rightarrow> (udp_addr \<Rightarrow> go_error option) \<Rightarrow> overlay \<Rightarrow> peer_id list \<Rightarrow> bytes
     \<Rightarrow> (action list \<times> nat result) may_panic" where
  "multicastMessage lib write ov ids data =
     (case dataMessage lib ov data of
        Inl e \<Rightarrow> Some ([], Inl (ErrMsg ''failed create data request message''))
      | Inr msg \<Rightarrow>
          map_option (\<lambda>as. (as, Inr (length data))) (multicast_loop write (lib_raw lib msg) ov None ids))"

definition overlay_Write ::
  "'m stun_lib \<Rightarrow> (udp_addr \<Rightarrow> go_error option) \<Rightarrow> overlay \<Rightarrow> peer_id list \<Rightarrow> bytes
     \<Rightarrow> (action list \<times> nat result) may_panic" where
  "overlay_Write lib write ov ids b =
     (if length b > stunMaxPacketDataSize then Some ([], Inl (ErrMsg ''data is too large''))
      else case Current (ov_automata ov) of
        StateListening \<Rightarrow> multicastMessage lib write ov ids b
      | StateProcessingMessage \<Rightarrow> multicastMessage lib write ov ids b
      | _ \<Rightarrow> Some ([], Inl (ErrMsg ''connection is not ready'')))"

subsection \<open>Receiving and the rest of the \<open>net.Conn\<close> interface\<close>

definition Ready :: "overlay \<Rightarrow> bool" where
  "Ready ov \<longleftrightarrow> current (ov_automata ov) \<in> set online_states"

text \<open>
  A receive from \<open>peerDataChan\<close>, possibly with a deadline; \<open>timer\<close> says that the select takes the
  deadline's case.  \<open>Blocks\<close>: the call does not return yet.
\<close>

definition chan_recv :: "bool \<Rightarrow> overlay \<Rightarrow> (bytes option \<times> overlay) blocking" where
  "chan_recv timer ov =
     (if ov_readDeadline ov \<noteq> None \<and> timer then Returns (None, ov)
      else case ov_peerDataChan ov of
        [] \<Rightarrow> Blocks
      | d # ds \<Rightarrow> Returns (Some d, ov\<lparr>ov_peerDataChan := ds\<rparr>))"

definition ReadMsg :: "bool \<Rightarrow> overlay \<Rightarrow> (bytes result \<times> overlay) blocking" where
  "ReadMsg timer ov =
     (if \<not> Ready ov then Returns (Inl ErrNotReady, ov)
      else case chan_recv timer ov of
        Blocks \<Rightarrow> Blocks
      | Returns (Some d, ov') \<Rightarrow> Returns (Inr d, ov')
      | Returns (None, ov') \<Rightarrow> Returns (Inl ErrNotReady, ov'))"

interpretation chan: bounded_fifo ov_peerDataChan chan_send "chan_recv False" peerDataChan_cap
  by unfold_locales (auto simp: chan_send_def chan_recv_def)

text \<open>\<open>Read\<close> fills the caller's buffer of \<open>n\<close> bytes: the bytes copied, the error, the state.\<close>

definition overlay_Read :: "bool \<Rightarrow> nat \<Rightarrow> overlay \<Rightarrow> (bytes \<times> go_error option \<times> overlay) blocking" where
  "overlay_Read timer n ov =
     (if n = 0 then Returns ([], Some (ErrMsg ''given buffer is nil''), ov)
      else if \<not> Ready ov then Returns ([], Some ErrNotReady, ov)
      else case chan_recv timer ov of
        Blocks \<Rightarrow> Blocks
      | Returns (r, ov') \<Rightarrow>
          (let data = (case r of Some d \<Rightarrow> d | None \<Rightarrow> []) in
           if length data > n then Returns (take n data, Some (ErrMsg ''data is not fit on given buffer''), ov')
           else Returns (data, None, ov')))"

definition SetDeadline :: "int \<Rightarrow> overlay \<Rightarrow> overlay" where
  "SetDeadline t ov = ov\<lparr>ov_readDeadline := Some t, ov_writeDeadline := Some t\<rparr>"

definition SetReadDeadline :: "int \<Rightarrow> overlay \<Rightarrow> overlay" where
  "SetReadDeadline t ov = ov\<lparr>ov_readDeadline := Some t\<rparr>"

definition SetWriteDeadline :: "int \<Rightarrow> overlay \<Rightarrow> overlay" where
  "SetWriteDeadline t ov = ov\<lparr>ov_writeDeadline := Some t\<rparr>"

definition InternalAddr :: "overlay \<Rightarrow> udp_addr may_panic" where
  "InternalAddr ov = map_option conn_laddr (overlay_sock ov)"

definition ExternalAddr :: "overlay \<Rightarrow> udp_addr option" where
  "ExternalAddr ov = ov_externalAddr ov"

end
