(* ===== verification/Overlay_Run.thy ===== *)
theory Overlay_Run
  imports Overlay Transition "HOL-Library.Multiset"
begin

section \<open>How the overlay's events follow one another\<close>

text \<open>
  A thread of the overlay is a goroutine at one of three points: about to raise an event
  (\<open>TRaise\<close>), running the callback of the state it has entered (\<open>TCallback\<close>), or a STUN transaction
  whose handler has not been called (\<open>TBindWait\<close>).  A step of \<open>ostep\<close> is one call of
  \<open>automata.Event\<close> up to its callback, or one callback up to the event it raises, or one reply; the
  multiset of threads is what runs concurrently.  The flag says whether somebody may call the
  connection's \<open>Close\<close>.  The theory shows what holds in every reachable configuration when nobody
  does: one thread drives the automaton, each event it raises has a transition, and no callback
  dereferences a nil pointer.
\<close>

datatype thread = TRaise go_event | TCallback overlay_cb | TBindWait

datatype config = Running overlay "thread multiset" | Crashed

inductive ostep :: "'m stun_lib \<Rightarrow> bool \<Rightarrow> config \<Rightarrow> config \<Rightarrow> bool"
  for lib :: "'m stun_lib" and closing :: bool where
  raise: "automata_event (ov_automata ov) e = Inr (a', Some cb) \<Longrightarrow>
     ostep lib closing (Running ov (add_mset (TRaise e) T))
       (Running (ov\<lparr>ov_automata := a'\<rparr>) (add_mset (TCallback cb) T))"
| raise_quiet: "automata_event (ov_automata ov) e = Inr (a', None) \<Longrightarrow>
     ostep lib closing (Running ov (add_mset (TRaise e) T)) (Running (ov\<lparr>ov_automata := a'\<rparr>) T)"
| reject: "is_err (automata_event (ov_automata ov) e) \<Longrightarrow>
     ostep lib closing (Running ov (add_mset (TRaise e) T)) (Running ov T)"
| call: "run_callback lib env cb ov = Some (ov', acts, Some e) \<Longrightarrow>
     ostep lib closing (Running ov (add_mset (TCallback cb) T)) (Running ov' (add_mset (TRaise e) T))"
| call_wait: "run_callback lib env CbBinding ov = Some (ov', acts, None) \<Longrightarrow>
     ostep lib closing (Running ov (add_mset (TCallback CbBinding) T)) (Running ov' (add_mset TBindWait T))"
| call_end: "run_callback lib env cb ov = Some (ov', acts, None) \<Longrightarrow> cb \<noteq> CbBinding \<Longrightarrow>
     ostep lib closing (Running ov (add_mset (TCallback cb) T)) (Running ov' T)"
| call_panic: "run_callback lib env cb ov = None \<Longrightarrow>
     ostep lib closing (Running ov (add_mset (TCallback cb) T)) Crashed"
| reply: "binding_handler lib now ev ov = Some (ov', e) \<Longrightarrow>
     ostep lib closing (Running ov (add_mset TBindWait T)) (Running ov' (add_mset (TRaise e) T))"
| reply_panic: "binding_handler lib now ev ov = None \<Longrightarrow>
     ostep lib closing (Running ov (add_mset TBindWait T)) Crashed"
| recv: "chan_recv timer ov = Returns (r, ov') \<Longrightarrow>
     ostep lib closing (Running ov T) (Running ov' T)"
| close: "closing \<Longrightarrow>
     ostep lib closing (Running ov T) (Running ov (add_mset (TRaise EventClose) T))"

inductive_cases ostep_RunningE: "ostep lib closing (Running ov T) c"
inductive_cases ostep_CrashedE: "ostep lib closing Crashed c"

subsection \<open>The transition table\<close>

text \<open>The transition table as a function, the reading of the diagram in \<open>diagrams.md\<close>.\<close>

fun overlay_next :: "go_state \<Rightarrow> go_event \<Rightarrow> go_state option" where
  "overlay_next StateClosed EventOpen = Some StateOpening"
| "overlay_next StateOpening EventSuccess = Some StateOpened"
| "overlay_next StateOpening EventError = Some StateClosed"
| "overlay_next StateOpened EventClose = Some StateClosed"
| "overlay_next StateOpened EventBind = Some StateBinding"
| "overlay_next StateBinding EventError = Some StateBindError"
| "overlay_next StateBindError EventUnderLimit = Some StateOpened"
| "overlay_next StateBindError EventOverLimit = Some StateClosed"
| "overlay_next StateBinding EventSuccess = Some StateListening"
| "overlay_next StateListening EventClose = Some StateClosed"
| "overlay_next StateListening EventSuccess = Some StateProcessingMessage"
| "overlay_next StateListening EventError = Some StateMessageError"
| "overlay_next StateListening EventChannelExpired = Some StateBinding"
| "overlay_next StateProcessingMessage EventSuccess = Some StateListening"
| "overlay_next StateProcessingMessage EventError = Some StateMessageError"
| "overlay_next StateMessageError EventUnderLimit = Some StateListening"
| "overlay_next StateMessageError EventOverLimit = Some StateBinding"
| "overlay_next _ _ = None"

lemma overlay_lookup:
  "lookup (transitions createAutomata) s e = overlay_next s e"
  by (cases s; cases e)
    (simp_all add: createAutomata_def lookup_NewAutomata overlay_transitions_def edge_of_def)

lemma createAutomata_sel [simp]:
  "current createAutomata = StateClosed"
  "callbacks createAutomata s = Some (overlay_callback s)"
  by (simp_all add: createAutomata_def)

text \<open>The tables never change after the automaton has been built.\<close>

definition tables_ok :: "overlay \<Rightarrow> bool" where
  "tables_ok ov \<longleftrightarrow> transitions (ov_automata ov) = transitions createAutomata \<and>
     callbacks (ov_automata ov) = callbacks createAutomata"

abbreviation ov_state :: "overlay \<Rightarrow> go_state" where
  "ov_state ov \<equiv> current (ov_automata ov)"

lemma event_step:
  assumes "tables_ok ov"
  shows "automata_event (ov_automata ov) e = Inr (a', cb) \<longleftrightarrow>
    (\<exists>d. overlay_next (ov_state ov) e = Some d \<and> a' = (ov_automata ov)\<lparr>current := d\<rparr> \<and>
         cb = Some (overlay_callback d))"
  using assms by (auto simp: automata_event_Inr_iff tables_ok_def overlay_lookup)

lemma event_reject:
  assumes "tables_ok ov"
  shows "is_err (automata_event (ov_automata ov) e) \<longleftrightarrow> overlay_next (ov_state ov) e = None"
  using assms by (simp add: automata_event_Inl_iff tables_ok_def overlay_lookup)

subsection \<open>The invariant\<close>

lemma overlay_sock_frame [simp]:
  "overlay_sock (ov\<lparr>ov_automata := a\<rparr>) = overlay_sock ov"
  "overlay_sock (ov\<lparr>ov_errCount := n\<rparr>) = overlay_sock ov"
  "overlay_sock (ov\<lparr>ov_channelExpired := t\<rparr>) = overlay_sock ov"
  "overlay_sock (ov\<lparr>ov_msg := m\<rparr>) = overlay_sock ov"
  "overlay_sock (ov\<lparr>ov_senderAddr := ad\<rparr>) = overlay_sock ov"
  "overlay_sock (ov\<lparr>ov_peers := st\<rparr>) = overlay_sock ov"
  "overlay_sock (ov\<lparr>ov_peerDataChan := q\<rparr>) = overlay_sock ov"
  "overlay_sock (ov\<lparr>ov_xorAddr := xa\<rparr>) = overlay_sock ov"
  "overlay_sock (ov\<lparr>ov_externalAddr := ea\<rparr>) = overlay_sock ov"
  by (simp_all add: overlay_sock_def)

text \<open>Which resources a state of the automaton needs.\<close>

definition active_states :: "go_state set" where
  "active_states = {StateOpened, StateBinding, StateBindError, StateListening,
     StateProcessingMessage, StateMessageError}"

definition conn_live :: "overlay \<Rightarrow> bool" where
  "conn_live ov \<longleftrightarrow> overlay_sock ov \<noteq> None \<and> ov_stun ov \<noteq> None"

definition resources_ok :: "go_state \<Rightarrow> overlay \<Rightarrow> bool" where
  "resources_ok s ov \<longleftrightarrow>
     (s \<in> active_states \<longrightarrow> conn_live ov) \<and>
     (s \<in> set online_states \<longrightarrow> ov_externalAddr ov \<noteq> None)"

definition resources_free :: "overlay \<Rightarrow> bool" where
  "resources_free ov \<longleftrightarrow> ov_conn ov = None \<and> ov_stun ov = None"

text \<open>The error counter stays under the larger limit; the channel stays within its capacity.\<close>

definition counters_ok :: "overlay \<Rightarrow> bool" where
  "counters_ok ov \<longleftrightarrow> 0 \<le> ov_errCount ov \<and>
     ov_errCount ov \<le> max 0 (max (oc_BindingMaxErrors (ov_Config ov)) (oc_ListeningMaxErrors (ov_Config ov)) - 1) \<and>
     length (ov_peerDataChan ov) \<le> peerDataChan_cap"

definition config_ok :: "overlay_config \<Rightarrow> bool" where
  "config_ok cfg \<longleftrightarrow> 0 \<le> oc_ListeningBufferSize cfg"

definition base_ok :: "overlay \<Rightarrow> bool" where
  "base_ok ov \<longleftrightarrow> tables_ok ov \<and> config_ok (ov_Config ov) \<and> counters_ok ov"

fun thread_ok :: "overlay \<Rightarrow> thread \<Rightarrow> bool" where
  "thread_ok ov (TRaise e) \<longleftrightarrow>
     (\<exists>d. overlay_next (ov_state ov) e = Some d \<and> resources_ok d ov) \<and>
     (e = EventOpen \<longrightarrow> resources_free ov)"
| "thread_ok ov (TCallback cb) \<longleftrightarrow>
     cb = overlay_callback (ov_state ov) \<and> (cb = CbOpening \<longrightarrow> resources_free ov)"
| "thread_ok ov TBindWait \<longleftrightarrow> ov_state ov = StateBinding"

text \<open>The configuration is not crashed and has at most one thread; none only after the last close.\<close>

fun overlay_inv :: "'m stun_lib \<Rightarrow> config \<Rightarrow> bool" where
  "overlay_inv lib Crashed \<longleftrightarrow> False"
| "overlay_inv lib (Running ov T) \<longleftrightarrow>
     stun_laws lib \<and> base_ok ov \<and> resources_ok (ov_state ov) ov \<and>
     ((T = {#} \<and> \<not> ov_Reopen ov) \<or> (\<exists>t. T = {#t#} \<and> thread_ok ov t))"

text \<open>The start: the constructor's struct, with \<open>eventOpen\<close> about to be raised.\<close>

definition overlay_init :: "'m stun_lib \<Rightarrow> config \<Rightarrow> bool" where
  "overlay_init lib c \<longleftrightarrow>
     stun_laws lib \<and>
     (\<exists>cfg pid server local ov. config_ok cfg \<and> NewOverlayConn cfg pid server local = Inr ov \<and>
        c = Running ov {#TRaise EventOpen#})"

lemma NewOverlayConn_Inr:
  "NewOverlayConn cfg pid server local = Inr ov \<Longrightarrow>
     ov_automata ov = createAutomata \<and> ov_Config ov = cfg \<and> ov_Reopen ov \<and>
     resources_free ov \<and> ov_errCount ov = 0 \<and> ov_peerDataChan ov = [] \<and> ov_peers ov = Map.empty \<and>
     ov_readDeadline ov = None"
  by (auto simp: NewOverlayConn_def resources_free_def split: sum.splits)

lemma overlay_init_inv: "overlay_init lib c \<Longrightarrow> overlay_inv lib c"
  by (auto simp: overlay_init_def base_ok_def tables_ok_def counters_ok_def resources_ok_def
      active_states_def online_states_def dest!: NewOverlayConn_Inr)

subsection \<open>One callback\<close>

text \<open>
  What a callback may do when it runs in the state it belongs to: it does not panic, and if it
  raises an event the event has a transition and the destination has what it needs.
\<close>

definition callback_good :: "overlay_cb \<Rightarrow> overlay \<Rightarrow> cb_result \<Rightarrow> bool" where
  "callback_good cb ov r \<longleftrightarrow>
     (case r of None \<Rightarrow> False
      | Some (ov', acts, eo) \<Rightarrow>
          ov_automata ov' = ov_automata ov \<and> ov_Config ov' = ov_Config ov \<and>
          ov_Reopen ov' = ov_Reopen ov \<and> counters_ok ov' \<and> resources_ok (ov_state ov') ov' \<and>
          (case eo of
             Some e \<Rightarrow> thread_ok ov' (TRaise e)
           | None \<Rightarrow> if cb = CbBinding then thread_ok ov' TBindWait else \<not> ov_Reopen ov'))"

lemmas callback_defs = callback_good_def resources_ok_def active_states_def online_states_def
  conn_live_def resources_free_def

lemma closed_good:
  "ov_state ov = StateClosed \<Longrightarrow> counters_ok ov \<Longrightarrow> callback_good CbClosed ov (cb_closed ov)"
  by (auto simp: callback_defs cb_closed_def Let_def counters_ok_def)

lemma opening_good:
  "ov_state ov = StateOpening \<Longrightarrow> counters_ok ov \<Longrightarrow> callback_good CbOpening ov (cb_opening env ov)"
  by (auto simp: callback_defs cb_opening_def newOverlayUDPConn_def overlay_sock_def counters_ok_def
      split: sum.splits)

lemma opened_good:
  "ov_state ov = StateOpened \<Longrightarrow> counters_ok ov \<Longrightarrow> resources_ok StateOpened ov \<Longrightarrow>
   callback_good CbOpened ov (cb_opened ov)"
  by (auto simp: callback_defs cb_opened_def)

lemma bindError_good:
  "ov_state ov = StateBindError \<Longrightarrow> counters_ok ov \<Longrightarrow> resources_ok StateBindError ov \<Longrightarrow>
   callback_good CbBindError ov (cb_bindError ov)"
  by (auto simp: callback_defs cb_bindError_def Let_def counters_ok_def overlay_sock_def)

lemma messageError_good:
  "ov_state ov = StateMessageError \<Longrightarrow> counters_ok ov \<Longrightarrow> resources_ok StateMessageError ov \<Longrightarrow>
   callback_good CbMessageError ov (cb_messageError ov)"
  by (auto simp: callback_defs cb_messageError_def Let_def counters_ok_def overlay_sock_def)

lemma bindingRequestMessage_ne: "overlay_sock ov \<noteq> None \<Longrightarrow> bindingRequestMessage lib ov \<noteq> None"
  by (auto simp: bindingRequestMessage_def)

lemma binding_good:
  assumes "ov_state ov = StateBinding" "counters_ok ov" "resources_ok StateBinding ov"
  shows "callback_good CbBinding ov (cb_binding lib env ov)"
proof -
  have "overlay_sock ov \<noteq> None" "ov_stun ov \<noteq> None"
    using assms(3) by (auto simp: callback_defs)
  with bindingRequestMessage_ne [of ov lib] assms show ?thesis
    by (auto simp: callback_defs cb_binding_def Let_def split: option.splits sum.splits)
qed

lemma listening_good:
  assumes "ov_state ov = StateListening" "counters_ok ov" "resources_ok StateListening ov"
    and "config_ok (ov_Config ov)"
  shows "callback_good CbListening ov (cb_listening env ov)"
proof -
  obtain c s x where "overlay_sock ov = Some c" "ov_stun ov = Some s" "ov_externalAddr ov = Some x"
    using assms(3) by (auto simp: callback_defs)
  moreover have "\<not> oc_ListeningBufferSize (ov_Config ov) < 0"
    using assms(4) by (simp add: config_ok_def)
  ultimately show ?thesis
    using assms(1,2)
    by (simp add: callback_defs cb_listening_def counters_ok_def split: option.split sum.split prod.split)
qed

lemma updateSessionTable_Inr:
  "updateSessionTable lib req ov = Inr ov' \<Longrightarrow>
   \<exists>st. GetSessionTableFrom lib req = Inr st \<and> ov' = ov\<lparr>ov_peers := ov_peers ov ++ st\<rparr>"
  by (auto simp: updateSessionTable_def split: sum.splits)

lemma peerDataIndication_Inr:
  "peerDataIndication lib req ov = Inr ov' \<Longrightarrow>
   \<exists>d. lib_get lib req AttrData = Inr d \<and> length (ov_peerDataChan ov) < peerDataChan_cap \<and>
       ov' = ov\<lparr>ov_peerDataChan := ov_peerDataChan ov @ [d]\<rparr>"
  by (auto simp: peerDataIndication_def chan_send_def split: sum.splits if_splits)

lemma dispatch_Inr:
  assumes "dispatch_message lib req ov = Inr ov'"
  obtains "ov' = ov"
  | st where "ov' = ov\<lparr>ov_peers := st\<rparr>"
  | d where "length (ov_peerDataChan ov) < peerDataChan_cap"
      "ov' = ov\<lparr>ov_peerDataChan := ov_peerDataChan ov @ [d]\<rparr>"
proof -
  have "ov' = ov \<or> updateSessionTable lib req ov = Inr ov' \<or> peerDataIndication lib req ov = Inr ov'"
    using assms
    by (simp add: dispatch_message_def Let_def split: stun_method.splits stun_class.splits)
  then show thesis
    using that by (blast dest: updateSessionTable_Inr peerDataIndication_Inr)
qed

lemma dispatch_counters:
  "dispatch_message lib req ov = Inr ov' \<Longrightarrow> counters_ok ov \<Longrightarrow> counters_ok ov'"
  by (erule dispatch_Inr) (auto simp: counters_ok_def)

lemma dispatch_frame:
  assumes "dispatch_message lib req ov = Inr ov'"
  shows "ov_automata ov' = ov_automata ov" "ov_Config ov' = ov_Config ov"
    "ov_Reopen ov' = ov_Reopen ov" "overlay_sock ov' = overlay_sock ov"
    "ov_stun ov' = ov_stun ov" "ov_externalAddr ov' = ov_externalAddr ov" "ov_conn ov' = ov_conn ov"
  using assms by (auto elim!: dispatch_Inr)

lemma processingMessage_good:
  assumes "ov_state ov = StateProcessingMessage" "counters_ok ov" "resources_ok StateProcessingMessage ov"
  shows "callback_good CbProcessingMessage ov (cb_processingMessage lib ov)"
proof (cases "cb_processingMessage lib ov = Some (ov, [], Some EventError)")
  case True
  with assms show ?thesis by (simp add: callback_defs)
next
  case False
  then obtain req ov' where "dispatch_message lib req ov = Inr ov'"
    and "cb_processingMessage lib ov = Some (ov', [], Some EventSuccess)"
    by (auto simp: cb_processingMessage_def split: sum.splits)
  with dispatch_counters [of lib req ov ov'] dispatch_frame [of lib req ov ov'] assms show ?thesis
    by (simp add: callback_defs)
qed

lemma callback_step:
  assumes "base_ok ov" "resources_ok (ov_state ov) ov" "thread_ok ov (TCallback cb)"
  shows "callback_good cb ov (run_callback lib env cb ov)"
  using assms
  by (cases "ov_state ov")
    (auto simp: base_ok_def intro: closed_good opening_good opened_good binding_good bindError_good
      listening_good processingMessage_good messageError_good)

end
