(* ===== verification/Overlay_Safety.thy ===== *)
theory Overlay_Safety
  imports Overlay_Run
begin

section \<open>The overlay never crashes and never gets stuck\<close>

text \<open>
  The invariant of \<open>Overlay_Run\<close> is kept by every step when nobody calls \<open>Close\<close>; the interpretation
  \<open>ov_sys\<close> gives it for all reachable configurations.  From it: progress, the meaning of \<open>Ready\<close>,
  the path from a closed connection to a listening one, and what the error counter does.
\<close>

subsection \<open>Every step keeps the invariant\<close>

lemma handler_good:
  assumes "stun_laws lib" "ov_state ov = StateBinding" "counters_ok ov" "resources_ok StateBinding ov"
  shows "case binding_handler lib now ev ov of None \<Rightarrow> False
    | Some (ov', e) \<Rightarrow> ov_automata ov' = ov_automata ov \<and> ov_Config ov' = ov_Config ov \<and>
        ov_Reopen ov' = ov_Reopen ov \<and> counters_ok ov' \<and> resources_ok (ov_state ov') ov' \<and>
        thread_ok ov' (TRaise e)"
proof -
  obtain c s where live: "overlay_sock ov = Some c" "ov_stun ov = Some s"
    using assms(4) by (auto simp: callback_defs)
  have ext: "\<exists>a. resolve_literal \<lparr>IP = fst xa, Port = snd xa, Zone = []\<rparr> = Inr a"
    if "lib_get_xor lib m = Inr xa" for m xa
  proof -
    have "ip_wf (fst xa)"
      using header_lawsD(6) [OF assms(1), of m "fst xa" "snd xa"] that by simp
    then show ?thesis
      using resolve_literal_wf [of "\<lparr>IP = fst xa, Port = snd xa, Zone = []\<rparr>"] by auto
  qed
  have upd: "updateSessionTable lib m ov1 = Inr ov2 \<Longrightarrow> \<exists>st. ov2 = ov1\<lparr>ov_peers := st\<rparr>" for m ov1 ov2
    by (auto dest: updateSessionTable_Inr)
  show ?thesis
    using assms(2,3) live
    by (auto simp: binding_handler_def Let_def callback_defs counters_ok_def
        split: option.split sum.split dest!: upd ext)
qed

lemma base_ok_automata [simp]:
  "tables_ok (ov\<lparr>ov_automata := (ov_automata ov)\<lparr>current := d\<rparr>\<rparr>) = tables_ok ov"
  "counters_ok (ov\<lparr>ov_automata := a\<rparr>) = counters_ok ov"
  "resources_ok s (ov\<lparr>ov_automata := a\<rparr>) = resources_ok s ov"
  "resources_free (ov\<lparr>ov_automata := a\<rparr>) = resources_free ov"
  by (simp_all add: tables_ok_def counters_ok_def resources_ok_def conn_live_def resources_free_def)

lemma raise_good:
  assumes "base_ok ov" "thread_ok ov (TRaise e)" "automata_event (ov_automata ov) e = Inr (a', cb)"
  shows "\<exists>c. cb = Some c \<and> base_ok (ov\<lparr>ov_automata := a'\<rparr>) \<and>
    resources_ok (current a') ov \<and> thread_ok (ov\<lparr>ov_automata := a'\<rparr>) (TCallback c)"
proof -
  have "tables_ok ov" using assms(1) by (simp add: base_ok_def)
  then obtain d where d: "overlay_next (ov_state ov) e = Some d"
      "a' = (ov_automata ov)\<lparr>current := d\<rparr>" "cb = Some (overlay_callback d)"
    using assms(3) event_step by blast
  have "overlay_callback d = CbOpening \<Longrightarrow> e = EventOpen"
    using d(1) by (cases "ov_state ov"; cases e) auto
  with d assms(1,2) show ?thesis by (auto simp: base_ok_def)
qed

lemma recv_frame:
  "chan_recv timer ov = Returns (r, ov') \<Longrightarrow>
     \<exists>q. ov' = ov\<lparr>ov_peerDataChan := q\<rparr> \<and> length q \<le> length (ov_peerDataChan ov)"
  by (cases "ov_peerDataChan ov")
    (auto simp: chan_recv_def split: if_splits intro: exI [of _ "ov_peerDataChan ov"])

lemma inv_recv:
  "overlay_inv lib (Running ov T) \<Longrightarrow> length q \<le> length (ov_peerDataChan ov) \<Longrightarrow>
   overlay_inv lib (Running (ov\<lparr>ov_peerDataChan := q\<rparr>) T)"
proof -
  have "thread_ok (ov\<lparr>ov_peerDataChan := q\<rparr>) t = thread_ok ov t" for t
    by (cases t) (simp_all add: resources_ok_def conn_live_def resources_free_def)
  then show "overlay_inv lib (Running ov T) \<Longrightarrow> length q \<le> length (ov_peerDataChan ov) \<Longrightarrow> ?thesis"
    by (simp add: base_ok_def tables_ok_def counters_ok_def resources_ok_def conn_live_def)
qed

lemma single_threadD:
  "overlay_inv lib (Running ov (add_mset t T)) \<Longrightarrow>
     T = {#} \<and> thread_ok ov t \<and> stun_laws lib \<and> base_ok ov \<and> resources_ok (ov_state ov) ov"
  by auto

lemma inv_single:
  assumes "stun_laws lib" "base_ok ov" "thread_ok ov' t"
    and "ov_automata ov' = ov_automata ov" "ov_Config ov' = ov_Config ov" "counters_ok ov'"
    and "resources_ok (ov_state ov') ov'"
  shows "overlay_inv lib (Running ov' {#t#})"
  using assms by (simp add: base_ok_def tables_ok_def del: thread_ok.simps)

lemma inv_raise:
  assumes "overlay_inv lib (Running ov (add_mset (TRaise e) T))"
    and "automata_event (ov_automata ov) e = Inr (a', cb)"
  shows "\<exists>c. cb = Some c \<and> overlay_inv lib (Running (ov\<lparr>ov_automata := a'\<rparr>) (add_mset (TCallback c) T))"
proof -
  note single = single_threadD [OF assms(1)]
  then obtain c where "cb = Some c" "base_ok (ov\<lparr>ov_automata := a'\<rparr>)"
      "resources_ok (current a') ov" "thread_ok (ov\<lparr>ov_automata := a'\<rparr>) (TCallback c)"
    using raise_good [OF _ _ assms(2)] by blast
  with single show ?thesis by (simp del: thread_ok.simps)
qed

lemma inv_reject:
  assumes "overlay_inv lib (Running ov (add_mset (TRaise e) T))"
  shows "\<not> is_err (automata_event (ov_automata ov) e)"
proof -
  have "overlay_next (ov_state ov) e \<noteq> None" "tables_ok ov"
    using single_threadD [OF assms] by (auto simp: base_ok_def)
  then show ?thesis by (simp add: event_reject)
qed

lemma inv_callback:
  assumes "overlay_inv lib (Running ov (add_mset (TCallback cb) T))"
  shows "callback_good cb ov (run_callback lib env cb ov)"
  using single_threadD [OF assms] callback_step by blast

lemma callback_goodD:
  assumes "callback_good cb ov (Some (ov', acts, eo))"
  shows "ov_automata ov' = ov_automata ov" "ov_Config ov' = ov_Config ov"
    "ov_Reopen ov' = ov_Reopen ov" "counters_ok ov'" "resources_ok (ov_state ov') ov'"
    "eo = Some e \<Longrightarrow> thread_ok ov' (TRaise e)"
    "eo = None \<Longrightarrow> cb = CbBinding \<Longrightarrow> thread_ok ov' TBindWait"
    "eo = None \<Longrightarrow> cb \<noteq> CbBinding \<Longrightarrow> \<not> ov_Reopen ov'"
  using assms unfolding callback_good_def option.case prod.case by (blast, blast, blast, blast, blast, simp+)

lemma inv_call:
  assumes inv: "overlay_inv lib (Running ov (add_mset (TCallback cb) T))"
    and run: "run_callback lib env cb ov = Some (ov', acts, Some e)"
  shows "overlay_inv lib (Running ov' (add_mset (TRaise e) T))"
proof -
  note single = single_threadD [OF inv]
  have good: "ov_automata ov' = ov_automata ov" "ov_Config ov' = ov_Config ov" "counters_ok ov'"
      "resources_ok (ov_state ov') ov'" "thread_ok ov' (TRaise e)"
    using callback_goodD [OF inv_callback [OF inv, of env, unfolded run]] by blast+
  have "overlay_inv lib (Running ov' {#TRaise e#})"
    using single good by (intro inv_single [of lib ov]) blast+
  then show ?thesis using single by (simp del: overlay_inv.simps)
qed

lemma inv_call_wait:
  assumes inv: "overlay_inv lib (Running ov (add_mset (TCallback CbBinding) T))"
    and run: "run_callback lib env CbBinding ov = Some (ov', acts, None)"
  shows "overlay_inv lib (Running ov' (add_mset TBindWait T))"
proof -
  note single = single_threadD [OF inv]
  have good: "ov_automata ov' = ov_automata ov" "ov_Config ov' = ov_Config ov" "counters_ok ov'"
      "resources_ok (ov_state ov') ov'" "thread_ok ov' TBindWait"
    using callback_goodD [OF inv_callback [OF inv, of env, unfolded run]] by blast+
  have "overlay_inv lib (Running ov' {#TBindWait#})"
    using single good by (intro inv_single [of lib ov]) blast+
  then show ?thesis using single by (simp del: overlay_inv.simps)
qed

lemma inv_call_end:
  assumes inv: "overlay_inv lib (Running ov (add_mset (TCallback cb) T))"
    and run: "run_callback lib env cb ov = Some (ov', acts, None)" and "cb \<noteq> CbBinding"
  shows "overlay_inv lib (Running ov' T)"
proof -
  note single = single_threadD [OF inv]
  have "ov_automata ov' = ov_automata ov \<and> ov_Config ov' = ov_Config ov \<and> counters_ok ov' \<and>
      resources_ok (ov_state ov') ov' \<and> \<not> ov_Reopen ov'"
    using callback_goodD [OF inv_callback [OF inv, of env, unfolded run]] assms(3) by blast
  with single show ?thesis by (auto simp: base_ok_def tables_ok_def simp del: thread_ok.simps)
qed

lemma inv_reply:
  assumes inv: "overlay_inv lib (Running ov (add_mset TBindWait T))"
  shows "\<exists>ov' e. binding_handler lib now ev ov = Some (ov', e) \<and>
    overlay_inv lib (Running ov' (add_mset (TRaise e) T))"
proof -
  note single = single_threadD [OF inv]
  have "ov_state ov = StateBinding" "counters_ok ov" "resources_ok StateBinding ov"
    using single by (auto simp: base_ok_def)
  then have "case binding_handler lib now ev ov of None \<Rightarrow> False
    | Some (ov', e) \<Rightarrow> ov_automata ov' = ov_automata ov \<and> ov_Config ov' = ov_Config ov \<and>
        ov_Reopen ov' = ov_Reopen ov \<and> counters_ok ov' \<and> resources_ok (ov_state ov') ov' \<and>
        thread_ok ov' (TRaise e)"
    using handler_good single by blast
  then obtain ov' e where run: "binding_handler lib now ev ov = Some (ov', e)"
    and good: "ov_automata ov' = ov_automata ov" "ov_Config ov' = ov_Config ov" "counters_ok ov'"
      "resources_ok (ov_state ov') ov'" "thread_ok ov' (TRaise e)"
    by (auto simp del: thread_ok.simps split: option.splits)
  have "overlay_inv lib (Running ov' {#TRaise e#})"
    using single good by (intro inv_single [of lib ov]) blast+
  then show ?thesis using single run by (simp del: overlay_inv.simps)
qed

lemma ostep_inv:
  assumes step: "ostep lib False c c'" and inv: "overlay_inv lib c"
  shows "overlay_inv lib c'"
  using step inv
proof cases
  case raise
  then show ?thesis using inv inv_raise by (metis option.inject)
next
  case raise_quiet
  then show ?thesis using inv inv_raise by blast
next
  case reject
  then show ?thesis using inv inv_reject by blast
next
  case call
  then show ?thesis using inv inv_call by blast
next
  case call_wait
  then show ?thesis using inv inv_call_wait by blast
next
  case call_end
  then show ?thesis using inv inv_call_end by blast
next
  case (call_panic env cb ov T)
  then have "callback_good cb ov None" using inv inv_callback by metis
  then show ?thesis by (simp add: callback_good_def)
next
  case reply
  then show ?thesis using inv inv_reply by (metis option.inject prod.inject)
next
  case reply_panic
  then show ?thesis using inv inv_reply by (metis option.distinct(1))
next
  case recv
  then show ?thesis using inv inv_recv recv_frame by blast
qed simp

interpretation ov_sys: invariant_system "overlay_init lib" "ostep lib False" "overlay_inv lib" for lib
  by unfold_locales (auto simp del: overlay_inv.simps intro: overlay_init_inv ostep_inv)

subsection \<open>What holds in every reachable configuration\<close>

lemma reach_single:
  assumes "reach (overlay_init lib) (ostep lib False) c"
  shows "\<exists>ov T. c = Running ov T \<and> stun_laws lib \<and> base_ok ov \<and> resources_ok (ov_state ov) ov \<and>
    ((T = {#} \<and> \<not> ov_Reopen ov) \<or> (\<exists>t. T = {#t#} \<and> thread_ok ov t))"
proof (cases c)
  case (Running ov T)
  then show ?thesis using ov_sys.reach_inv [OF assms] by simp
next
  case Crashed
  then show ?thesis using ov_sys.reach_inv [OF assms] by simp
qed

lemma reach_thread:
  assumes "reach (overlay_init lib) (ostep lib False) (Running ov T)" and "t \<in># T"
  shows "T = {#t#} \<and> thread_ok ov t \<and> base_ok ov \<and> resources_ok (ov_state ov) ov"
  using reach_single [OF assms(1)] assms(2) by (auto simp del: thread_ok.simps)

lemma online_active: "set online_states \<subseteq> active_states"
  by (simp add: online_states_def active_states_def)

lemma Ready_resources:
  "resources_ok (ov_state ov) ov \<Longrightarrow> Ready ov \<Longrightarrow>
     overlay_sock ov \<noteq> None \<and> ov_stun ov \<noteq> None \<and> ov_externalAddr ov \<noteq> None"
  using online_active unfolding Ready_def resources_ok_def conn_live_def by blast

text \<open>Somebody can always move: the thread there is has a step, and not into a crash.\<close>

lemma raise_progress:
  assumes "overlay_inv lib (Running ov {#TRaise e#})"
  shows "\<exists>ov' T'. ostep lib False (Running ov {#TRaise e#}) (Running ov' T')"
proof -
  have "\<not> is_err (automata_event (ov_automata ov) e)" using inv_reject [of lib ov e "{#}"] assms by blast
  then obtain a' cb where ev: "automata_event (ov_automata ov) e = Inr (a', cb)" by (auto simp: not_is_err_iff)
  then obtain c where "cb = Some c" using inv_raise [of lib ov e "{#}" a' cb] assms by blast
  with ev show ?thesis using ostep.raise [of ov e a' c lib False "{#}"] by blast
qed

lemma callback_progress:
  assumes "overlay_inv lib (Running ov {#TCallback cb#})"
  shows "\<exists>ov' T'. ostep lib False (Running ov {#TCallback cb#}) (Running ov' T')"
proof -
  have "callback_good cb ov (run_callback lib env cb ov)" for env using inv_callback [of lib ov cb "{#}"] assms by blast
  then obtain ov' acts eo where run: "run_callback lib undefined cb ov = Some (ov', acts, eo)"
    by (force simp: callback_good_def split: option.splits)
  then show ?thesis
    using ostep.call [of lib undefined cb ov ov' acts _ False "{#}"] ostep.call_wait [of lib undefined ov ov' acts False "{#}"]
      ostep.call_end [of lib undefined cb ov ov' acts False "{#}"]
    by (cases eo; cases "cb = CbBinding") (auto simp del: run_callback.simps)
qed

lemma inv_progress:
  assumes "overlay_inv lib (Running ov T)" and "T \<noteq> {#}"
  shows "\<exists>ov' T'. ostep lib False (Running ov T) (Running ov' T')"
proof -
  obtain t where T: "T = {#t#}" and t: "thread_ok ov t"
    using assms by (auto simp del: thread_ok.simps)
  show ?thesis
  proof (cases t)
    case (TRaise e)
    then show ?thesis using raise_progress assms(1) T by blast
  next
    case (TCallback cb)
    then show ?thesis using callback_progress assms(1) T by blast
  next
    case TBindWait
    then obtain ov' e where "binding_handler lib undefined undefined ov = Some (ov', e)"
      using inv_reply [of lib ov "{#}"] assms(1) T by blast
    then have "ostep lib False (Running ov T) (Running ov' {#TRaise e#})"
      using ostep.reply [of lib undefined undefined ov ov' e False "{#}"] T TBindWait by simp
    then show ?thesis by blast
  qed
qed

subsection \<open>From closed to listening\<close>

text \<open>
  The environment of a good start: a socket, a STUN client, a transaction that starts.
\<close>

definition good_env :: "udp_conn \<Rightarrow> nat \<Rightarrow> int \<Rightarrow> cb_env" where
  "good_env sock client now =
     \<lparr>env_now = now, env_listen = Inr sock, env_client = Inr client, env_set_deadline = None,
      env_start = None, env_read = Inl (ErrSys 0)\<rparr>"

text \<open>The state after the socket and the client have been opened.\<close>

definition opened_with :: "udp_conn \<Rightarrow> nat \<Rightarrow> go_state \<Rightarrow> overlay \<Rightarrow> overlay" where
  "opened_with sock client s ov =
     ov\<lparr>ov_automata := (ov_automata ov)\<lparr>current := s\<rparr>,
        ov_conn := Some \<lparr>ou_conn = Some sock, ou_rendezvous = ov_rendezvousAddr ov\<rparr>,
        ov_stun := Some client\<rparr>"

lemma raise_step:
  "tables_ok ov \<Longrightarrow> overlay_next (ov_state ov) e = Some d \<Longrightarrow>
   ostep lib cl (Running ov (add_mset (TRaise e) T))
     (Running (ov\<lparr>ov_automata := (ov_automata ov)\<lparr>current := d\<rparr>\<rparr>)
       (add_mset (TCallback (overlay_callback d)) T))"
  by (rule ostep.raise) (simp add: event_step)

lemma tables_ok_frame [simp]:
  "tables_ok (ov\<lparr>ov_conn := x\<rparr>) = tables_ok ov" "tables_ok (ov\<lparr>ov_stun := y\<rparr>) = tables_ok ov"
  "tables_ok (ov\<lparr>ov_errCount := n\<rparr>) = tables_ok ov" "tables_ok (ov\<lparr>ov_xorAddr := xa\<rparr>) = tables_ok ov"
  "tables_ok (ov\<lparr>ov_peers := st\<rparr>) = tables_ok ov" "tables_ok (ov\<lparr>ov_externalAddr := ea\<rparr>) = tables_ok ov"
  "tables_ok (ov\<lparr>ov_channelExpired := t\<rparr>) = tables_ok ov"
  by (simp_all add: tables_ok_def)

lemma opened_with_state: "ov_state (opened_with sock client s ov) = s"
  by (simp add: opened_with_def)

lemma tables_opened_with: "tables_ok (opened_with sock client s ov) = tables_ok ov"
  by (simp add: tables_ok_def opened_with_def)

lemma steps_open:
  assumes "tables_ok ov" "ov_state ov = StateClosed"
  shows "(ostep lib cl)\<^sup>*\<^sup>* (Running ov (add_mset (TRaise EventOpen) T))
    (Running (opened_with sock client StateBinding ov) (add_mset (TCallback CbBinding) T))"
proof -
  let ?ov1 = "ov\<lparr>ov_automata := (ov_automata ov)\<lparr>current := StateOpening\<rparr>\<rparr>"
  let ?ov2 = "opened_with sock client StateOpening ov"
  let ?ov3 = "opened_with sock client StateOpened ov"
  have "ostep lib cl (Running ov (add_mset (TRaise EventOpen) T))
      (Running ?ov1 (add_mset (TCallback CbOpening) T))"
    using raise_step [of ov EventOpen StateOpening] assms by simp
  moreover have "ostep lib cl (Running ?ov1 (add_mset (TCallback CbOpening) T))
      (Running ?ov2 (add_mset (TRaise EventSuccess) T))"
    by (rule ostep.call [where env = "good_env sock client 0" and acts = "[]"])
      (simp add: cb_opening_def newOverlayUDPConn_def good_env_def opened_with_def)
  moreover have "?ov2\<lparr>ov_automata := (ov_automata ?ov2)\<lparr>current := StateOpened\<rparr>\<rparr> = ?ov3"
    by (rule overlay.equality) (simp_all add: opened_with_def)
  then have "ostep lib cl (Running ?ov2 (add_mset (TRaise EventSuccess) T))
      (Running ?ov3 (add_mset (TCallback CbOpened) T))"
    using raise_step [of ?ov2 EventSuccess StateOpened lib cl T] assms
    by (simp add: opened_with_state tables_opened_with)
  moreover have "ostep lib cl (Running ?ov3 (add_mset (TCallback CbOpened) T))
      (Running ?ov3 (add_mset (TRaise EventBind) T))"
    by (rule ostep.call [where acts = "[]"]) (simp add: cb_opened_def)
  moreover have "?ov3\<lparr>ov_automata := (ov_automata ?ov3)\<lparr>current := StateBinding\<rparr>\<rparr> =
      opened_with sock client StateBinding ov"
    by (rule overlay.equality) (simp_all add: opened_with_def)
  then have "ostep lib cl (Running ?ov3 (add_mset (TRaise EventBind) T))
      (Running (opened_with sock client StateBinding ov) (add_mset (TCallback CbBinding) T))"
    using raise_step [of ?ov3 EventBind StateBinding lib cl T] assms
    by (simp add: opened_with_state tables_opened_with)
  ultimately show ?thesis
    by (meson converse_rtranclp_into_rtranclp rtranclp.rtrancl_refl)
qed

text \<open>A reply the handler accepts.\<close>

definition good_reply :: "'m stun_lib \<Rightarrow> overlay \<Rightarrow> 'm \<Rightarrow> xor_addr \<Rightarrow> session_table \<Rightarrow> bool" where
  "good_reply lib ov m xa st \<longleftrightarrow>
     validateMessage lib m (Some BindingSuccess) (oc_StunPassword (ov_Config ov)) = None \<and>
     lib_get_xor lib m = Inr xa \<and> ip_wf (fst xa) \<and> GetSessionTableFrom lib m = Inr st"

definition bound_state :: "int \<Rightarrow> xor_addr \<Rightarrow> session_table \<Rightarrow> overlay \<Rightarrow> overlay" where
  "bound_state now xa st ov =
     ov\<lparr>ov_xorAddr := xa, ov_peers := ov_peers ov ++ st,
        ov_externalAddr := (case resolve_literal \<lparr>IP = fst xa, Port = snd xa, Zone = []\<rparr> of
                              Inr a \<Rightarrow> Some a | Inl _ \<Rightarrow> None),
        ov_channelExpired := now + oc_ChannelLifespan (ov_Config ov) * second\<rparr>"

lemma handler_accepts:
  assumes "good_reply lib ov m xa st" "overlay_sock ov \<noteq> None"
  shows "binding_handler lib now \<lparr>ev_Error = None, ev_Message = Some m\<rparr> ov
           = Some (bound_state now xa st ov, EventSuccess)"
  using assms by (auto simp: binding_handler_def good_reply_def updateSessionTable_def bound_state_def Let_def)

lemma steps_bind:
  assumes "tables_ok ov" "ov_state ov = StateBinding" "overlay_sock ov \<noteq> None" "ov_stun ov \<noteq> None"
    and "bindingRequestMessage lib ov = Some (Inr req)" "good_reply lib ov m xa st"
  shows "(ostep lib cl)\<^sup>*\<^sup>* (Running ov (add_mset (TCallback CbBinding) T))
    (Running ((bound_state now xa st ov)\<lparr>ov_automata := (ov_automata ov)\<lparr>current := StateListening\<rparr>\<rparr>)
       (add_mset (TCallback CbListening) T))"
proof -
  let ?ov' = "bound_state now xa st ov"
  have "ostep lib cl (Running ov (add_mset (TCallback CbBinding) T)) (Running ov (add_mset TBindWait T))"
    by (rule ostep.call_wait [where env = "good_env undefined undefined 0"])
      (use assms in \<open>auto simp: cb_binding_def good_env_def\<close>)
  moreover have "ostep lib cl (Running ov (add_mset TBindWait T)) (Running ?ov' (add_mset (TRaise EventSuccess) T))"
    by (rule ostep.reply [OF handler_accepts [OF assms(6,3)]])
  moreover have "tables_ok ?ov'" "ov_automata ?ov' = ov_automata ov"
    using assms(1) by (simp_all add: bound_state_def)
  then have "ostep lib cl (Running ?ov' (add_mset (TRaise EventSuccess) T))
      (Running (?ov'\<lparr>ov_automata := (ov_automata ov)\<lparr>current := StateListening\<rparr>\<rparr>)
       (add_mset (TCallback CbListening) T))"
    using raise_step [of ?ov' EventSuccess StateListening lib cl T] assms(2) by simp
  ultimately show ?thesis
    by (meson converse_rtranclp_into_rtranclp rtranclp.rtrancl_refl)
qed

lemma steps_reconnect:
  assumes "tables_ok ov" "ov_state ov = StateClosed"
    and "bindingRequestMessage lib (opened_with sock client StateBinding ov) = Some (Inr req)"
    and "good_reply lib ov m xa st"
  shows "\<exists>ov'. (ostep lib cl)\<^sup>*\<^sup>* (Running ov (add_mset (TRaise EventOpen) T))
      (Running ov' (add_mset (TCallback CbListening) T)) \<and>
    Ready ov' \<and> ov_state ov' = StateListening \<and> tables_ok ov' \<and>
    ov_peers ov' = ov_peers ov ++ st \<and> ov_errCount ov' = ov_errCount ov \<and>
    ov_Config ov' = ov_Config ov \<and> ov_stun ov' \<noteq> None \<and> ov_conn ov' \<noteq> None \<and>
    overlay_sock ov' \<noteq> None"
proof -
  let ?b = "opened_with sock client StateBinding ov"
  let ?l = "(bound_state 0 xa st ?b)\<lparr>ov_automata := (ov_automata ?b)\<lparr>current := StateListening\<rparr>\<rparr>"
  have b: "tables_ok ?b" "ov_state ?b = StateBinding" "overlay_sock ?b \<noteq> None" "ov_stun ?b \<noteq> None"
    "good_reply lib ?b m xa st"
    using assms by (simp_all add: opened_with_def overlay_sock_def good_reply_def)
  have "(ostep lib cl)\<^sup>*\<^sup>* (Running ov (add_mset (TRaise EventOpen) T)) (Running ?l (add_mset (TCallback CbListening) T))"
    using steps_open [OF assms(1,2), of lib cl T sock client]
      steps_bind [OF b(1-4) assms(3) b(5), of cl T 0] by (rule rtranclp_trans)
  moreover have "Ready ?l \<and> ov_state ?l = StateListening \<and> tables_ok ?l \<and>
      ov_peers ?l = ov_peers ov ++ st \<and> ov_errCount ?l = ov_errCount ov \<and>
      ov_Config ?l = ov_Config ov \<and> ov_stun ?l \<noteq> None \<and> ov_conn ?l \<noteq> None \<and> overlay_sock ?l \<noteq> None"
    using assms(1)
    by (simp add: bound_state_def opened_with_def Ready_def online_states_def overlay_sock_def tables_ok_def)
  ultimately show ?thesis by blast
qed

end
