(* ===== verification/Overlay_Send.thy ===== *)
theory Overlay_Send
  imports Overlay_Safety
begin

section \<open>Sending to the peers and receiving from them\<close>

text \<open>
  Who gets a packet, when sending panics, and what a data message carries from one overlay to the
  next.
\<close>

subsection \<open>Recipients\<close>

text \<open>A session the senders can use: two addresses at least, the first of them not nil.\<close>

definition usable_session :: "session \<Rightarrow> bool" where
  "usable_session s \<longleftrightarrow> length s \<ge> 2 \<and> s ! 0 \<noteq> None"

definition sessions_ok :: "overlay \<Rightarrow> bool" where
  "sessions_ok ov \<longleftrightarrow> (\<forall>i s. ov_peers ov i = Some s \<longrightarrow> usable_session s)"

definition recipients :: "overlay \<Rightarrow> peer_id list \<Rightarrow> udp_addr option list" where
  "recipients ov ids =
     map (\<lambda>i. the (peer_target ov (the (ov_peers ov i))))
         (filter (\<lambda>i. i \<noteq> ov_ID ov \<and> ov_peers ov i \<noteq> None) ids)"

lemma peer_target_usable:
  "usable_session s \<Longrightarrow> ov_externalAddr ov \<noteq> None \<Longrightarrow> \<exists>t. peer_target ov s = Some t"
  by (cases s) (auto simp: usable_session_def peer_target_def)

lemma multicast_loop_stopped:
  assumes "sessions_ok ov" "ov_externalAddr ov \<noteq> None"
  shows "multicast_loop write raw ov (Some e) ids = Some []"
proof (induction ids)
  case (Cons i ids)
  show ?case
  proof (cases "ov_peers ov i")
    case (Some s)
    then have u: "usable_session s" using assms(1) by (auto simp: sessions_ok_def)
    then obtain t where "peer_target ov s = Some t"
      using peer_target_usable assms(2) by blast
    with Cons Some u show ?thesis by (simp add: usable_session_def)
  qed (simp add: Cons)
qed simp

text \<open>\<open>multicastMessage\<close> reaches the peers before the first one it fails to write to, and no other.\<close>

lemma multicast_loop_prefix:
  assumes "sessions_ok ov" "ov_externalAddr ov \<noteq> None" "overlay_sock ov \<noteq> None"
  shows "multicast_loop write raw ov None ids =
    Some (map (\<lambda>t. WriteTo raw (the t)) (takeWhile (\<lambda>t. send_to write t = None) (recipients ov ids)))"
proof (induction ids)
  case (Cons i ids)
  show ?case
  proof (cases "i = ov_ID ov \<or> ov_peers ov i = None")
    case True
    with Cons show ?thesis by (auto simp: recipients_def)
  next
    case False
    then obtain s where s: "ov_peers ov i = Some s" by auto
    then have u: "usable_session s" using assms(1) by (auto simp: sessions_ok_def)
    then obtain t where t: "peer_target ov s = Some t"
      using peer_target_usable assms(2) by blast
    show ?thesis
    proof (cases "send_to write t")
      case None
      with Cons False s u t assms(3) show ?thesis by (simp add: recipients_def usable_session_def)
    next
      case (Some e)
      have "multicast_loop write raw ov (Some e) ids = Some []"
        by (rule multicast_loop_stopped) fact+
      with Some False s u t assms(3) show ?thesis
        by (simp add: recipients_def usable_session_def Let_def)
    qed
  qed
qed (simp add: recipients_def)

text \<open>\<open>sendKeepAlive\<close> goes on after a failure.\<close>

lemma keepalive_loop_all:
  assumes "sessions_ok ov" "ov_externalAddr ov \<noteq> None"
  shows "keepalive_loop write raw ov ids =
    Some (map (\<lambda>t. WriteTo raw (the t)) (filter (\<lambda>t. send_to write t = None) (recipients ov ids)))"
proof (induction ids)
  case (Cons i ids)
  show ?case
  proof (cases "i = ov_ID ov \<or> ov_peers ov i = None")
    case True
    with Cons show ?thesis by (auto simp: recipients_def)
  next
    case False
    then obtain s where s: "ov_peers ov i = Some s" by auto
    then have u: "usable_session s" using assms(1) by (auto simp: sessions_ok_def)
    then obtain t where "peer_target ov s = Some t"
      using peer_target_usable assms(2) by blast
    with Cons False s u show ?thesis by (simp add: recipients_def usable_session_def)
  qed
qed (simp add: recipients_def)

text \<open>A peer behind the same NAT is written to at its internal address.\<close>

lemma peer_target_same_nat:
  assumes "ov_externalAddr ov = Some ext" "s = Some e # i # r" "ip_Equal (IP e) (IP ext)"
  shows "peer_target ov s = Some i"
  using assms by (simp add: peer_target_def)

lemma peer_target_other_nat:
  assumes "ov_externalAddr ov = Some ext" "s = Some e # r" "\<not> ip_Equal (IP e) (IP ext)"
  shows "peer_target ov s = Some (Some e)"
  using assms by (simp add: peer_target_def)

lemma multicast_loop_short_session:
  assumes "i \<noteq> ov_ID ov" "ov_peers ov i = Some s" "length s < 2"
  shows "multicast_loop write raw ov err (i # ids) = None"
  using assms by (auto simp: Let_def split: option.splits)

lemma overlay_Write_no_panic:
  assumes "resources_ok (ov_state ov) ov" "sessions_ok ov"
  shows "overlay_Write lib write ov ids b \<noteq> None"
proof (cases "Ready ov")
  case True
  then have "ov_externalAddr ov \<noteq> None" "overlay_sock ov \<noteq> None"
    using Ready_resources assms(1) by blast+
  then have "multicastMessage lib write ov ids b \<noteq> None"
    using multicast_loop_prefix [OF assms(2)] by (auto simp: multicastMessage_def split: sum.split)
  then show ?thesis by (auto simp: overlay_Write_def split: go_state.split)
next
  case False
  then show ?thesis
    by (auto simp: overlay_Write_def Ready_def online_states_def Current_def split: go_state.split)
qed

subsection \<open>A data message from one overlay to another\<close>

text \<open>What a receiver reads in a protected data message, whoever built it.\<close>

lemma build_data_from:
  assumes laws: "stun_laws lib"
    and build: "lib_build lib [lib_rand_tid lib, lib_set_type lib stunDataIndication, PeerMessage_AddTo lib data,
      PeerID_AddTo lib i, lib_add_integrity lib p, lib_add_fingerprint lib] = Inr m"
  shows "lib_type lib m = stunDataIndication \<and> PeerID_GetFrom lib m = Inr i \<and>
    lib_get lib m AttrData = Inr data \<and> validateMessage lib m None p = None"
proof -
  let ?fs = "[PeerMessage_AddTo lib data, PeerID_AddTo lib i]"
  have "lib_build lib (lib_rand_tid lib # lib_set_type lib stunDataIndication #
      ?fs @ [lib_add_integrity lib p, lib_add_fingerprint lib]) = Inr m"
    using build by simp
  then obtain m0 m1 where m1: "apply_all ?fs m0 = Inr m1" and "lib_type lib m0 = stunDataIndication"
    and empty: "\<And>t. is_err (lib_get lib m0 t)" and same: "same_content lib m1 m"
    and prot: "lib_check_integrity lib p m = None" "lib_check_fingerprint lib m = None"
    by (rule protected_build [OF laws _ header_lawsD(3) [OF laws]]) blast+
  moreover define m2 where "m2 = lib_add lib m0 AttrData data"
  moreover from m1 have "m1 = lib_add lib m2 AttrUsername (pid_bytes i)"
    by (simp add: PeerMessage_AddTo_def PeerID_AddTo_def m2_def)
  moreover have "is_err (lib_get lib m2 AttrUsername)"
    using empty attr_lawsD(3) [OF laws, of AttrUsername AttrData] by (simp add: m2_def)
  ultimately have "lib_type lib m1 = stunDataIndication" "PeerID_GetFrom lib m1 = Inr i" "lib_get lib m1 AttrData = Inr data"
    using attr_lawsD(2-4) [OF laws] by (simp_all add: PeerID_GetFrom_Inr)
  with same have m: "lib_type lib m = stunDataIndication" "PeerID_GetFrom lib m = Inr i" "lib_get lib m AttrData = Inr data"
    by (simp_all add: same_content_GetFrom [OF same] same_content_def [of lib m1 m])
  have "validateMessage lib m None p = None"
    by (rule validate_ok [OF laws m(2) prot]) simp
  with m show ?thesis by simp
qed

lemma data_received_from:
  assumes laws: "stun_laws lib"
    and build: "lib_build lib [lib_rand_tid lib, lib_set_type lib stunDataIndication, PeerMessage_AddTo lib data,
      PeerID_AddTo lib i, lib_add_integrity lib (oc_StunPassword (ov_Config receiver)), lib_add_fingerprint lib] = Inr m"
    and msg: "ov_msg receiver = lib_raw lib m"
  shows "cb_processingMessage lib receiver =
    (case chan_send data receiver of
       Inr ov' \<Rightarrow> Some (ov', [], Some EventSuccess)
     | Inl _ \<Rightarrow> Some (receiver, [], Some EventError))"
  using build_data_from [OF laws build] wire_lawsD(1,2) [OF laws, of m]
  by (simp add: cb_processingMessage_def parseHeader_def msg dispatch_message_def peerDataIndication_def
      stunDataIndication_def split: sum.split)

lemma data_received:
  assumes "stun_laws lib" "dataMessage lib sender data = Inr m"
    and "oc_StunPassword (ov_Config receiver) = oc_StunPassword (ov_Config sender)" "ov_msg receiver = lib_raw lib m"
  shows "cb_processingMessage lib receiver =
    (case chan_send data receiver of
       Inr ov' \<Rightarrow> Some (ov', [], Some EventSuccess)
     | Inl _ \<Rightarrow> Some (receiver, [], Some EventError))"
  using assms by (intro data_received_from) (simp_all add: dataMessage_def)

text \<open>A listening overlay takes a datagram, processes it and listens again.\<close>

definition receives :: "bytes \<Rightarrow> udp_addr \<Rightarrow> cb_env" where
  "receives datagram from_addr = \<lparr>env_now = 0, env_listen = Inl (ErrSys 0), env_client = Inl (ErrSys 0),
     env_set_deadline = None, env_start = None, env_read = Inr (datagram, from_addr)\<rparr>"

lemma steps_message:
  assumes ov: "tables_ok ov" "ov_state ov = StateListening" "overlay_sock ov \<noteq> None"
    and fits: "0 \<le> oc_ListeningBufferSize (ov_Config ov)" "length b \<le> nat (oc_ListeningBufferSize (ov_Config ov))"
    and process: "\<And>ov1. ov_msg ov1 = b \<Longrightarrow> ov_Config ov1 = ov_Config ov \<Longrightarrow> ov_peerDataChan ov1 = ov_peerDataChan ov \<Longrightarrow>
      cb_processingMessage lib ov1 = Some (ov1\<lparr>ov_peerDataChan := items\<rparr>, [], Some EventSuccess)"
  shows "\<exists>ov'. (ostep lib cl)\<^sup>*\<^sup>* (Running ov (add_mset (TCallback CbListening) T)) (Running ov' (add_mset (TCallback CbListening) T)) \<and>
    ov' = ov\<lparr>ov_channelExpired := ov_channelExpired ov', ov_msg := b, ov_senderAddr := ov_senderAddr ov', ov_peerDataChan := items\<rparr>"
proof -
  let ?ov1 = "ov\<lparr>ov_channelExpired := oc_ChannelLifespan (ov_Config ov) * second, ov_msg := b, ov_senderAddr := Some a\<rparr>"
  let ?ov2 = "?ov1\<lparr>ov_automata := (ov_automata ov)\<lparr>current := StateProcessingMessage\<rparr>\<rparr>"
  let ?ov3 = "?ov2\<lparr>ov_peerDataChan := items\<rparr>"
  let ?ov4 = "?ov3\<lparr>ov_automata := (ov_automata ov)\<lparr>current := StateListening\<rparr>\<rparr>"
  obtain c where "overlay_sock ov = Some c" using ov(3) by blast
  then have "ostep lib cl (Running ov (add_mset (TCallback CbListening) T)) (Running ?ov1 (add_mset (TRaise EventSuccess) T))"
    using fits by (intro ostep.call [where env = "receives b a" and acts = "[]"]) (simp add: cb_listening_def receives_def)
  moreover have "ostep lib cl (Running ?ov1 (add_mset (TRaise EventSuccess) T)) (Running ?ov2 (add_mset (TCallback CbProcessingMessage) T))"
    using raise_step [of ?ov1 EventSuccess StateProcessingMessage lib cl T] ov by (simp add: tables_ok_def)
  moreover have "ostep lib cl (Running ?ov2 (add_mset (TCallback CbProcessingMessage) T)) (Running ?ov3 (add_mset (TRaise EventSuccess) T))"
    using process [of ?ov2] by (intro ostep.call [where env = "receives b a" and acts = "[]"]) simp
  moreover have "ostep lib cl (Running ?ov3 (add_mset (TRaise EventSuccess) T)) (Running ?ov4 (add_mset (TCallback CbListening) T))"
    using raise_step [of ?ov3 EventSuccess StateListening lib cl T] ov by (simp add: tables_ok_def)
  ultimately have "(ostep lib cl)\<^sup>*\<^sup>* (Running ov (add_mset (TCallback CbListening) T)) (Running ?ov4 (add_mset (TCallback CbListening) T))"
    by (meson converse_rtranclp_into_rtranclp rtranclp.rtrancl_refl)
  moreover have "(ov_automata ov)\<lparr>current := StateListening\<rparr> = ov_automata ov" using ov(2) by simp
  then have "?ov4 = ?ov1\<lparr>ov_peerDataChan := items\<rparr>" by simp
  ultimately show ?thesis by (intro exI [of _ ?ov4]) simp
qed

end
