(* ===== verification/Overlay_Limits.thy ===== *)
theory Overlay_Limits
  imports Overlay_Safety
begin

section \<open>The error counter, and closing from outside\<close>

text \<open>
  Two consequences of how the callbacks share state.  The counter \<open>errCount\<close> is common to
  \<open>bindError\<close> and \<open>messageError\<close> and no success resets it, so errors of the listening phase count
  against the next binding.  And \<open>Close\<close> called from another goroutine takes the connection away from
  the thread that drives the automaton.
\<close>

definition goto :: "go_state \<Rightarrow> overlay \<Rightarrow> overlay" where
  "goto s ov = ov\<lparr>ov_automata := (ov_automata ov)\<lparr>current := s\<rparr>\<rparr>"

lemma goto_sel [simp]:
  "ov_state (goto s ov) = s" "tables_ok (goto s ov) = tables_ok ov"
  "ov_conn (goto s ov) = ov_conn ov" "ov_stun (goto s ov) = ov_stun ov"
  "ov_errCount (goto s ov) = ov_errCount ov" "ov_Config (goto s ov) = ov_Config ov"
  "ov_Reopen (goto s ov) = ov_Reopen ov" "ov_channelExpired (goto s ov) = ov_channelExpired ov"
  "overlay_sock (goto s ov) = overlay_sock ov" "ov_ID (goto s ov) = ov_ID ov"
  "ov_peers (goto s ov) = ov_peers ov"
  by (simp_all add: goto_def tables_ok_def)

lemma goto_goto [simp]: "goto s (goto t ov) = goto s ov"
  by (simp add: goto_def)

lemma goto_same: "ov_state ov = s \<Longrightarrow> goto s ov = ov"
  by (intro overlay.equality automata.equality) (simp_all add: goto_def)

lemma goto_errCount: "goto s (ov\<lparr>ov_errCount := n\<rparr>) = (goto s ov)\<lparr>ov_errCount := n\<rparr>"
  by (rule overlay.equality) (simp_all add: goto_def)

lemma bindingRequestMessage_cong:
  "overlay_sock ov' = overlay_sock ov \<Longrightarrow> ov_Config ov' = ov_Config ov \<Longrightarrow> ov_ID ov' = ov_ID ov \<Longrightarrow>
   bindingRequestMessage lib ov' = bindingRequestMessage lib ov"
  by (simp add: bindingRequestMessage_def cong: option.case_cong sum.case_cong)

lemma raise_goto:
  "tables_ok ov \<Longrightarrow> overlay_next (ov_state ov) e = Some d \<Longrightarrow>
   ostep lib cl (Running ov (add_mset (TRaise e) T))
     (Running (goto d ov) (add_mset (TCallback (overlay_callback d)) T))"
  unfolding goto_def by (rule raise_step)

subsection \<open>Listening errors and the next binding\<close>

definition deadline_fails :: cb_env where
  "deadline_fails = \<lparr>env_now = 0, env_listen = Inl (ErrSys 0), env_client = Inl (ErrSys 0),
     env_set_deadline = Some (ErrSys 0), env_start = None, env_read = Inl (ErrSys 0)\<rparr>"

lemma listening_error_round:
  assumes "tables_ok ov" "ov_state ov = StateListening" "overlay_sock ov \<noteq> None"
    and "config_ok (ov_Config ov)" "ov_errCount ov + 1 < oc_ListeningMaxErrors (ov_Config ov)"
  shows "(ostep lib cl)\<^sup>*\<^sup>* (Running ov (add_mset (TCallback CbListening) T))
    (Running (ov\<lparr>ov_errCount := ov_errCount ov + 1\<rparr>) (add_mset (TCallback CbListening) T))"
proof -
  let ?m = "goto StateMessageError ov"
  let ?m' = "?m\<lparr>ov_errCount := ov_errCount ov + 1\<rparr>"
  have "ostep lib cl (Running ov (add_mset (TCallback CbListening) T)) (Running ov (add_mset (TRaise EventError) T))"
    by (rule ostep.call [where env = deadline_fails and acts = "[]"])
      (use assms in \<open>auto simp: cb_listening_def deadline_fails_def config_ok_def\<close>)
  moreover have "ostep lib cl (Running ov (add_mset (TRaise EventError) T))
      (Running ?m (add_mset (TCallback CbMessageError) T))"
    using raise_goto [of ov EventError StateMessageError lib cl T] assms by simp
  moreover have "ostep lib cl (Running ?m (add_mset (TCallback CbMessageError) T))
      (Running ?m' (add_mset (TRaise EventUnderLimit) T))"
    by (rule ostep.call [where acts = "[]"]) (use assms in \<open>simp add: cb_messageError_def Let_def\<close>)
  moreover have "goto StateListening ?m' = ov\<lparr>ov_errCount := ov_errCount ov + 1\<rparr>"
    using goto_same [OF assms(2)] by (simp add: goto_errCount)
  then have "ostep lib cl (Running ?m' (add_mset (TRaise EventUnderLimit) T))
      (Running (ov\<lparr>ov_errCount := ov_errCount ov + 1\<rparr>) (add_mset (TCallback CbListening) T))"
    using raise_goto [of ?m' EventUnderLimit StateListening lib cl T] assms(1) by simp
  ultimately show ?thesis
    by (meson converse_rtranclp_into_rtranclp rtranclp.rtrancl_refl)
qed

lemma listening_error_rounds:
  assumes "tables_ok ov" "ov_state ov = StateListening" "overlay_sock ov \<noteq> None"
    and "config_ok (ov_Config ov)" "ov_errCount ov + int k < oc_ListeningMaxErrors (ov_Config ov)"
  shows "(ostep lib cl)\<^sup>*\<^sup>* (Running ov (add_mset (TCallback CbListening) T))
    (Running (ov\<lparr>ov_errCount := ov_errCount ov + int k\<rparr>) (add_mset (TCallback CbListening) T))"
  using assms(5)
proof (induction k)
  case (Suc k)
  let ?ov = "ov\<lparr>ov_errCount := ov_errCount ov + int k\<rparr>"
  have "(ostep lib cl)\<^sup>*\<^sup>* (Running ?ov (add_mset (TCallback CbListening) T))
    (Running (?ov\<lparr>ov_errCount := ov_errCount ?ov + 1\<rparr>) (add_mset (TCallback CbListening) T))"
    using assms Suc.prems by (intro listening_error_round) auto
  moreover have "?ov\<lparr>ov_errCount := ov_errCount ?ov + 1\<rparr> = ov\<lparr>ov_errCount := ov_errCount ov + int (Suc k)\<rparr>"
    by (simp add: add.commute add.left_commute)
  ultimately show ?case
    using Suc by (metis (no_types, lifting) less_trans of_nat_Suc rtranclp_trans add_strict_left_mono
        of_nat_less_iff lessI)
qed simp

lemma expire_to_binding:
  assumes "tables_ok ov" "ov_state ov = StateListening" "overlay_sock ov \<noteq> None" "ov_stun ov \<noteq> None"
    and "config_ok (ov_Config ov)" "bindingRequestMessage lib ov = Some (Inr req)"
  shows "(ostep lib cl)\<^sup>*\<^sup>* (Running ov (add_mset (TCallback CbListening) T))
    (Running (goto StateBinding ov) (add_mset TBindWait T))"
proof -
  let ?env = "\<lparr>env_now = ov_channelExpired ov + 1, env_listen = Inl (ErrSys 0), env_client = Inl (ErrSys 0),
     env_set_deadline = None, env_start = None, env_read = Inl (ErrSys 0)\<rparr>"
  have "ostep lib cl (Running ov (add_mset (TCallback CbListening) T))
      (Running ov (add_mset (TRaise EventChannelExpired) T))"
    by (rule ostep.call [where env = ?env and acts = "[]"])
      (use assms in \<open>auto simp: cb_listening_def config_ok_def\<close>)
  moreover have "ostep lib cl (Running ov (add_mset (TRaise EventChannelExpired) T))
      (Running (goto StateBinding ov) (add_mset (TCallback CbBinding) T))"
    using raise_goto [of ov EventChannelExpired StateBinding lib cl T] assms by simp
  moreover have "bindingRequestMessage lib (goto StateBinding ov) = Some (Inr req)"
    using assms(6) bindingRequestMessage_cong [of "goto StateBinding ov" ov lib] by simp
  then have "ostep lib cl (Running (goto StateBinding ov) (add_mset (TCallback CbBinding) T))
      (Running (goto StateBinding ov) (add_mset TBindWait T))"
    by (intro ostep.call_wait [where env = ?env]) (use assms in \<open>auto simp: cb_binding_def\<close>)
  ultimately show ?thesis
    by (meson converse_rtranclp_into_rtranclp rtranclp.rtrancl_refl)
qed

text \<open>With the counter one below the limit, one failed reply closes the connection.\<close>

lemma one_failure_closes:
  assumes "tables_ok ov" "ov_state ov = StateBinding" "ov_Reopen ov"
    and "ov_errCount ov + 1 \<ge> oc_BindingMaxErrors (ov_Config ov)"
  shows "\<exists>ov'. (ostep lib cl)\<^sup>*\<^sup>* (Running ov (add_mset TBindWait T))
      (Running ov' (add_mset (TRaise EventOpen) T)) \<and>
    ov_state ov' = StateClosed \<and> ov_conn ov' = None \<and> ov_stun ov' = None"
proof -
  let ?b = "goto StateBindError ov" and ?ev = "\<lparr>ev_Error = Some (ErrSys 0), ev_Message = None\<rparr>"
  let ?b' = "?b\<lparr>ov_errCount := 0\<rparr>"
  let ?c = "goto StateClosed ?b'"
  let ?c' = "?c\<lparr>ov_conn := None, ov_stun := None, ov_errCount := 0\<rparr>"
  have "ostep lib cl (Running ov (add_mset TBindWait T)) (Running ov (add_mset (TRaise EventError) T))"
    by (rule ostep.reply [where ev = ?ev]) (simp add: binding_handler_def)
  moreover have "ostep lib cl (Running ov (add_mset (TRaise EventError) T))
      (Running ?b (add_mset (TCallback CbBindError) T))"
    using raise_goto [of ov EventError StateBindError lib cl T] assms by simp
  moreover have "ostep lib cl (Running ?b (add_mset (TCallback CbBindError) T))
      (Running ?b' (add_mset (TRaise EventOverLimit) T))"
    by (rule ostep.call) (use assms in \<open>simp add: cb_bindError_def Let_def\<close>)
  moreover have "ostep lib cl (Running ?b' (add_mset (TRaise EventOverLimit) T))
      (Running ?c (add_mset (TCallback CbClosed) T))"
    using raise_goto [of ?b' EventOverLimit StateClosed lib cl T] assms(1) by simp
  moreover have "ostep lib cl (Running ?c (add_mset (TCallback CbClosed) T))
      (Running ?c' (add_mset (TRaise EventOpen) T))"
    by (rule ostep.call) (use assms in \<open>simp add: cb_closed_def Let_def\<close>)
  ultimately have "(ostep lib cl)\<^sup>*\<^sup>* (Running ov (add_mset TBindWait T)) (Running ?c' (add_mset (TRaise EventOpen) T))"
    by (meson converse_rtranclp_into_rtranclp rtranclp.rtrancl_refl)
  then show ?thesis by (intro exI [of _ ?c']) simp
qed

lemma listening_errors_close_binding:
  assumes "tables_ok ov" "ov_state ov = StateListening" "ov_Reopen ov"
    and "overlay_sock ov \<noteq> None" "ov_stun ov \<noteq> None" "config_ok (ov_Config ov)"
    and "ov_errCount ov = 0"
    and "0 < oc_BindingMaxErrors (ov_Config ov)"
    and "oc_BindingMaxErrors (ov_Config ov) \<le> oc_ListeningMaxErrors (ov_Config ov)"
    and "bindingRequestMessage lib ov = Some (Inr req)"
  shows "\<exists>ov1 ov2. (ostep lib cl)\<^sup>*\<^sup>* (Running ov (add_mset (TCallback CbListening) T))
      (Running ov1 (add_mset TBindWait T)) \<and> ov_state ov1 = StateBinding \<and>
    (ostep lib cl)\<^sup>*\<^sup>* (Running ov1 (add_mset TBindWait T)) (Running ov2 (add_mset (TRaise EventOpen) T)) \<and>
    ov_state ov2 = StateClosed \<and> ov_conn ov2 = None"
proof -
  let ?B = "oc_BindingMaxErrors (ov_Config ov)"
  define k where "k = nat (?B - 1)"
  then have k: "int k = ?B - 1" using assms(8) by simp
  let ?ovk = "ov\<lparr>ov_errCount := ov_errCount ov + int k\<rparr>"
  have "(ostep lib cl)\<^sup>*\<^sup>* (Running ov (add_mset (TCallback CbListening) T))
      (Running ?ovk (add_mset (TCallback CbListening) T))"
    using assms k by (intro listening_error_rounds) auto
  also have "(ostep lib cl)\<^sup>*\<^sup>* (Running ?ovk (add_mset (TCallback CbListening) T))
      (Running (goto StateBinding ?ovk) (add_mset TBindWait T))"
    using assms bindingRequestMessage_cong [of ?ovk ov lib]
    by (intro expire_to_binding [where req = req]) auto
  finally have "(ostep lib cl)\<^sup>*\<^sup>* (Running ov (add_mset (TCallback CbListening) T))
      (Running (goto StateBinding ?ovk) (add_mset TBindWait T))" .
  moreover have "ov_errCount (goto StateBinding ?ovk) + 1 \<ge> ?B"
    using k assms(7) by simp
  then obtain ov2 where "(ostep lib cl)\<^sup>*\<^sup>* (Running (goto StateBinding ?ovk) (add_mset TBindWait T))
      (Running ov2 (add_mset (TRaise EventOpen) T))" "ov_state ov2 = StateClosed" "ov_conn ov2 = None"
    using one_failure_closes [of "goto StateBinding ?ovk" lib cl T] assms(1,3) by auto
  ultimately show ?thesis
    by (metis goto_sel(1))
qed

subsection \<open>\<open>Close\<close> from another goroutine\<close>

lemma ostep_mono: "ostep lib False c c' \<Longrightarrow> ostep lib True c c'"
  by (induction rule: ostep.induct) (auto intro: ostep.intros)

lemma close_steals_connection:
  assumes "tables_ok ov" "ov_state ov = StateListening"
  shows "(ostep lib True)\<^sup>*\<^sup>* (Running ov {#TCallback CbListening#}) Crashed"
proof -
  let ?c = "goto StateClosed ov"
  obtain ov' acts eo where closed: "cb_closed ?c = Some (ov', acts, eo)" "ov_conn ov' = None"
    "eo = None \<or> (\<exists>e. eo = Some e)"
    by (cases "ov_Reopen ov") (auto simp: cb_closed_def Let_def)
  have sock: "overlay_sock ov' = None" using closed(2) by (simp add: overlay_sock_def)
  then have panic: "run_callback lib deadline_fails CbListening ov' = None"
    by (simp add: cb_listening_def)
  have "ostep lib True (Running ov {#TCallback CbListening#})
      (Running ov {#TRaise EventClose, TCallback CbListening#})"
    by (rule ostep.close) simp
  moreover have "ostep lib True (Running ov {#TRaise EventClose, TCallback CbListening#})
      (Running ?c {#TCallback CbClosed, TCallback CbListening#})"
    using raise_goto [of ov EventClose StateClosed lib True "{#TCallback CbListening#}"] assms by simp
  moreover have "\<exists>T. ostep lib True (Running ?c {#TCallback CbClosed, TCallback CbListening#})
      (Running ov' (add_mset (TCallback CbListening) T))"
  proof (cases eo)
    case None
    then show ?thesis
      using ostep.call_end [of lib deadline_fails CbClosed ?c ov' acts True "{#TCallback CbListening#}"] closed(1)
      by (intro exI [of _ "{#}"]) simp
  next
    case (Some e)
    then show ?thesis
      using ostep.call [of lib deadline_fails CbClosed ?c ov' acts e True "{#TCallback CbListening#}"] closed(1)
      by (intro exI [of _ "{#TRaise e#}"]) (simp add: add_mset_commute)
  qed
  then obtain T where "ostep lib True (Running ?c {#TCallback CbClosed, TCallback CbListening#})
      (Running ov' (add_mset (TCallback CbListening) T))" ..
  moreover have "ostep lib True (Running ov' (add_mset (TCallback CbListening) T)) Crashed"
    by (rule ostep.call_panic [OF panic])
  ultimately show ?thesis
    by (meson converse_rtranclp_into_rtranclp rtranclp.rtrancl_refl)
qed

end
