(* ===== verification/Stun_Reference.thy ===== *)
theory Stun_Reference
  imports Stun_Msg
begin

section \<open>An instance of the STUN library's documented laws\<close>

text \<open>
  \<open>stun_laws\<close> is a hypothesis of the theorems that build or read messages.  This theory shows that
  it can hold: \<open>ref_stun\<close> keeps a message as its parts and uses a numbering of the (countable) type
  as the wire form.  It models no code of the repository; only witnesses use it.
\<close>

instance stun_method :: countable
  by countable_datatype
instance stun_class :: countable
  by countable_datatype
instance stun_attr :: countable
  by countable_datatype
instance message_type :: countable
  by countable_datatype

datatype ref_msg = RefMsg
  (ref_type: message_type)
  (ref_tid: bytes)
  (ref_attrs: "(stun_attr \<times> bytes) list")
  (ref_xor: "(bytes \<times> int) option")
  (ref_mac: "string option")
  (ref_fp: bool)

instance ref_msg :: countable
  by countable_datatype

definition ref_norm :: "ip \<Rightarrow> ip option" where
  "ref_norm a = (if length a \<noteq> 4 \<and> length a \<noteq> 16 then None
     else case ip_To4 a of Some q \<Rightarrow> Some q | None \<Rightarrow> Some a)"

definition ref_get :: "ref_msg \<Rightarrow> stun_attr \<Rightarrow> bytes result" where
  "ref_get m t = (case map_of (ref_attrs m) t of
     None \<Rightarrow> Inl (ErrMsg ''attribute not found'') | Some v \<Rightarrow> Inr v)"

fun ref_add :: "ref_msg \<Rightarrow> stun_attr \<Rightarrow> bytes \<Rightarrow> ref_msg" where
  "ref_add (RefMsg ty i as x p f) t v = RefMsg ty i (as @ [(t, v)]) x p f"

fun ref_set_type :: "message_type \<Rightarrow> ref_msg \<Rightarrow> ref_msg result" where
  "ref_set_type ty (RefMsg _ i as x p f) = Inr (RefMsg ty i as x p f)"

fun ref_set_tid :: "bytes \<Rightarrow> ref_msg \<Rightarrow> ref_msg result" where
  "ref_set_tid i (RefMsg ty _ as x p f) = Inr (RefMsg ty i as x p f)"

fun ref_add_xor :: "xor_addr \<Rightarrow> ref_msg \<Rightarrow> ref_msg result" where
  "ref_add_xor (a, p) (RefMsg ty i as x q f) =
     (case ref_norm a of None \<Rightarrow> Inl (ErrMsg ''bad IP length'')
      | Some b \<Rightarrow> Inr (RefMsg ty i as (Some (b, p)) q f))"

definition ref_get_xor :: "ref_msg \<Rightarrow> xor_addr result" where
  "ref_get_xor m = (case ref_xor m of
     Some (b, p) \<Rightarrow> if ip_wf b then Inr (b, p) else Inl (ErrMsg ''bad address'')
   | None \<Rightarrow> Inl (ErrMsg ''attribute not found''))"

fun ref_add_mac :: "string \<Rightarrow> ref_msg \<Rightarrow> ref_msg result" where
  "ref_add_mac p (RefMsg ty i as x _ f) = Inr (RefMsg ty i as x (Some p) f)"

fun ref_add_fp :: "ref_msg \<Rightarrow> ref_msg result" where
  "ref_add_fp (RefMsg ty i as x p _) = Inr (RefMsg ty i as x p True)"

definition ref_stun :: "ref_msg stun_lib" where
  "ref_stun = \<lparr>
     lib_new = RefMsg (MessageType (MethodOther 0) ClassRequest) [] [] None None False,
     lib_type = ref_type,
     lib_tid = ref_tid,
     lib_get = ref_get,
     lib_add = ref_add,
     lib_build = (\<lambda>fs. apply_all fs (RefMsg (MessageType (MethodOther 0) ClassRequest) [] [] None None False)),
     lib_set_type = ref_set_type,
     lib_rand_tid = ref_set_tid (replicate 12 7),
     lib_set_tid = ref_set_tid,
     lib_add_xor = ref_add_xor,
     lib_get_xor = ref_get_xor,
     lib_add_integrity = ref_add_mac,
     lib_check_integrity = (\<lambda>p m. if ref_mac m = Some p then None else Some (ErrMsg ''integrity check failed'')),
     lib_add_fingerprint = ref_add_fp,
     lib_check_fingerprint = (\<lambda>m. if ref_fp m then None else Some (ErrMsg ''no fingerprint'')),
     lib_username = (\<lambda>m. ref_get m AttrUsername),
     lib_is_message = (\<lambda>_. True),
     lib_decode = (\<lambda>b. Inr (from_nat (length b))),
     lib_raw = (\<lambda>m. replicate (to_nat m) 0),
     lib_marshal = (\<lambda>es. Inr (replicate (to_nat es) 0)),
     lib_unmarshal = (\<lambda>b. Inr (from_nat (length b))) \<rparr>"

lemma ref_norm_wf:
  "ip_wf a \<Longrightarrow> \<exists>b. ref_norm a = Some b \<and> ip_wf b \<and> ip_Equal b a"
  by (auto simp: ref_norm_def ip_wf_def ip_To4_def ip_Equal_def)

lemma ref_set_type_iff:
  "ref_set_type ty m = Inr m' \<longleftrightarrow> m' = RefMsg ty (ref_tid m) (ref_attrs m) (ref_xor m) (ref_mac m) (ref_fp m)"
  by (cases m) auto

lemma ref_set_tid_iff:
  "ref_set_tid i m = Inr m' \<longleftrightarrow> m' = RefMsg (ref_type m) i (ref_attrs m) (ref_xor m) (ref_mac m) (ref_fp m)"
  by (cases m) auto

lemma ref_add_mac_iff:
  "ref_add_mac p m = Inr m' \<longleftrightarrow> m' = RefMsg (ref_type m) (ref_tid m) (ref_attrs m) (ref_xor m) (Some p) (ref_fp m)"
  by (cases m) auto

lemma ref_add_fp_iff:
  "ref_add_fp m = Inr m' \<longleftrightarrow> m' = RefMsg (ref_type m) (ref_tid m) (ref_attrs m) (ref_xor m) (ref_mac m) True"
  by (cases m) auto

lemma ref_add_xor_Inr:
  "ref_add_xor (a, p) m = Inr m' \<Longrightarrow>
   \<exists>b. ref_norm a = Some b \<and>
     m' = RefMsg (ref_type m) (ref_tid m) (ref_attrs m) (Some (b, p)) (ref_mac m) (ref_fp m)"
  by (cases m) (auto split: option.splits)

lemma ref_add_sel [simp]:
  "ref_type (ref_add m t v) = ref_type m" "ref_tid (ref_add m t v) = ref_tid m"
  "ref_attrs (ref_add m t v) = ref_attrs m @ [(t, v)]" "ref_xor (ref_add m t v) = ref_xor m"
  "ref_mac (ref_add m t v) = ref_mac m" "ref_fp (ref_add m t v) = ref_fp m"
  by (cases m; simp)+

lemma ref_get_cong: "ref_attrs m' = ref_attrs m \<Longrightarrow> ref_get m' = ref_get m"
  by (simp add: ref_get_def fun_eq_iff)

lemma ref_get_RefMsg [simp]: "ref_get (RefMsg ty i (ref_attrs m) x p f) = ref_get m"
  and ref_get_xor_RefMsg [simp]: "ref_get_xor (RefMsg ty i as (ref_xor m) p f) = ref_get_xor m"
  by (simp_all add: ref_get_def ref_get_xor_def fun_eq_iff)

lemma ref_attr_laws: "attr_laws ref_stun"
  by (auto simp: attr_laws_def ref_stun_def ref_get_def ref_get_xor_def map_add_def split: option.splits)

lemma ref_header_laws: "header_laws ref_stun"
proof -
  have xor: "ip_wf a \<Longrightarrow> ref_add_xor (a, p) m = Inr m' \<Longrightarrow>
      ref_type m' = ref_type m \<and> ref_get m' = ref_get m \<and>
      (\<exists>b. ref_get_xor m' = Inr (b, p) \<and> ip_wf b \<and> ip_Equal b a)" for a p m m'
    using ref_norm_wf [of a] by (auto dest!: ref_add_xor_Inr intro!: ref_get_cong simp: ref_get_xor_def)
  have wf: "ref_get_xor m = Inr (a, p) \<Longrightarrow> ip_wf a" for m a p
    by (auto simp: ref_get_xor_def split: option.splits if_splits)
  show ?thesis
    unfolding header_laws_def same_content_def ref_stun_def
    using xor wf by (simp add: ref_set_type_iff ref_set_tid_iff) blast
qed

lemma ref_protection_laws: "protection_laws ref_stun"
  unfolding protection_laws_def same_content_def ref_stun_def
  by (simp add: ref_add_mac_iff ref_add_fp_iff)

lemma ref_wire_laws: "wire_laws ref_stun"
  by (auto simp: wire_laws_def ref_stun_def)

theorem ref_stun_laws: "stun_laws ref_stun"
  by (simp add: stun_laws_def ref_attr_laws ref_header_laws ref_protection_laws ref_wire_laws)

lemmas ref_stun_sel = ref_stun_def stun_lib.simps

end
