(* ===== verification/Notification.thy ===== *)
theory Notification
  imports P2P_Prelude
begin

section \<open>Update notifications and keys (\<open>notification.go\<close>, \<open>common.go\<close>)\<close>

text \<open>
  A \<open>Notification\<close> describes an update: a torrent's information, the UUID of the resource it
  updates, a version, and signatures by name.  JSON, bencode, SHA-256, RSA, PEM and the torrent
  library are a parameter, the record \<open>notif_lib\<close>.  \<open>Sign\<close> and \<open>Verify\<close> change the field
  \<open>Signatures\<close> while they compute, as in the source; they return the notification they leave behind.
\<close>

subsection \<open>Data\<close>

text \<open>
  \<open>metainfo.Info\<close>: the fields the program reads or writes, and the rest (piece hashes, files), which
  only the torrent library looks at.
\<close>

record torrent_info =
  ti_Name :: string
  ti_PieceLength :: int
  ti_rest :: bytes

record signature =
  sig_Certificate :: bytes
  sig_Info :: string
  sig_Signature :: bytes

text \<open>The map \<open>Signatures\<close> may be nil, which the encoders tell from an empty map.\<close>

record notification =
  n_Info :: torrent_info
  n_Announce :: string
  n_Nodes :: "string list"
  n_CreationDate :: int
  n_CreatedBy :: string
  n_Encoding :: string
  n_Signatures :: "(string \<rightharpoonup> signature) option"
  n_UUID :: string
  n_Version :: "64 word"

definition zero_notification :: notification where
  "zero_notification =
     \<lparr>n_Info = \<lparr>ti_Name = [], ti_PieceLength = 0, ti_rest = []\<rparr>, n_Announce = [], n_Nodes = [],
      n_CreationDate = 0, n_CreatedBy = [], n_Encoding = [], n_Signatures = None,
      n_UUID = [], n_Version = 0\<rparr>"

record ('priv, 'pub) notif_lib =
  nl_json :: "notification \<Rightarrow> bytes result"              \<comment> \<open>\<open>json.Marshal\<close>\<close>
  nl_sha256 :: "bytes \<Rightarrow> bytes"
  nl_sign :: "'priv \<Rightarrow> bytes \<Rightarrow> bytes result"           \<comment> \<open>\<open>rsa.SignPKCS1v15\<close>\<close>
  nl_verify :: "'pub \<Rightarrow> bytes \<Rightarrow> bytes \<Rightarrow> go_error option" \<comment> \<open>\<open>rsa.VerifyPKCS1v15\<close>\<close>
  nl_bencode :: "notification \<Rightarrow> bytes result"
  nl_bdecode :: "bytes \<Rightarrow> notification \<Rightarrow> notification \<times> go_error option"
    \<comment> \<open>decoding into an existing value: what it becomes, and the error\<close>
  nl_build_info :: "string \<Rightarrow> torrent_info \<Rightarrow> torrent_info result"  \<comment> \<open>\<open>Info.BuildFromFilePath\<close>\<close>
  nl_info_bytes :: "torrent_info \<Rightarrow> bytes result"      \<comment> \<open>the torrent library's bencode\<close>

definition signatureName :: string where
  "signatureName = ''org.fruit-testbed''"

definition softwareName :: string where
  "softwareName = ''fruit/p2p-update''"

subsection \<open>Signing and verifying\<close>

definition Sign :: "('priv, 'pub) notif_lib \<Rightarrow> 'priv \<Rightarrow> notification \<Rightarrow> notification \<times> go_error option" where
  "Sign lib key mi =
     (let mi1 = mi\<lparr>n_Signatures := None\<rparr> in
      case nl_json lib mi1 of
        Inl e \<Rightarrow> (mi1, Some e)
      | Inr data \<Rightarrow>
          (case nl_sign lib key (nl_sha256 lib data) of
             Inl e \<Rightarrow> (mi1, Some e)
           | Inr sig \<Rightarrow>
               (mi1\<lparr>n_Signatures := Some (Map.empty(signatureName \<mapsto>
                  \<lparr>sig_Certificate = [], sig_Info = [], sig_Signature = sig\<rparr>))\<rparr>, None)))"

text \<open>Indexing a nil map finds nothing.\<close>

definition find_signature :: "notification \<Rightarrow> signature option" where
  "find_signature mi = (case n_Signatures mi of None \<Rightarrow> None | Some m \<Rightarrow> m signatureName)"

definition Notification_Verify ::
  "('priv, 'pub) notif_lib \<Rightarrow> 'pub \<Rightarrow> notification \<Rightarrow> notification \<times> go_error option" where
  "Notification_Verify lib pub mi =
     (case find_signature mi of
        None \<Rightarrow> (mi, Some (ErrMsg ''signature is not available''))
      | Some s \<Rightarrow>
          (let sigs = n_Signatures mi;
               mi1 = mi\<lparr>n_Signatures := None\<rparr>;
               err = (case nl_json lib mi1 of
                        Inl e \<Rightarrow> Some e
                      | Inr data \<Rightarrow> nl_verify lib pub (nl_sha256 lib data) (sig_Signature s))
           in (mi1\<lparr>n_Signatures := sigs\<rparr>, err)))"

abbreviation verifies :: "('priv, 'pub) notif_lib \<Rightarrow> 'pub \<Rightarrow> notification \<Rightarrow> bool" where
  "verifies lib pub n \<equiv> snd (Notification_Verify lib pub n) = None"

definition NewNotification ::
  "('priv, 'pub) notif_lib \<Rightarrow> int \<Rightarrow> string \<Rightarrow> string \<Rightarrow> 64 word \<Rightarrow> string \<Rightarrow> int \<Rightarrow> 'priv \<Rightarrow> notification result" where
  "NewNotification lib now filename uuid ver tracker pieceLength key =
     (let mi = zero_notification\<lparr>n_UUID := uuid, n_Version := ver, n_Announce := tracker,
            n_CreatedBy := softwareName, n_Encoding := ''UTF-8'', n_CreationDate := now,
            n_Info := \<lparr>ti_Name = [], ti_PieceLength = pieceLength, ti_rest = []\<rparr>\<rparr> in
      case nl_build_info lib filename (n_Info mi) of
        Inl e \<Rightarrow> Inl e
      | Inr info \<Rightarrow>
          (let name = uuid @ ''-v'' @ nat_dec (unat ver) @ ''-'' @ ti_Name info;
               mi1 = mi\<lparr>n_Info := info\<lparr>ti_Name := name\<rparr>\<rparr>
           in case Sign lib key mi1 of
                (_, Some e) \<Rightarrow> Inl e
              | (mi2, None) \<Rightarrow> Inr mi2))"

definition ReadNotification :: "('priv, 'pub) notif_lib \<Rightarrow> bytes \<Rightarrow> notification \<times> go_error option" where
  "ReadNotification lib input = nl_bdecode lib input zero_notification"

definition LoadNotificationFromFile ::
  "('priv, 'pub) notif_lib \<Rightarrow> bytes result \<Rightarrow> (notification \<times> go_error option) option" where
  "LoadNotificationFromFile lib file =
     (case file of Inl e \<Rightarrow> None | Inr input \<Rightarrow> Some (ReadNotification lib input))"

text \<open>\<open>Write\<close> to a writer, a function of the bytes written.\<close>

definition Notification_Write ::
  "('priv, 'pub) notif_lib \<Rightarrow> (bytes \<Rightarrow> ('w \<times> go_error option) may_panic) \<Rightarrow> 'w \<Rightarrow> notification
     \<Rightarrow> ('w \<times> go_error option) may_panic" where
  "Notification_Write lib write w0 mi =
     (case nl_bencode lib mi of
        Inl e \<Rightarrow> Some (w0, Some (ErrMsg ''failed to generating bencode from Notification''))
      | Inr b \<Rightarrow> write b)"

record meta_info =
  mm_Announce :: string
  mm_Nodes :: "string list"
  mm_CreationDate :: int
  mm_CreatedBy :: string
  mm_Encoding :: string
  mm_InfoBytes :: bytes

definition torrentMetainfo :: "('priv, 'pub) notif_lib \<Rightarrow> notification \<Rightarrow> meta_info result" where
  "torrentMetainfo lib mi =
     (case nl_info_bytes lib (n_Info mi) of
        Inl e \<Rightarrow> Inl (ErrMsg ''failed encoding InfoBytes'')
      | Inr b \<Rightarrow> Inr \<lparr>mm_Announce = n_Announce mi, mm_Nodes = n_Nodes mi,
          mm_CreationDate = n_CreationDate mi, mm_CreatedBy = n_CreatedBy mi,
          mm_Encoding = n_Encoding mi, mm_InfoBytes = b\<rparr>)"

subsection \<open>Keys\<close>

text \<open>
  \<open>pem\<close> is \<open>pem.Decode\<close> (type and bytes of the first block), \<open>parse\<close> the parser of \<open>x509\<close>; a public
  key may be of another kind than RSA (\<open>None\<close>).
\<close>

definition LoadPrivateKey ::
  "(bytes \<Rightarrow> (string \<times> bytes) option) \<Rightarrow> (bytes \<Rightarrow> 'priv result) \<Rightarrow> bytes result \<Rightarrow> 'priv result" where
  "LoadPrivateKey pem parse file =
     (case file of
        Inl e \<Rightarrow> Inl (ErrMsg ''failed reading file'')
      | Inr b \<Rightarrow>
          (case pem b of
             None \<Rightarrow> Inl (ErrMsg ''failed decoding public key in file'')
           | Some (ty, block) \<Rightarrow>
               (if ty \<noteq> ''RSA PRIVATE KEY'' then Inl (ErrMsg ''failed decoding public key in file'')
                else parse block)))"

definition LoadPublicKey ::
  "(bytes \<Rightarrow> (string \<times> bytes) option) \<Rightarrow> (bytes \<Rightarrow> 'pub option result) \<Rightarrow> bytes result \<Rightarrow> 'pub result" where
  "LoadPublicKey pem parse file =
     (case file of
        Inl e \<Rightarrow> Inl (ErrMsg ''failed reading file'')
      | Inr b \<Rightarrow>
          (case pem b of
             None \<Rightarrow> Inl (ErrMsg ''failed decoding public key in file'')
           | Some (ty, block) \<Rightarrow>
               (if ty \<noteq> ''PUBLIC KEY'' then Inl (ErrMsg ''failed decoding public key in file'')
                else case parse block of
                  Inl e \<Rightarrow> Inl (ErrMsg ''failed parsing public key in file'')
                | Inr None \<Rightarrow> Inl (ErrMsg ''key type in file is not RSA'')
                | Inr (Some pub) \<Rightarrow> Inr pub)))"

subsection \<open>What signing and verifying do\<close>

text \<open>A key pair: the library verifies what it signed.\<close>

definition key_pair :: "('priv, 'pub) notif_lib \<Rightarrow> 'priv \<Rightarrow> 'pub \<Rightarrow> bool" where
  "key_pair lib key pub \<longleftrightarrow> (\<forall>h s. nl_sign lib key h = Inr s \<longrightarrow> nl_verify lib pub h s = None)"

text \<open>The part of a notification that is signed.\<close>

definition unsigned :: "notification \<Rightarrow> notification" where
  "unsigned mi = mi\<lparr>n_Signatures := None\<rparr>"

lemma Verify_fst: "fst (Notification_Verify lib pub mi) = mi"
  by (simp add: Notification_Verify_def Let_def split: option.split)

lemma verifies_iff:
  "verifies lib pub mi \<longleftrightarrow>
     (\<exists>s data. find_signature mi = Some s \<and> nl_json lib (unsigned mi) = Inr data \<and>
        nl_verify lib pub (nl_sha256 lib data) (sig_Signature s) = None)"
  by (auto simp: Notification_Verify_def unsigned_def Let_def split: option.splits sum.splits)

lemma Sign_unsigned: "unsigned (fst (Sign lib key mi)) = unsigned mi"
  by (simp add: Sign_def unsigned_def Let_def split: sum.split)

lemma Sign_ok:
  assumes "snd (Sign lib key mi) = None"
  obtains data sig where "nl_json lib (unsigned mi) = Inr data"
    "nl_sign lib key (nl_sha256 lib data) = Inr sig"
    "find_signature (fst (Sign lib key mi)) = Some \<lparr>sig_Certificate = [], sig_Info = [], sig_Signature = sig\<rparr>"
  using assms by (auto simp: Sign_def unsigned_def find_signature_def Let_def split: sum.splits)

lemma Sign_verifies:
  assumes "key_pair lib key pub" "snd (Sign lib key mi) = None"
  shows "verifies lib pub (fst (Sign lib key mi))"
proof -
  obtain data sig where "nl_json lib (unsigned mi) = Inr data"
    "nl_sign lib key (nl_sha256 lib data) = Inr sig"
    "find_signature (fst (Sign lib key mi)) = Some \<lparr>sig_Certificate = [], sig_Info = [], sig_Signature = sig\<rparr>"
    using Sign_ok [OF assms(2)] .
  then show ?thesis
    using assms(1) by (auto simp: verifies_iff Sign_unsigned key_pair_def)
qed

text \<open>A failed \<open>Sign\<close> leaves the notification without a signature.\<close>

lemma Sign_failed:
  "snd (Sign lib key mi) \<noteq> None \<Longrightarrow> n_Signatures (fst (Sign lib key mi)) = None"
  by (auto simp: Sign_def Let_def split: sum.splits)

lemma NewNotification_Inr:
  assumes "NewNotification lib now filename uuid ver tracker pl key = Inr n"
  shows "n_UUID n = uuid \<and> n_Version n = ver \<and> n_Announce n = tracker \<and> n_CreationDate n = now \<and>
    (\<exists>info. nl_build_info lib filename \<lparr>ti_Name = [], ti_PieceLength = pl, ti_rest = []\<rparr> = Inr info \<and>
       n_Info n = info\<lparr>ti_Name := uuid @ ''-v'' @ nat_dec (unat ver) @ ''-'' @ ti_Name info\<rparr>)"
  and "key_pair lib key pub \<Longrightarrow> verifies lib pub n"
proof -
  obtain info mi1 where build: "nl_build_info lib filename \<lparr>ti_Name = [], ti_PieceLength = pl, ti_rest = []\<rparr> = Inr info"
    and mi1: "mi1 = zero_notification\<lparr>n_UUID := uuid, n_Version := ver, n_Announce := tracker,
            n_CreatedBy := softwareName, n_Encoding := ''UTF-8'', n_CreationDate := now,
            n_Info := info\<lparr>ti_Name := uuid @ ''-v'' @ nat_dec (unat ver) @ ''-'' @ ti_Name info\<rparr>\<rparr>"
    and sign: "Sign lib key mi1 = (n, None)"
    using assms by (auto simp: NewNotification_def Let_def split: sum.splits prod.splits option.splits)
  have "unsigned n = unsigned mi1"
    using Sign_unsigned [of lib key mi1] by (simp add: sign)
  then have "\<exists>s. n = mi1\<lparr>n_Signatures := s\<rparr>"
    by (intro exI [of _ "n_Signatures n"]) (cases n; cases mi1; simp add: unsigned_def)
  then show "n_UUID n = uuid \<and> n_Version n = ver \<and> n_Announce n = tracker \<and> n_CreationDate n = now \<and>
    (\<exists>info. nl_build_info lib filename \<lparr>ti_Name = [], ti_PieceLength = pl, ti_rest = []\<rparr> = Inr info \<and>
       n_Info n = info\<lparr>ti_Name := uuid @ ''-v'' @ nat_dec (unat ver) @ ''-'' @ ti_Name info\<rparr>)"
    using build by (auto simp: mi1)
  show "key_pair lib key pub \<Longrightarrow> verifies lib pub n"
    using Sign_verifies [of lib key pub mi1] by (simp add: sign)
qed

end
