(* ===== verification/Config.thy ===== *)
theory Config
  imports Overlay Notification
begin

section \<open>Configurations (\<open>common.go\<close>, \<open>agent.go\<close>, \<open>server.go\<close>, \<open>main.go\<close>)\<close>

text \<open>
  The constants of \<open>common.go\<close>, the configuration records of the agent and the server, their
  defaults, and how the command line overrides them.
\<close>

definition DefaultTracker :: string where
  "DefaultTracker = ''http://fruit-testbed.org:6969/announce''"
definition DefaultPieceLength :: int where
  "DefaultPieceLength = 32 * 1024"
definition defaultServerAddr :: string where
  "defaultServerAddr = ''fruit-testbed.org''"
definition defaultServerPort :: int where
  "defaultServerPort = 3478"
definition defaultStunPassword :: string where
  "defaultStunPassword = ''P2PupdateIsR0ck''"
definition defaultUnixSocket :: string where
  "defaultUnixSocket = ''/var/run/p2pupdate.sock''"

text \<open>The zero value of \<open>time.Time\<close>: the first of January of year 1, in nanoseconds from 1970.\<close>

definition go_zero_time :: int where
  "go_zero_time = -62135596800 * second"

record key_source =
  key_Filename :: string
  key_Value :: string

record bittorrent_config =
  bt_Tracker :: string
  bt_Debug :: bool
  bt_PieceLength :: int
  bt_Port :: int
  bt_NoDHT :: bool
  bt_externalPort :: int

record config =
  cf_Interface :: string
  cf_Address :: string
  cf_Server :: string
  cf_DataDir :: string
  cf_LogFile :: string
  cf_NoUDP :: bool
  cf_ReadTCPInterval :: int
  cf_PublicKey :: key_source
  cf_Proxy :: bool
  cf_Overlay :: overlay_config
  cf_API_Address :: string
  cf_BitTorrent :: bittorrent_config

record server_config =
  sc_Address :: string
  sc_SessionAdvertiseTime :: int
  sc_Database :: string
  sc_SnapshotTime :: int
  sc_PublicKey :: key_source
  sc_StunPassword :: string

subsection \<open>Defaults\<close>

text \<open>\<open>user\<close> is the home directory that \<open>user.Current\<close> reports.\<close>

definition home_dir :: "string result \<Rightarrow> string" where
  "home_dir user = (case user of Inl _ \<Rightarrow> ''~/'' | Inr h \<Rightarrow> h)"

definition default_overlay_config :: overlay_config where
  "default_overlay_config =
     \<lparr>oc_Address = [], oc_Server = [], oc_StunPassword = defaultStunPassword,
      oc_BindingWait = 10, oc_BindingMaxErrors = 5, oc_ListeningWait = 30,
      oc_ListeningMaxErrors = 10, oc_ListeningBufferSize = 64 * 1024,
      oc_ErrorBackoff = 10, oc_ChannelLifespan = 60, oc_torrentPorts = (0, 0)\<rparr>"

definition DefaultConfig :: "string result \<Rightarrow> config" where
  "DefaultConfig user =
     \<lparr>cf_Interface = [], cf_Address = [],
      cf_Server = defaultServerAddr @ '':'' @ int_dec defaultServerPort,
      cf_DataDir = ''/var/lib/p2pupdate'', cf_LogFile = ''/var/log/p2pupdate.log'',
      cf_NoUDP = False, cf_ReadTCPInterval = 60,
      cf_PublicKey = \<lparr>key_Filename = home_dir user @ ''/.ssh/id_rsa.pub'', key_Value = []\<rparr>,
      cf_Proxy = False, cf_Overlay = default_overlay_config, cf_API_Address = defaultUnixSocket,
      cf_BitTorrent = \<lparr>bt_Tracker = DefaultTracker, bt_Debug = False,
        bt_PieceLength = DefaultPieceLength, bt_Port = 0, bt_NoDHT = False, bt_externalPort = 0\<rparr>\<rparr>"

text \<open>
  \<open>NewConfig\<close> decodes the file's JSON over the defaults; it returns the configuration it has also
  when it returns an error.
\<close>

definition NewConfig ::
  "string result \<Rightarrow> (bytes \<Rightarrow> config \<Rightarrow> config \<times> go_error option) \<Rightarrow> bytes result \<Rightarrow> config \<times> go_error option" where
  "NewConfig user decode file =
     (case file of
        Inl e \<Rightarrow> (DefaultConfig user, Some e)
      | Inr b \<Rightarrow> decode b (DefaultConfig user))"

definition DefaultServerConfig :: server_config where
  "DefaultServerConfig =
     \<lparr>sc_Address = [], sc_SessionAdvertiseTime = 60, sc_Database = ''server.db'',
      sc_SnapshotTime = 5, sc_PublicKey = \<lparr>key_Filename = ''key.pub'', key_Value = []\<rparr>,
      sc_StunPassword = defaultStunPassword\<rparr>"

subsection \<open>The server's command line\<close>

text \<open>The flags of the command \<open>server\<close>, with the values \<open>main\<close> declares for missing flags.\<close>

record server_flags =
  fl_address :: string
  fl_advertise_session :: int
  fl_database :: string
  fl_snapshot_time :: int
  fl_public_key :: string
  fl_stun_password :: string
  fl_log_file :: string

definition server_flag_defaults :: "string result \<Rightarrow> server_flags" where
  "server_flag_defaults user =
     \<lparr>fl_address = '':3478'', fl_advertise_session = 60,
      fl_database = ''/var/lib/p2pupdate-server.db'', fl_snapshot_time = 10,
      fl_public_key = home_dir user @ ''/.ssh/id_rsa.pub'', fl_stun_password = [],
      fl_log_file = ''/var/log/p2pupdate-server.log''\<rparr>"

definition serverCmd_config :: "server_flags \<Rightarrow> server_config" where
  "serverCmd_config fl =
     (let c0 = DefaultServerConfig;
          c1 = (if fl_address fl \<noteq> [] then c0\<lparr>sc_Address := fl_address fl\<rparr> else c0);
          c2 = (if fl_advertise_session fl > 0 then c1\<lparr>sc_SessionAdvertiseTime := fl_advertise_session fl\<rparr> else c1);
          c3 = (if fl_database fl \<noteq> [] then c2\<lparr>sc_Database := fl_database fl\<rparr> else c2);
          c4 = (if fl_snapshot_time fl > 0 then c3\<lparr>sc_SnapshotTime := fl_snapshot_time fl\<rparr> else c3);
          c5 = (if fl_public_key fl \<noteq> []
                then c4\<lparr>sc_PublicKey := (sc_PublicKey c4)\<lparr>key_Filename := fl_public_key fl\<rparr>\<rparr> else c4)
      in if fl_stun_password fl \<noteq> [] then c5\<lparr>sc_StunPassword := fl_stun_password fl\<rparr> else c5)"

text \<open>
  \<open>time.NewTicker\<close> panics on a period that is not positive; the merged configuration never has one.
\<close>

lemma serverCmd_config_periods:
  "0 < sc_SessionAdvertiseTime (serverCmd_config fl)" "0 < sc_SnapshotTime (serverCmd_config fl)"
  by (simp_all add: serverCmd_config_def Let_def DefaultServerConfig_def)

lemma serverCmd_config_fields:
  "sc_Address (serverCmd_config fl) = fl_address fl"
  "sc_Database (serverCmd_config fl) = (if fl_database fl = [] then ''server.db'' else fl_database fl)"
  "sc_StunPassword (serverCmd_config fl) =
     (if fl_stun_password fl = [] then defaultStunPassword else fl_stun_password fl)"
  "sc_PublicKey (serverCmd_config fl) =
     \<lparr>key_Filename = (if fl_public_key fl = [] then ''key.pub'' else fl_public_key fl), key_Value = []\<rparr>"
  by (simp_all add: serverCmd_config_def Let_def DefaultServerConfig_def)

text \<open>Started with no flag at all, the server and an agent with the default configuration share a password.\<close>

lemma default_passwords_agree:
  "sc_StunPassword (serverCmd_config (server_flag_defaults user)) =
   oc_StunPassword (cf_Overlay (DefaultConfig user'))"
  by (simp add: serverCmd_config_fields server_flag_defaults_def DefaultConfig_def default_overlay_config_def)

end
