(* ===== verification/Examples.thy ===== *)
theory Examples
  imports Overlay_Send Overlay_Limits Stun_Reference Config
begin

section \<open>Concrete states\<close>

text \<open>
  A small system the theorems about the overlay are applied to: a peer with the default
  configuration, a server, and replies built with the reference instance of the STUN library.
\<close>

definition ex_pid :: peer_id where
  "ex_pid = PID 1 2 3 4 5 6"
definition ex_pid2 :: peer_id where
  "ex_pid2 = PID 9 9 9 9 9 9"
definition ex_server :: udp_addr where
  "ex_server = \<lparr>IP = [192, 0, 2, 1], Port = 3478, Zone = []\<rparr>"
definition ex_local :: udp_addr where
  "ex_local = \<lparr>IP = [10, 0, 0, 7], Port = 40000, Zone = []\<rparr>"
definition ex_external :: udp_addr where
  "ex_external = \<lparr>IP = [198, 51, 100, 7], Port = 61000, Zone = []\<rparr>"
definition ex_sock :: udp_conn where
  "ex_sock = \<lparr>conn_fd = 3, conn_laddr = ex_local\<rparr>"
definition ex_cfg :: overlay_config where
  "ex_cfg = default_overlay_config"

definition ex_overlay :: overlay where
  "ex_overlay = projr (NewOverlayConn ex_cfg (Inr ex_pid) (Inr ex_server) (Inr ex_local))"

lemma ex_overlay_eq: "NewOverlayConn ex_cfg (Inr ex_pid) (Inr ex_server) (Inr ex_local) = Inr ex_overlay"
  by (simp add: ex_overlay_def NewOverlayConn_def)

lemma ex_overlay_sel [simp]:
  "ov_ID ex_overlay = ex_pid" "ov_Config ex_overlay = ex_cfg" "ov_automata ex_overlay = createAutomata"
  "ov_peers ex_overlay = Map.empty" "ov_Reopen ex_overlay" "ov_errCount ex_overlay = 0"
  "ov_peerDataChan ex_overlay = []" "ov_readDeadline ex_overlay = None"
  by (simp_all add: ex_overlay_def NewOverlayConn_def)

lemma ex_cfg_ok: "config_ok ex_cfg"
  by (simp add: config_ok_def ex_cfg_def default_overlay_config_def)

lemma ex_tables [simp]: "tables_ok ex_overlay"
  by (simp add: tables_ok_def)

lemma ex_init: "overlay_init ref_stun (Running ex_overlay {#TRaise EventOpen#})"
  unfolding overlay_init_def using ref_stun_laws ex_cfg_ok ex_overlay_eq by blast

lemma ex_reach: "reach (overlay_init ref_stun) (ostep ref_stun False) (Running ex_overlay {#TRaise EventOpen#})"
  by (rule reach.reach_init) (rule ex_init)

text \<open>With the reference library a request can always be built.\<close>

lemma ref_request:
  assumes "overlay_sock ov = Some c" "ip_wf (IP (conn_laddr c))"
  shows "\<exists>req. bindingRequestMessage ref_stun ov = Some (Inr req)"
proof -
  obtain a where a: "resolve_literal (conn_laddr c) = Inr a" "ip_wf (IP a)"
    using resolve_literal_wf [OF assms(2)] by blast
  then obtain b where "ref_norm (IP a) = Some b" using ref_norm_wf by blast
  with assms(1) a(1) show ?thesis
    by (simp add: bindingRequestMessage_def ref_stun_def TorrentPorts_AddTo_def PeerID_AddTo_def)
qed

definition ex_opened :: overlay where
  "ex_opened = opened_with ex_sock 0 StateBinding ex_overlay"

lemma ex_opened_sock: "overlay_sock (opened_with ex_sock 0 s ex_overlay) = Some ex_sock"
  by (simp add: opened_with_def overlay_sock_def)

lemma ex_request: "\<exists>req. bindingRequestMessage ref_stun (opened_with ex_sock 0 s ex_overlay) = Some (Inr req)"
  by (rule ref_request [OF ex_opened_sock]) (simp add: ex_sock_def ex_local_def ip_wf_def)

definition ex_reply :: ref_msg where
  "ex_reply = RefMsg BindingSuccess [] [(AttrUsername, pid_bytes ex_pid2),
     (AttrData, replicate (to_nat ([] :: table_entries)) 0)]
     (Some (IP ex_external, Port ex_external)) (Some defaultStunPassword) True"

lemma ex_good_reply: "good_reply ref_stun ex_overlay ex_reply (IP ex_external, Port ex_external) Map.empty"
  by (simp add: good_reply_def validateMessage_None_iff GetSessionTableFrom_def ref_stun_def ex_reply_def
      ref_get_def ref_get_xor_def ex_cfg_def default_overlay_config_def ex_external_def ip_wf_def)

text \<open>A reachable configuration in which the overlay is ready.\<close>

lemma ex_ready: "\<exists>ov. reach (overlay_init ref_stun) (ostep ref_stun False) (Running ov {#TCallback CbListening#}) \<and>
    Ready ov \<and> ov_state ov = StateListening"
proof -
  obtain req where req: "bindingRequestMessage ref_stun (opened_with ex_sock 0 StateBinding ex_overlay) = Some (Inr req)"
    using ex_request by blast
  obtain ov' where "(ostep ref_stun False)\<^sup>*\<^sup>* (Running ex_overlay {#TRaise EventOpen#}) (Running ov' {#TCallback CbListening#})"
    "Ready ov'" "ov_state ov' = StateListening"
    using steps_reconnect [OF ex_tables _ req ex_good_reply, of False "{#}"] by auto
  then show ?thesis using reach_steps [OF _ ex_reach] by blast
qed

text \<open>A listening overlay with a socket and a peer, for the operations that send.\<close>

definition ex_session :: session where
  "ex_session = [Some ex_external, Some ex_local, Some ex_external, Some ex_local]"

definition ex_listening :: overlay where
  "ex_listening = (opened_with ex_sock 0 StateListening ex_overlay)
     \<lparr>ov_externalAddr := Some ex_server, ov_peers := [ex_pid2 \<mapsto> ex_session]\<rparr>"

lemma ex_listening_sel [simp]:
  "ov_state ex_listening = StateListening" "ov_ID ex_listening = ex_pid" "ov_Config ex_listening = ex_cfg"
  "ov_peers ex_listening = [ex_pid2 \<mapsto> ex_session]" "ov_externalAddr ex_listening = Some ex_server"
  "overlay_sock ex_listening = Some ex_sock" "ov_stun ex_listening = Some 0" "ov_errCount ex_listening = 0"
  "ov_Reopen ex_listening" "tables_ok ex_listening" "ov_peerDataChan ex_listening = []"
  "ov_readDeadline ex_listening = None"
  by (simp_all add: ex_listening_def opened_with_def overlay_sock_def tables_ok_def)

lemma ex_pids: "ex_pid2 \<noteq> ex_pid"
  by (simp add: ex_pid_def ex_pid2_def)

lemma ex_sessions_ok: "sessions_ok ex_listening"
  by (simp add: sessions_ok_def usable_session_def ex_session_def)

lemma ex_listening_resources: "resources_ok (ov_state ex_listening) ex_listening"
  by (simp add: resources_ok_def active_states_def online_states_def conn_live_def)

lemma ex_listening_request: "\<exists>req. bindingRequestMessage ref_stun ex_listening = Some (Inr req)"
  by (rule ref_request [where c = ex_sock]) (simp_all add: ex_sock_def ex_local_def ip_wf_def)

end
