(* ===== verification/Overlay_Stack.thy ===== *)
theory Overlay_Stack
  imports Overlay_Send
begin

section \<open>The depth of the call stack\<close>

text \<open>
  \<open>Automata.Event\<close> calls the callback of the new state before it returns, and the callback ends by
  calling \<open>Event\<close>: the calls nest.  \<open>nested\<close> is that recursion with the number of frames the stack
  can still hold; \<open>None\<close> means that they have run out (or a panic).  \<open>envs d\<close> is what the environment
  answers to the callback that runs with \<open>d\<close> frames left.
\<close>

fun nested :: "'m stun_lib \<Rightarrow> (nat \<Rightarrow> cb_env) \<Rightarrow> nat \<Rightarrow> go_event \<Rightarrow> overlay \<Rightarrow> overlay option" where
  "nested lib envs 0 e ov = None"
| "nested lib envs (Suc d) e ov =
     (case automata_event (ov_automata ov) e of
        Inl err \<Rightarrow> Some ov
      | Inr (a', None) \<Rightarrow> Some (ov\<lparr>ov_automata := a'\<rparr>)
      | Inr (a', Some cb) \<Rightarrow>
          (case run_callback lib (envs d) cb (ov\<lparr>ov_automata := a'\<rparr>) of
             None \<Rightarrow> None
           | Some (ov', acts, None) \<Rightarrow> Some ov'
           | Some (ov', acts, Some e') \<Rightarrow> nested lib envs d e' ov'))"

lemma nested_step:
  assumes "tables_ok ov" "overlay_next (ov_state ov) e = Some s"
    and "run_callback lib (envs d) (overlay_callback s) (ov\<lparr>ov_automata := (ov_automata ov)\<lparr>current := s\<rparr>\<rparr>)
      = Some (ov', acts, Some e')"
  shows "nested lib envs (Suc d) e ov = nested lib envs d e' ov'"
proof -
  have "automata_event (ov_automata ov) e = Inr ((ov_automata ov)\<lparr>current := s\<rparr>, Some (overlay_callback s))"
    using assms(1,2) by (simp add: event_step)
  with assms(3) show ?thesis by simp
qed

text \<open>
  As long as no socket can be opened, the call of \<open>Event\<close> in the constructor does not return: opening
  fails, the overlay closes, and opens again, three frames deeper.
\<close>

definition no_socket :: "go_error \<Rightarrow> cb_env" where
  "no_socket e = \<lparr>env_now = 0, env_listen = Inl e, env_client = Inl e, env_set_deadline = None,
     env_start = None, env_read = Inl e\<rparr>"

lemma nested_no_socket:
  assumes "tables_ok ov" "ov_Reopen ov" "ov_state ov = StateClosed"
  shows "nested lib (\<lambda>_. no_socket e) d EventOpen ov = None"
  using assms
proof (induction d arbitrary: ov rule: less_induct)
  case (less d)
  show ?case
  proof (cases d)
    case (Suc d1)
    let ?ov1 = "ov\<lparr>ov_automata := (ov_automata ov)\<lparr>current := StateOpening\<rparr>, ov_conn := None\<rparr>"
    let ?ov2 = "?ov1\<lparr>ov_automata := (ov_automata ov)\<lparr>current := StateClosed\<rparr>, ov_stun := None, ov_errCount := 0\<rparr>"
    have open_step: "nested lib (\<lambda>_. no_socket e) (Suc d1) EventOpen ov = nested lib (\<lambda>_. no_socket e) d1 EventError ?ov1"
      by (rule nested_step [where s = StateOpening])
        (use less.prems in \<open>simp_all add: cb_opening_def newOverlayUDPConn_def no_socket_def\<close>)
    show ?thesis
    proof (cases d1)
      case (Suc d2)
      have "nested lib (\<lambda>_. no_socket e) (Suc d2) EventError ?ov1 = nested lib (\<lambda>_. no_socket e) d2 EventOpen ?ov2"
        by (rule nested_step [where s = StateClosed])
          (use less.prems in \<open>simp_all add: tables_ok_def cb_closed_def Let_def\<close>)
      moreover have "nested lib (\<lambda>_. no_socket e) d2 EventOpen ?ov2 = None"
        using less.prems Suc \<open>d = Suc d1\<close> by (intro less.IH) (simp_all add: tables_ok_def)
      ultimately show ?thesis using open_step Suc \<open>d = Suc d1\<close> by simp
    qed (use open_step \<open>d = Suc d1\<close> in simp)
  qed simp
qed

text \<open>
  A listening overlay that keeps receiving messages never returns either: each message costs two
  frames.  Here the messages are the keep-alive packets that every peer sends.
\<close>

definition harmless :: "'m stun_lib \<Rightarrow> overlay \<Rightarrow> bytes \<Rightarrow> bool" where
  "harmless lib ov datagram \<longleftrightarrow>
     (\<exists>m pid. lib_is_message lib datagram \<and> lib_decode lib datagram = Inr m \<and>
       lib_type lib m = stunChannelBindIndication \<and> PeerID_GetFrom lib m = Inr pid \<and>
       validateMessage lib m None (oc_StunPassword (ov_Config ov)) = None) \<and>
     length datagram \<le> nat (oc_ListeningBufferSize (ov_Config ov))"

lemma nested_messages:
  assumes "tables_ok ov" "ov_state ov = StateProcessingMessage" "overlay_sock ov \<noteq> None"
    and "config_ok (ov_Config ov)" "harmless lib ov b"
  shows "nested lib (\<lambda>_. receives b from_addr) d EventSuccess ov = None"
  using assms
proof (induction d arbitrary: ov rule: less_induct)
  case (less d)
  let ?env = "receives b from_addr"
  show ?case
  proof (cases d)
    case (Suc d1)
    let ?ov1 = "ov\<lparr>ov_automata := (ov_automata ov)\<lparr>current := StateListening\<rparr>,
      ov_channelExpired := oc_ChannelLifespan (ov_Config ov) * second, ov_msg := b, ov_senderAddr := Some from_addr\<rparr>"
    let ?ov2 = "?ov1\<lparr>ov_automata := (ov_automata ov)\<lparr>current := StateProcessingMessage\<rparr>\<rparr>"
    have fits: "take (nat (oc_ListeningBufferSize (ov_Config ov))) b = b"
      using less.prems(5) by (simp add: harmless_def)
    have listen: "nested lib (\<lambda>_. ?env) (Suc d1) EventSuccess ov = nested lib (\<lambda>_. ?env) d1 EventSuccess ?ov1"
      by (rule nested_step [where s = StateListening and acts = "[]"])
        (use less.prems fits in \<open>auto simp: cb_listening_def receives_def config_ok_def\<close>)
    show ?thesis
    proof (cases d1)
      case (Suc d2)
      obtain m pid where "lib_is_message lib b" "lib_decode lib b = Inr m"
        "lib_type lib m = stunChannelBindIndication" "PeerID_GetFrom lib m = Inr pid"
        "validateMessage lib m None (oc_StunPassword (ov_Config ov)) = None"
        using less.prems(5) by (auto simp: harmless_def)
      then have "cb_processingMessage lib ?ov2 = Some (?ov2, [], Some EventSuccess)"
        by (simp add: cb_processingMessage_def parseHeader_def dispatch_message_def
            stunChannelBindIndication_def Let_def)
      then have "nested lib (\<lambda>_. ?env) (Suc d2) EventSuccess ?ov1 = nested lib (\<lambda>_. ?env) d2 EventSuccess ?ov2"
        by (intro nested_step [where s = StateProcessingMessage and acts = "[]"])
          (use less.prems(1) in \<open>simp_all add: tables_ok_def\<close>)
      moreover have "nested lib (\<lambda>_. ?env) d2 EventSuccess ?ov2 = None"
        using less.prems Suc \<open>d = Suc d1\<close>
        by (intro less.IH) (auto simp: tables_ok_def harmless_def overlay_sock_def)
      ultimately show ?thesis using listen Suc \<open>d = Suc d1\<close> by simp
    qed (use listen \<open>d = Suc d1\<close> in simp)
  qed simp
qed

end
