(* ===== verification/Props_Overlay.thy ===== *)
theory Props_Overlay
  imports Examples Overlay_Stack
begin

section \<open>Properties of the overlay connection\<close>

text \<open>
  The claims about \<open>overlaysock.go\<close> and \<open>automata.go\<close>, each with a concrete instance where it has
  hypotheses.
\<close>







text \<open>C16. The automaton the overlay creates is the state diagram of the documentation (\<open>overlay_next\<close>): in
  each state an event either moves to the documented destination and runs its callback, or is
  rejected and changes nothing.\<close>

theorem automaton_is_diagram:
  "automata_event (createAutomata\<lparr>current := s\<rparr>) e =
    (case overlay_next s e of
       Some d \<Rightarrow> Inr (createAutomata\<lparr>current := d\<rparr>, Some (overlay_callback d))
     | None \<Rightarrow> Inl (ErrMsg (''state '' @ State_String (state_code s) @
         '' does not have transition for event '' @ Event_String (event_code e))))"
  by (simp add: automata_event_def overlay_lookup Let_def split: option.split)

text \<open>C18. A closed overlay comes back: whenever a socket and a client can be opened, the request can be built
  and the server sends a reply the handler accepts, some run of the overlay leads from the raised
  \<open>eventOpen\<close> to the listening state, ready, with the server's session table merged into its own.\<close>

theorem overlay_reconnects:
  assumes "tables_ok ov" "ov_state ov = StateClosed"
    and "bindingRequestMessage lib (opened_with sock client StateBinding ov) = Some (Inr req)"
    and "good_reply lib ov m xa st"
  shows "\<exists>ov'. (ostep lib cl)\<^sup>*\<^sup>* (Running ov (add_mset (TRaise EventOpen) T))
      (Running ov' (add_mset (TCallback CbListening) T)) \<and>
    Ready ov' \<and> ov_peers ov' = ov_peers ov ++ st \<and> overlay_sock ov' \<noteq> None \<and> ov_stun ov' \<noteq> None"
  using steps_reconnect [OF assms, of cl T] by blast

lemma overlay_reconnects_witness:
  "\<exists>ov'. (ostep ref_stun False)\<^sup>*\<^sup>* (Running ex_overlay {#TRaise EventOpen#}) (Running ov' {#TCallback CbListening#}) \<and>
    Ready ov'"
proof -
  obtain req where req: "bindingRequestMessage ref_stun (opened_with ex_sock 0 StateBinding ex_overlay) = Some (Inr req)"
    using ex_request by blast
  show ?thesis
    using overlay_reconnects [OF ex_tables _ req ex_good_reply, of False "{#}"] by auto
qed

text \<open>Errors of the listening state count against the next binding: starting with a zero counter and a
  binding limit not above the listening limit (the defaults are 5 and 10), there is a run in which
  the overlay only meets listening errors, then an expired channel, and one single failed binding
  reply closes the connection.\<close>

lemma listening_errors_spend_binding_limit:
  assumes "tables_ok ov" "ov_state ov = StateListening" "ov_Reopen ov"
    and "overlay_sock ov \<noteq> None" "ov_stun ov \<noteq> None" "config_ok (ov_Config ov)" "ov_errCount ov = 0"
    and "0 < oc_BindingMaxErrors (ov_Config ov)"
    and "oc_BindingMaxErrors (ov_Config ov) \<le> oc_ListeningMaxErrors (ov_Config ov)"
    and "bindingRequestMessage lib ov = Some (Inr req)"
  shows "\<exists>ov1 ov2. (ostep lib cl)\<^sup>*\<^sup>* (Running ov (add_mset (TCallback CbListening) T))
      (Running ov1 (add_mset TBindWait T)) \<and> ov_state ov1 = StateBinding \<and>
    (ostep lib cl)\<^sup>*\<^sup>* (Running ov1 (add_mset TBindWait T)) (Running ov2 (add_mset (TRaise EventOpen) T)) \<and>
    ov_state ov2 = StateClosed \<and> ov_conn ov2 = None"
  by (rule listening_errors_close_binding [OF assms])

lemma listening_errors_spend_binding_limit_example:
  "\<exists>ov2. (ostep ref_stun False)\<^sup>*\<^sup>* (Running ex_listening {#TCallback CbListening#}) (Running ov2 {#TRaise EventOpen#}) \<and>
    ov_state ov2 = StateClosed \<and> ov_conn ov2 = None"
proof -
  obtain req where req: "bindingRequestMessage ref_stun ex_listening = Some (Inr req)"
    using ex_listening_request by blast
  have "0 < oc_BindingMaxErrors ex_cfg" "oc_BindingMaxErrors ex_cfg \<le> oc_ListeningMaxErrors ex_cfg"
    by (simp_all add: ex_cfg_def default_overlay_config_def)
  then show ?thesis
    using listening_errors_spend_binding_limit [of ex_listening ref_stun req False "{#}"] req ex_cfg_ok
    by (auto intro: rtranclp_trans)
qed

text \<open>C38. \<open>Close\<close> called from another goroutine while the overlay listens can crash the process: it takes the
  connection away before the listening callback uses it.\<close>

theorem close_can_crash:
  assumes "tables_ok ov" "ov_state ov = StateListening"
  shows "(ostep lib True)\<^sup>*\<^sup>* (Running ov {#TCallback CbListening#}) Crashed"
  by (rule close_steals_connection [OF assms])

lemma close_can_crash_witness: "(ostep ref_stun True)\<^sup>*\<^sup>* (Running ex_listening {#TCallback CbListening#}) Crashed"
  by (rule close_can_crash) simp_all

text \<open>C33. \<open>multicastMessage\<close> writes the message to the known peers other than itself in the order of the range,
  each at its external address or, behind the same NAT, at its internal one, and stops at the first
  peer it fails to write to; it reports success all the same.\<close>

theorem multicast_stops_at_failure:
  assumes "sessions_ok ov" "ov_externalAddr ov \<noteq> None" "overlay_sock ov \<noteq> None"
    and "dataMessage lib ov data = Inr m"
  shows "multicastMessage lib write ov ids data =
    Some (map (\<lambda>t. WriteTo (lib_raw lib m) (the t))
            (takeWhile (\<lambda>t. send_to write t = None) (recipients ov ids)), Inr (length data))"
  using multicast_loop_prefix [OF assms(1-3)] assms(4) by (simp add: multicastMessage_def)

lemma ex_data: "\<exists>m. dataMessage ref_stun ex_listening data = Inr m"
  by (simp add: dataMessage_def ref_stun_def PeerMessage_AddTo_def PeerID_AddTo_def)

lemma ex_recipients: "recipients ex_listening [ex_pid, ex_pid2] = [Some ex_external]"
  using ex_pids
  by (simp add: recipients_def ex_session_def peer_target_def ex_external_def ex_server_def ip_Equal_def)

lemma multicast_stops_at_failure_witness:
  "\<exists>raw. multicastMessage ref_stun (\<lambda>_. None) ex_listening [ex_pid, ex_pid2] [1, 2, 3] =
    Some ([WriteTo raw ex_external], Inr 3)"
proof -
  obtain m where m: "dataMessage ref_stun ex_listening [1, 2, 3] = Inr m" using ex_data by blast
  show ?thesis
    using multicast_stops_at_failure [OF ex_sessions_ok _ _ m, of "\<lambda>_. None" "[ex_pid, ex_pid2]"]
    by (simp add: ex_recipients send_to_def)
qed

text \<open>\<open>sendKeepAlive\<close> in a ready overlay writes to the server and to every known peer other than itself it
  can write to: a failure for one peer does not keep the others from being written to.\<close>

lemma keepalive_reaches_all:
  assumes "sessions_ok ov" "ov_externalAddr ov \<noteq> None" "ov_conn ov \<noteq> None" "Ready ov"
    and "bindingRequestMessage lib ov = Some (Inr req)"
  shows "sendKeepAlive lib write msg ov ids =
    Some ((if write (ov_rendezvousAddr ov) = None then [WriteTo (lib_raw lib req) (ov_rendezvousAddr ov)] else []) @
      map (\<lambda>t. WriteTo (lib_raw lib msg) (the t)) (filter (\<lambda>t. send_to write t = None) (recipients ov ids)))"
  using assms(3-5) keepalive_loop_all [OF assms(1,2)]
  by (auto simp: sendKeepAlive_def Ready_def Current_def Let_def)

lemma keepalive_reaches_all_example:
  "\<exists>as. sendKeepAlive ref_stun (\<lambda>_. None) ex_reply ex_listening [ex_pid, ex_pid2] = Some as \<and> length as = 2"
proof -
  obtain req where req: "bindingRequestMessage ref_stun ex_listening = Some (Inr req)"
    using ex_listening_request by blast
  have "ov_conn ex_listening \<noteq> None" by (simp add: ex_listening_def opened_with_def)
  then show ?thesis
    using keepalive_reaches_all [OF ex_sessions_ok _ _ _ req, of "\<lambda>_. None" ex_reply "[ex_pid, ex_pid2]"]
    by (simp add: ex_recipients send_to_def Ready_def online_states_def)
qed

text \<open>C39. A session table from the network can break every later send: one protected binding indication that
  lists another peer with an empty session is merged as it is, and from then on a \<open>Write\<close> whose range
  meets that peer first panics.\<close>

theorem poisoned_table_panics:
  assumes "lib_is_message lib (ov_msg ov)" "lib_decode lib (ov_msg ov) = Inr m"
    and "lib_type lib m = stunBindingIndication" "PeerID_GetFrom lib m = Inr sender"
    and "validateMessage lib m None (oc_StunPassword (ov_Config ov)) = None"
    and "GetSessionTableFrom lib m = Inr [victim \<mapsto> []]" "victim \<noteq> ov_ID ov"
    and "dataMessage lib ov b = Inr d" "length b \<le> stunMaxPacketDataSize"
  shows "\<exists>ov'. cb_processingMessage lib ov = Some (ov', [], Some EventSuccess) \<and>
    overlay_Write lib write (ov'\<lparr>ov_automata := (ov_automata ov)\<lparr>current := StateListening\<rparr>\<rparr>) (victim # ids) b = None"
proof -
  let ?ov' = "ov\<lparr>ov_peers := ov_peers ov ++ [victim \<mapsto> []]\<rparr>"
  let ?l = "?ov'\<lparr>ov_automata := (ov_automata ov)\<lparr>current := StateListening\<rparr>\<rparr>"
  have "cb_processingMessage lib ov = Some (?ov', [], Some EventSuccess)"
    using assms(1-6) by (simp add: cb_processingMessage_def parseHeader_def dispatch_message_def
        stunBindingIndication_def updateSessionTable_def Let_def)
  moreover have "dataMessage lib ?l b = Inr d"
    using assms(8) by (simp add: dataMessage_def)
  then have "multicastMessage lib write ?l (victim # ids) b = None"
    using assms(7) by (simp add: multicastMessage_def peer_target_def)
  then have "overlay_Write lib write ?l (victim # ids) b = None"
    using assms(9) by (simp add: overlay_Write_def Current_def)
  ultimately show ?thesis by blast
qed

definition ex_poison :: ref_msg where
  "ex_poison = RefMsg stunBindingIndication [] [(AttrUsername, pid_bytes ex_pid2),
     (AttrData, replicate (to_nat ([(ex_pid2, [])] :: table_entries)) 0)] None (Some defaultStunPassword) True"

lemma poisoned_table_panics_witness:
  "\<exists>ov' b. cb_processingMessage ref_stun (ex_listening\<lparr>ov_msg := lib_raw ref_stun ex_poison\<rparr>) =
     Some (ov', [], Some EventSuccess) \<and>
   overlay_Write ref_stun (\<lambda>_. None) (ov'\<lparr>ov_automata := (ov_automata ex_listening)\<lparr>current := StateListening\<rparr>\<rparr>)
     [ex_pid2] b = None"
proof -
  let ?ov = "ex_listening\<lparr>ov_msg := lib_raw ref_stun ex_poison\<rparr>"
  obtain d where d: "dataMessage ref_stun ?ov [] = Inr d"
    by (simp add: dataMessage_def ref_stun_def PeerMessage_AddTo_def PeerID_AddTo_def)
  have pid: "PeerID_GetFrom ref_stun ex_poison = Inr ex_pid2"
    by (simp add: PeerID_GetFrom_Inr ref_stun_def ex_poison_def ref_get_def)
  have valid: "validateMessage ref_stun ex_poison None (oc_StunPassword ex_cfg) = None"
    by (simp add: validateMessage_None_iff ref_stun_def ex_poison_def ref_get_def ex_cfg_def default_overlay_config_def)
  have table: "GetSessionTableFrom ref_stun ex_poison = Inr [ex_pid2 \<mapsto> []]"
    by (simp add: GetSessionTableFrom_def ref_stun_def ex_poison_def ref_get_def)
  have "\<exists>ov'. cb_processingMessage ref_stun ?ov = Some (ov', [], Some EventSuccess) \<and>
     overlay_Write ref_stun (\<lambda>_. None) (ov'\<lparr>ov_automata := (ov_automata ?ov)\<lparr>current := StateListening\<rparr>\<rparr>) (ex_pid2 # []) [] = None"
    by (rule poisoned_table_panics [OF _ _ _ pid _ table _ d])
      (use wire_lawsD(1,2) [OF ref_stun_laws, of ex_poison] valid ex_pids in
        \<open>simp_all add: ref_stun_def ex_poison_def stunMaxPacketDataSize_def\<close>)
  then show ?thesis by auto
qed

text \<open>The channel between the overlay and its readers is a queue of sixteen: whatever is accepted is received
  once, in the order it arrived, after which a reader without a deadline waits; what does not fit is refused
  with \<open>errBufferFull\<close>.\<close>

lemma channel_fifo:
  "(length (ov_peerDataChan ov) + length msgs \<le> peerDataChan_cap \<longrightarrow>
     (\<exists>ov1 ov2. send_all chan_send msgs ov = Inr ov1 \<and>
       recv_n (chan_recv False) (length (ov_peerDataChan ov) + length msgs) ov1 = Some (ov_peerDataChan ov @ msgs, ov2) \<and>
       chan_recv False ov2 = Blocks)) \<and>
   (length (ov_peerDataChan ov) \<le> peerDataChan_cap \<and> peerDataChan_cap < length (ov_peerDataChan ov) + length msgs \<longrightarrow>
     send_all chan_send msgs ov = Inl ErrBufferFull)"
  using chan.fifo chan.send_all_full by blast

lemma channel_fifo_example:
  "\<exists>ov1 ov2. send_all chan_send [[1], [2]] ex_listening = Inr ov1 \<and>
     recv_n (chan_recv False) 2 ov1 = Some ([[1], [2]], ov2) \<and> chan_recv False ov2 = Blocks"
  using channel_fifo [of ex_listening "[[1], [2]]"]
  by (simp add: peerDataChan_cap_def numeral_2_eq_2 del: send_all.simps recv_n.simps)

text \<open>What one overlay sends another one receives: a data message built by the sender, read off the wire by
  a receiver with the same password, puts exactly the sender's bytes at the end of the receiver's
  channel, or is an error when the channel is full.\<close>

lemma data_message_delivered:
  assumes "stun_laws lib" "dataMessage lib sender data = Inr m"
    and "oc_StunPassword (ov_Config receiver) = oc_StunPassword (ov_Config sender)"
    and "ov_msg receiver = lib_raw lib m"
  shows "cb_processingMessage lib receiver =
    (if length (ov_peerDataChan receiver) < peerDataChan_cap
     then Some (receiver\<lparr>ov_peerDataChan := ov_peerDataChan receiver @ [data]\<rparr>, [], Some EventSuccess)
     else Some (receiver, [], Some EventError))"
  using data_received [OF assms] by (simp add: chan_send_def)

lemma data_message_delivered_example:
  "\<exists>m. cb_processingMessage ref_stun (ex_listening\<lparr>ov_msg := lib_raw ref_stun m\<rparr>) =
     Some (ex_listening\<lparr>ov_msg := lib_raw ref_stun m, ov_peerDataChan := [[7, 8]]\<rparr>, [], Some EventSuccess)"
proof -
  obtain m where m: "dataMessage ref_stun ex_overlay [7, 8] = Inr m"
    by (simp add: dataMessage_def ref_stun_def PeerMessage_AddTo_def PeerID_AddTo_def)
  show ?thesis
    using data_message_delivered [OF ref_stun_laws m, of "ex_listening\<lparr>ov_msg := lib_raw ref_stun m\<rparr>"]
    by (intro exI [of _ m]) (simp add: peerDataChan_cap_def)
qed





text \<open>The constructor does not return while no socket can be opened (the address is in use, say): opening
  fails, closes and opens again inside the same call of \<open>Event\<close>, which needs more than any number of
  stack frames.\<close>

lemma constructor_never_returns:
  assumes "NewOverlayConn cfg pid server local = Inr ov"
  shows "nested lib (\<lambda>_. no_socket e) d EventOpen ov = None"
  using NewOverlayConn_Inr [OF assms] by (intro nested_no_socket) (simp_all add: tables_ok_def)

lemma constructor_never_returns_example: "nested ref_stun (\<lambda>_. no_socket (ErrSys 98)) 500 EventOpen ex_overlay = None"
  by (rule constructor_never_returns [OF ex_overlay_eq])

end
