(* ===== verification/Props_Peer.thy ===== *)
theory Props_Peer
  imports Examples
begin

section \<open>Properties of identities, sessions and attributes\<close>

text \<open>
  The claims about \<open>common.go\<close>: the identity of the local machine, the comparison and the JSON text of
  sessions, and the attributes that carry them in STUN messages.
\<close>

lemma tab_serial: "take 7 (''Serial'' @ [CHR 0x09] @ r) = ''Serial'' @ [CHR 0x09]"
  by simp

lemma scan_serial_found:
  assumes "\<forall>l \<in> set pre. take 7 l \<noteq> ''Serial'' @ [CHR 0x09]"
    and "10 < length line" "take 7 line = ''Serial'' @ [CHR 0x09]"
  shows "scan_serial (pre @ line # post) e = serial_of_line line"
  using assms by (induction pre) auto

text \<open>On a machine whose \<open>/proc/cpuinfo\<close> has a line \<open>Serial\<close> with a hexadecimal number of whole bytes, the
  peer's identity is that number, right-aligned in six bytes: the last six bytes, or zeros in front
  of fewer, whatever zeros the text itself starts with.\<close>

lemma identity_from_serial:
  assumes "\<forall>l \<in> set pre. take 7 l \<noteq> ''Serial'' @ [CHR 0x09]"
    and "CHR '' '' \<notin> set key" "3 \<le> length key"
  shows "\<exists>pid. pid_bytes pid = right_align 6 bs \<and>
    LocalPeerID (Inr (pre @ (''Serial'' @ CHR 0x09 # key @ CHR '' '' # hex_encode bs) # post, e)) ifaces = Some (Inr pid)"
proof -
  let ?line = "''Serial'' @ CHR 0x09 # key @ CHR '' '' # hex_encode bs"
  have "length (right_align 6 bs) = 6" by (simp add: right_align_def)
  then obtain pid where pid: "pid_of_bytes (right_align 6 bs) = Some pid"
    using pid_of_bytes_length by blast
  have "serial_of_line ((''Serial'' @ CHR 0x09 # key) @ CHR '' '' # hex_encode bs) =
      map_option Inr (pid_of_bytes (right_align 6 bs))"
    by (rule serial_of_line_hex) (use assms(2) in simp)
  then have "serial_of_line ?line = Some (Inr pid)" by (simp add: pid)
  moreover have "scan_serial (pre @ ?line # post) e = serial_of_line ?line"
    by (rule scan_serial_found [OF assms(1)]) (use assms(3) in simp_all)
  ultimately have "LocalPeerID (Inr (pre @ ?line # post, e)) ifaces = Some (Inr pid)"
    by (simp add: LocalPeerID_def RaspberryPiSerial_def)
  moreover have "pid_bytes pid = right_align 6 bs"
    using pid_of_bytes_Some_bytes [OF pid] by simp
  ultimately show ?thesis by blast
qed

lemma identity_from_serial_example:
  "LocalPeerID (Inr ([''processor''] @ (''Serial'' @ CHR 0x09 # ''tt:'' @ CHR '' '' # hex_encode [0, 0, 1, 2]) # [], None))
     (Inr []) = Some (Inr (PID 0 0 0 0 1 2))"
proof -
  have pid: "right_align 6 [0, 0, 1, 2] = pid_bytes (PID 0 0 0 0 1 2)"
    by (simp add: right_align_def numeral_eq_Suc)
  have "\<forall>l \<in> set [''processor'']. take 7 l \<noteq> ''Serial'' @ [CHR 0x09]" "CHR '' '' \<notin> set ''tt:''" "3 \<le> length ''tt:''"
    by simp_all
  from identity_from_serial [OF this, of "[0, 0, 1, 2]" "[]" None "Inr []"] show ?thesis
    unfolding pid pid_bytes_inj by blast
qed

text \<open>Without a serial number the first active interface with a hardware address decides: six bytes become
  the identity, fewer are an error, and more (an InfiniBand or FireWire address) crash the process,
  because the copy runs past the array.\<close>

lemma identity_from_mac:
  assumes "RaspberryPiSerial cpuinfo = Some (Inl e)"
    and "\<forall>i \<in> set pre. \<not> if_Up i \<or> if_HardwareAddr i = []" "if_Up i" "if_HardwareAddr i \<noteq> []"
  shows "LocalPeerID cpuinfo (Inr (pre @ i # post)) =
    (if length (if_HardwareAddr i) = 6 then map_option Inr (pid_of_bytes (if_HardwareAddr i))
     else if length (if_HardwareAddr i) < 6
     then Some (Inl (ErrMsg ''CPU serial and active ethernet are not available''))
     else None)"
proof -
  have "first_mac (pre @ i # post) = Inr (if_HardwareAddr i)"
    using assms(2-4) by (induction pre) auto
  then show ?thesis
    by (intro LocalPeerID_mac [OF assms(1)]) (simp add: ActiveMacAddress_def)
qed

definition ex_iface :: "bytes \<Rightarrow> iface" where
  "ex_iface mac = \<lparr>if_Name = ''ib0'', if_Up = True, if_HardwareAddr = mac, if_Addrs = Inr []\<rparr>"

lemma identity_from_mac_example:
  "LocalPeerID (Inl (ErrSys 2)) (Inr ([ex_iface []] @ ex_iface (replicate 20 1) # [])) = None"
  by (subst identity_from_mac [where e = "ErrMsg ''cannot open /proc/cpuinfo''"])
    (simp_all add: RaspberryPiSerial_def ex_iface_def)

text \<open>C25. \<open>Session.Equal\<close> does not say that two sessions are the same: for sessions without nil addresses it says
  that they have the same length and differ at every position; a non-empty session is never equal to
  itself.\<close>

theorem session_equal_inverted:
  "Session_Equal (map Some as) (map Some bs) = Some (list_all2 (\<lambda>a b. \<not> same_endpoint a b) as bs) \<and>
   (as \<noteq> [] \<longrightarrow> Session_Equal (map Some as) (map Some as) = Some False)"
  using Session_Equal_differ Session_Equal_refl_False by blast

lemma session_equal_inverted_witness:
  "Session_Equal [Some ex_local] [Some ex_external] = Some True \<and> Session_Equal [Some ex_local] [Some ex_local] = Some False"
  using session_equal_inverted [of "[ex_local]" "[ex_external]"]
  by (simp add: same_endpoint_def ex_local_def ex_external_def)

text \<open>The hand-written JSON text of a session table is JSON: a reader of objects of arrays of strings gets
  back every peer with the texts of its addresses, in the order of the range, as long as no zone of an
  address needs an escape.\<close>

lemma session_table_json:
  assumes "\<forall>pid s. st pid = Some s \<longrightarrow> session_safe s"
  shows "read_table (SessionTable_JSON pids st) = Some (table_texts pids st)"
  by (rule read_table_JSON) (use assms in blast)

lemma session_table_json_example:
  "read_table (SessionTable_JSON [ex_pid, ex_pid2] (ov_peers ex_listening)) =
    Some [(PeerID_String ex_pid, []), (PeerID_String ex_pid2, map udp_String ex_session)]"
proof -
  have "\<forall>pid s. ov_peers ex_listening pid = Some s \<longrightarrow> session_safe s"
    by (auto simp: session_safe_def json_safe_def ex_session_def ex_external_def ex_local_def)
  from session_table_json [OF this, of "[ex_pid, ex_pid2]"] show ?thesis
    using ex_pids by (simp add: table_texts_def fun_upd_def)
qed

text \<open>C23. The attributes read back what was written on a message that had none of the kind: the identity and the
  session table as they were, the two ports modulo \<open>2 ^ 32\<close>, so a negative port comes back as another
  number.\<close>

theorem attributes_read_back:
  assumes laws: "stun_laws lib" and empty: "\<forall>t. is_err (lib_get lib m t)"
  shows "(PeerID_AddTo lib pid m = Inr m1 \<longrightarrow> PeerID_GetFrom lib m1 = Inr pid) \<and>
    (TorrentPorts_AddTo lib tp m = Inr m2 \<longrightarrow>
       TorrentPorts_GetFrom lib m2 = Some (Inr (fst tp mod 2 ^ 32, snd tp mod 2 ^ 32))) \<and>
    (SessionTable_AddTo lib es m = Inr m3 \<longrightarrow> GetSessionTableFrom lib m3 = Inr (table_of es))"
proof (intro conjI impI)
  assume "PeerID_AddTo lib pid m = Inr m1"
  then show "PeerID_GetFrom lib m1 = Inr pid"
    using PeerID_AddTo_GetFrom [OF laws] empty by blast
next
  assume "TorrentPorts_AddTo lib tp m = Inr m2"
  then have "lib_get lib m2 AttrEvenPort = Inr (ports_bytes tp)"
    using attr_lawsD(2) [OF laws] empty by (auto simp: TorrentPorts_AddTo_def)
  then show "TorrentPorts_GetFrom lib m2 = Some (Inr (fst tp mod 2 ^ 32, snd tp mod 2 ^ 32))"
    by (simp add: TorrentPorts_GetFrom_def ports_of_bytes_mod)
next
  assume "SessionTable_AddTo lib es m = Inr m3"
  then show "GetSessionTableFrom lib m3 = Inr (table_of es)"
    using SessionTable_AddTo_GetFrom [OF laws] empty by blast
qed

lemma attributes_read_back_witness:
  "\<exists>m2. TorrentPorts_AddTo ref_stun (-1, 6881) (lib_new ref_stun) = Inr m2 \<and>
    TorrentPorts_GetFrom ref_stun m2 = Some (Inr (4294967295, 6881))"
proof -
  have "\<forall>t. is_err (lib_get ref_stun (lib_new ref_stun) t)"
    by (simp add: ref_stun_def ref_get_def)
  from attributes_read_back [OF ref_stun_laws this] show ?thesis
    by (auto simp: TorrentPorts_AddTo_def)
qed

end
