(* ===== verification/Versioned_Store.thy ===== *)
theory Versioned_Store
  imports Main "HOL-Library.Multiset"
begin

section \<open>Stores that keep the newest version of each update\<close>

text \<open>
  The server and the agent each keep a map from UUIDs to updates and share a policy: an update is
  taken when nothing newer or equal is stored under its UUID.  \<open>keep_newest\<close> is that policy as a
  function on maps and \<open>newest_policy\<close> says what a sequence of updates leaves behind: the order and the
  repetition do not matter, which is what lets notifications arrive by gossip.  \<open>verified_store\<close> is the
  contract of a component that keeps the newest of what it can verify, \<open>versioned_store\<close> that of an
  operation that answers with a verdict.
\<close>

lemma map_filter_Some [simp]: "List.map_filter Some xs = xs"
  by (induction xs) (simp_all add: List.map_filter_simps)

datatype verdict = Accepted | Duplicate | Older

definition verdict_of :: "('u \<Rightarrow> 'k) \<Rightarrow> ('u \<Rightarrow> 'v::linorder) \<Rightarrow> 'u \<Rightarrow> ('k \<rightharpoonup> 'u) \<Rightarrow> verdict" where
  "verdict_of key version u m =
     (case m (key u) of
        None \<Rightarrow> Accepted
      | Some old \<Rightarrow>
          (if version u < version old then Older
           else if version old = version u then Duplicate else Accepted))"

definition keep_newest :: "('u \<Rightarrow> 'k) \<Rightarrow> ('u \<Rightarrow> 'v::linorder) \<Rightarrow> 'u \<Rightarrow> ('k \<rightharpoonup> 'u) \<Rightarrow> ('k \<rightharpoonup> 'u)" where
  "keep_newest key version u m =
     (if verdict_of key version u m = Accepted then m(key u \<mapsto> u) else m)"

text \<open>Versions identify the updates of a UUID.\<close>

definition versions_identify :: "('u \<Rightarrow> 'k) \<Rightarrow> ('u \<Rightarrow> 'v) \<Rightarrow> 'u set \<Rightarrow> bool" where
  "versions_identify key version U \<longleftrightarrow>
     (\<forall>u \<in> U. \<forall>v \<in> U. key u = key v \<and> version u = version v \<longrightarrow> u = v)"

subsection \<open>The policy\<close>

locale newest_policy =
  fixes key :: "'u \<Rightarrow> 'k"
    and version :: "'u \<Rightarrow> 'v::linorder"
begin

definition newest :: "('k \<rightharpoonup> 'u) \<Rightarrow> 'u list \<Rightarrow> ('k \<rightharpoonup> 'u)" where
  "newest m us = fold (keep_newest key version) us m"

lemma newest_simps [simp]:
  "newest m [] = m" "newest m (u # us) = newest (keep_newest key version u m) us"
  by (simp_all add: newest_def)

lemma keep_newest_Some:
  "m k = Some u \<Longrightarrow> \<exists>v. keep_newest key version w m k = Some v \<and> version u \<le> version v"
  by (auto simp: keep_newest_def verdict_of_def not_less less_imp_le split: option.splits if_splits)

lemma keep_newest_offered:
  "\<exists>v. keep_newest key version u m (key u) = Some v \<and> version u \<le> version v"
  by (auto simp: keep_newest_def verdict_of_def less_imp_le split: option.splits if_splits)

lemma keep_newest_source:
  "keep_newest key version u m k = Some v \<Longrightarrow> m k = Some v \<or> (v = u \<and> key u = k)"
  by (auto simp: keep_newest_def split: if_splits)

lemma newest_mono:
  "m k = Some u \<Longrightarrow> \<exists>v. newest m us k = Some v \<and> version u \<le> version v"
proof (induction us arbitrary: m u)
  case (Cons w us)
  obtain v where v: "keep_newest key version w m k = Some v" "version u \<le> version v"
    using keep_newest_Some [of m k u w, OF Cons.prems] by blast
  from Cons.IH [of "keep_newest key version w m" v, OF v(1)] v(2) show ?case
    by (auto intro: order_trans)
qed simp

lemma newest_bound:
  "u \<in> set us \<Longrightarrow> \<exists>v. newest m us (key u) = Some v \<and> version u \<le> version v"
proof (induction us arbitrary: m)
  case (Cons w us)
  show ?case
  proof (cases "u = w")
    case True
    obtain v where v: "keep_newest key version w m (key u) = Some v" "version u \<le> version v"
      using keep_newest_offered [of w m] True by blast
    with newest_mono [of "keep_newest key version w m" "key u" v us, OF v(1)] show ?thesis
      by (auto intro: order_trans)
  next
    case False
    with Cons show ?thesis by simp
  qed
qed simp

lemma newest_source:
  "newest m us k = Some v \<Longrightarrow> m k = Some v \<or> (v \<in> set us \<and> key v = k)"
proof (induction us arbitrary: m)
  case (Cons w us)
  then show ?case using keep_newest_source [of w m k v] by auto
qed simp

text \<open>The store holds the highest version it was offered, and nothing it was not offered.\<close>

lemma newest_iff:
  assumes "versions_identify key version (set us)"
  shows "newest Map.empty us k = Some v \<longleftrightarrow>
    v \<in> set us \<and> key v = k \<and> (\<forall>u \<in> set us. key u = k \<longrightarrow> version u \<le> version v)"
proof
  assume v: "newest Map.empty us k = Some v"
  then have "v \<in> set us" "key v = k" using newest_source by fastforce+
  moreover have "version u \<le> version v" if "u \<in> set us" "key u = k" for u
    using newest_bound [OF that(1), of Map.empty] that(2) v by simp
  ultimately show "v \<in> set us \<and> key v = k \<and> (\<forall>u \<in> set us. key u = k \<longrightarrow> version u \<le> version v)"
    by blast
next
  assume v: "v \<in> set us \<and> key v = k \<and> (\<forall>u \<in> set us. key u = k \<longrightarrow> version u \<le> version v)"
  then obtain w where w: "newest Map.empty us k = Some w" "version v \<le> version w"
    using newest_bound [of v us Map.empty] by blast
  then have "w \<in> set us" "key w = k" using newest_source by fastforce+
  with v w have "w = v"
    using assms unfolding versions_identify_def by (metis order_antisym)
  with w show "newest Map.empty us k = Some v" by simp
qed

lemma newest_set_eq:
  assumes "versions_identify key version (set us)" "set us = set vs"
  shows "newest Map.empty us = newest Map.empty vs"
proof
  fix k
  have "newest Map.empty us k = Some v \<longleftrightarrow> newest Map.empty vs k = Some v" for v
    using assms newest_iff [of us k v] newest_iff [of vs k v] by simp
  then show "newest Map.empty us k = newest Map.empty vs k"
    by (metis not_Some_eq)
qed

end

subsection \<open>A store that checks what it is given\<close>

text \<open>
  \<open>step i s t\<close>: given the input \<open>i\<close> in the state \<open>s\<close>, the store may go to \<open>t\<close>.  \<open>reads i\<close> is the update
  in the input, if there is one; the store keeps the newest of what passes its check.
\<close>

locale verified_store = newest_policy key version
  for key :: "'u \<Rightarrow> 'k" and version :: "'u \<Rightarrow> 'v::linorder" +
  fixes content :: "'s \<Rightarrow> ('k \<rightharpoonup> 'u)"
    and inv :: "'s \<Rightarrow> bool"
    and ok :: "'s \<Rightarrow> 'u \<Rightarrow> bool"
    and reads :: "'i \<Rightarrow> 'u option"
    and step :: "'i \<Rightarrow> 's \<Rightarrow> 's \<Rightarrow> bool"
  assumes step_skip: "inv s \<Longrightarrow> step i s t \<Longrightarrow> reads i = None \<Longrightarrow> content t = content s"
    and step_take: "inv s \<Longrightarrow> step i s t \<Longrightarrow> reads i = Some u \<Longrightarrow>
      content t = (if ok s u then keep_newest key version u (content s) else content s)"
    and step_inv: "inv s \<Longrightarrow> step i s t \<Longrightarrow> inv t"
    and step_ok: "inv s \<Longrightarrow> step i s t \<Longrightarrow> ok t = ok s"
begin

fun feed :: "'i list \<Rightarrow> 's \<Rightarrow> 's \<Rightarrow> bool" where
  "feed [] s t \<longleftrightarrow> s = t"
| "feed (i # is) s t \<longleftrightarrow> (\<exists>r. step i s r \<and> feed is r t)"

definition passing :: "'s \<Rightarrow> 'i list \<Rightarrow> 'u list" where
  "passing s is = filter (ok s) (List.map_filter reads is)"

lemma feed_content:
  "inv s \<Longrightarrow> feed is s t \<Longrightarrow> content t = newest (content s) (passing s is) \<and> inv t \<and> ok t = ok s"
proof (induction "is" arbitrary: s)
  case (Cons i "is")
  then obtain r where r: "step i s r" "feed is r t" by auto
  have same: "inv r" "ok r = ok s"
    using step_inv step_ok Cons.prems(1) r(1) by blast+
  have "content t = newest (content r) (passing s is) \<and> inv t \<and> ok t = ok s"
    using Cons.IH [of r] same r(2) by (simp add: passing_def)
  then show ?case
    using step_skip [OF Cons.prems(1) r(1)] step_take [OF Cons.prems(1) r(1)]
    by (cases "reads i") (simp_all add: passing_def List.map_filter_simps)
qed (simp add: passing_def List.map_filter_simps)

text \<open>The order and the repetition of what is offered do not matter.\<close>

lemma feed_converge:
  assumes "inv s" "feed is s t" "content s = Map.empty"
    and "versions_identify key version (set (passing s is))" "set (passing s is) = set vs"
  shows "content t = newest Map.empty vs"
  using feed_content [OF assms(1,2)] newest_set_eq [OF assms(4,5)] assms(3) by simp

end

subsection \<open>A store that answers with a verdict\<close>

locale versioned_store = newest_policy key version
  for key :: "'u \<Rightarrow> 'k" and version :: "'u \<Rightarrow> 'v::linorder" +
  fixes content :: "'s \<Rightarrow> ('k \<rightharpoonup> 'u)"
    and inv :: "'s \<Rightarrow> bool"
    and offer :: "'u \<Rightarrow> 's \<Rightarrow> verdict \<times> 's"
  assumes offer_verdict: "inv s \<Longrightarrow> fst (offer u s) = verdict_of key version u (content s)"
    and offer_content: "inv s \<Longrightarrow> content (snd (offer u s)) = keep_newest key version u (content s)"
    and offer_inv: "inv s \<Longrightarrow> inv (snd (offer u s))"
begin

text \<open>An offer again is refused and changes nothing.\<close>

lemma offer_again:
  assumes "inv s"
  shows "fst (offer u (snd (offer u s))) \<noteq> Accepted"
    "content (snd (offer u (snd (offer u s)))) = content (snd (offer u s))"
proof -
  let ?m = "keep_newest key version u (content s)"
  have again: "verdict_of key version u ?m \<noteq> Accepted"
  proof (cases "verdict_of key version u (content s) = Accepted")
    case True
    then have "?m (key u) = Some u" by (simp add: keep_newest_def)
    then show ?thesis by (simp add: verdict_of_def)
  qed (simp add: keep_newest_def)
  then show "fst (offer u (snd (offer u s))) \<noteq> Accepted"
    using assms by (simp add: offer_verdict offer_content offer_inv)
  have "keep_newest key version u ?m = ?m"
    using again by (simp add: keep_newest_def [of key version u ?m])
  then show "content (snd (offer u (snd (offer u s)))) = content (snd (offer u s))"
    using assms by (simp add: offer_content offer_inv)
qed

end

text \<open>Such a store is one that lets everything pass.\<close>

sublocale versioned_store \<subseteq> plain: verified_store key version content inv "\<lambda>_ _. True" Some "\<lambda>u s t. t = snd (offer u s)"
  by unfold_locales (simp_all add: offer_content offer_inv)

context versioned_store
begin

definition offers :: "'u list \<Rightarrow> 's \<Rightarrow> 's" where
  "offers us s = fold (\<lambda>u s. snd (offer u s)) us s"

lemma offers_feed: "plain.feed us s (offers us s)"
  by (induction us arbitrary: s) (simp_all add: offers_def)

lemma offers_content: "inv s \<Longrightarrow> content (offers us s) = newest (content s) us"
  using plain.feed_content [OF _ offers_feed] by (simp add: plain.passing_def map_filter_Some)

lemma offers_mono:
  "inv s \<Longrightarrow> content s k = Some u \<Longrightarrow>
   \<exists>v. content (offers us s) k = Some v \<and> version u \<le> version v"
  by (simp add: offers_content newest_mono)

end

end
