(* ===== verification/Deploy.thy ===== *)
theory Deploy
  imports P2P_Prelude
begin

section \<open>Paths, archives and deployers (\<open>update.go\<close>)\<close>

text \<open>
  \<open>filepath.Join\<close> and \<open>filepath.Clean\<close> on slash-separated paths, the shell deployer with its three
  ways to run an update, and \<open>Unzip\<close>.  The file system and the shell answer through \<open>deploy_env\<close>; what
  is done to them is a list of actions.  The text of a path is a list of bytes, so \<open>strings.ToLower\<close>
  is modelled on ASCII letters.
\<close>

subsection \<open>Paths\<close>

fun split_path :: "string \<Rightarrow> string list" where
  "split_path [] = [[]]"
| "split_path (c # cs) =
     (if c = CHR ''/'' then [] # split_path cs
      else case split_path cs of [] \<Rightarrow> [[c]] | y # ys \<Rightarrow> (c # y) # ys)"

fun join_path :: "string list \<Rightarrow> string" where
  "join_path [] = []"
| "join_path [x] = x"
| "join_path (x # xs) = x @ CHR ''/'' # join_path xs"

text \<open>
  One element of the path, from the left: empty elements and single dots go, a double dot removes
  the element before it, unless there is none.
\<close>

definition clean_step :: "bool \<Rightarrow> string \<Rightarrow> string list \<Rightarrow> string list" where
  "clean_step rooted e st =
     (if e = [] \<or> e = ''.'' then st
      else if e = ''..'' then
        (if st \<noteq> [] \<and> last st \<noteq> ''..'' then butlast st
         else if rooted then st else st @ [''..''])
      else st @ [e])"

definition clean_elems :: "bool \<Rightarrow> string list \<Rightarrow> string list \<Rightarrow> string list" where
  "clean_elems rooted es st = fold (clean_step rooted) es st"

definition is_rooted :: "string \<Rightarrow> bool" where
  "is_rooted p = (case p of c # _ \<Rightarrow> c = CHR ''/'' | [] \<Rightarrow> False)"

definition path_Clean :: "string \<Rightarrow> string" where
  "path_Clean p =
     (let es = clean_elems (is_rooted p) (split_path p) [] in
      if is_rooted p then CHR ''/'' # join_path es
      else if es = [] then ''.'' else join_path es)"

definition path_Join :: "string \<Rightarrow> string \<Rightarrow> string" where
  "path_Join a b =
     (let es = filter (\<lambda>e. e \<noteq> []) [a, b] in if es = [] then [] else path_Clean (join_path es))"

text \<open>\<open>filepath.Dir\<close> of a path, and \<open>filepath.Ext\<close>: the suffix from the last dot of the last element.\<close>

definition path_Dir :: "string \<Rightarrow> string" where
  "path_Dir p = path_Clean (rev (dropWhile (\<lambda>c. c \<noteq> CHR ''/'') (rev p)))"

definition path_Ext :: "string \<Rightarrow> string" where
  "path_Ext p =
     (let base = takeWhile (\<lambda>c. c \<noteq> CHR ''/'') (rev p);
          ext = takeWhile (\<lambda>c. c \<noteq> CHR ''.'') base
      in if CHR ''.'' \<in> set base then CHR ''.'' # rev ext else [])"

definition char_lower :: "char \<Rightarrow> char" where
  "char_lower c = (let n = of_char c :: nat in if 65 \<le> n \<and> n \<le> 90 then char_of (n + 32) else c)"

definition to_lower :: "string \<Rightarrow> string" where
  "to_lower s = map char_lower s"

subsection \<open>Unzip\<close>

datatype deploy_action =
    RunShell string
  | RemovePath string
  | MakeDirs string
  | WriteFile string bytes

text \<open>An entry of an archive, with the answers the file system gives while it is unpacked.\<close>

record zip_entry =
  ze_Name :: string
  ze_IsDir :: bool
  ze_Content :: bytes
  ze_open :: "go_error option"
  ze_mkdir :: "go_error option"
  ze_create :: "go_error option"
  ze_copy :: "(go_error \<times> nat) option"   \<comment> \<open>the error and the bytes copied before it\<close>

fun unzip_loop ::
  "string \<Rightarrow> zip_entry list \<Rightarrow> string list \<Rightarrow> deploy_action list \<Rightarrow> (string list \<times> go_error option) \<times> deploy_action list" where
  "unzip_loop dest [] names acts = ((names, None), acts)"
| "unzip_loop dest (f # fs) names acts =
     (case ze_open f of
        Some e \<Rightarrow> ((names, Some e), acts)
      | None \<Rightarrow>
          (let fpath = path_Join dest (ze_Name f); names' = names @ [fpath] in
           if ze_IsDir f then unzip_loop dest fs names' (acts @ [MakeDirs fpath])
           else case ze_mkdir f of
             Some e \<Rightarrow> ((names', Some e), acts)
           | None \<Rightarrow>
               (let acts1 = acts @ [MakeDirs (path_Dir fpath)] in
                case ze_create f of
                  Some e \<Rightarrow> ((names', Some e), acts1)
                | None \<Rightarrow>
                    (case ze_copy f of
                       Some (e, k) \<Rightarrow> ((names', Some e), acts1 @ [WriteFile fpath (take k (ze_Content f))])
                     | None \<Rightarrow> unzip_loop dest fs names' (acts1 @ [WriteFile fpath (ze_Content f)])))))"

definition Unzip ::
  "zip_entry list result \<Rightarrow> string \<Rightarrow> (string list \<times> go_error option) \<times> deploy_action list" where
  "Unzip archive dest =
     (case archive of Inl e \<Rightarrow> (([], Some e), []) | Inr fs \<Rightarrow> unzip_loop dest fs [] [])"

subsection \<open>Deployers\<close>

record deploy_env =
  de_stat :: "string \<Rightarrow> bool result"          \<comment> \<open>\<open>os.Stat\<close>: is it a directory\<close>
  de_sh :: "string \<Rightarrow> go_error option"         \<comment> \<open>how \<open>/bin/sh\<close> ends, killed after the time-out or not\<close>
  de_zip :: "string \<Rightarrow> zip_entry list result"
  de_temp :: string

type_synonym deploy_result = "go_error option \<times> deploy_action list"

definition deployFile :: "deploy_env \<Rightarrow> string \<Rightarrow> deploy_result" where
  "deployFile env filename = (de_sh env filename, [RunShell filename])"

definition deployDir :: "deploy_env \<Rightarrow> string \<Rightarrow> deploy_result" where
  "deployDir env filename =
     (let main = filename @ ''/main.sh'' in
      case de_stat env main of Inl e \<Rightarrow> (Some e, []) | Inr _ \<Rightarrow> deployFile env main)"

definition deployZip :: "deploy_env \<Rightarrow> string \<Rightarrow> deploy_result" where
  "deployZip env filename =
     (let dir = path_Join (de_temp env) filename in
      case Unzip (de_zip env filename) dir of
        ((names, Some e), acts) \<Rightarrow> (Some (ErrMsg ''failed unzipping''), acts @ [RemovePath dir])
      | ((names, None), acts) \<Rightarrow>
          (case deployDir env dir of (err, acts') \<Rightarrow> (err, acts @ acts' @ [RemovePath dir])))"

definition shell_deploy :: "deploy_env \<Rightarrow> string \<Rightarrow> deploy_result" where
  "shell_deploy env filename =
     (case de_stat env filename of
        Inl e \<Rightarrow> (Some e, [])
      | Inr dir \<Rightarrow>
          (if dir then deployDir env filename
           else if to_lower (path_Ext filename) = ''.zip'' then deployZip env filename
           else deployFile env filename))"

definition apk_deploy :: "deploy_env \<Rightarrow> string \<Rightarrow> deploy_result" where
  "apk_deploy env filename = (Some (ErrMsg ''not implemented''), [])"

text \<open>\<open>deployWith\<close>: the files of the torrent in order, up to the first failure.\<close>

fun deploy_files :: "(string \<Rightarrow> deploy_result) \<Rightarrow> string \<Rightarrow> string list \<Rightarrow> deploy_result" where
  "deploy_files d dataDir [] = (None, [])"
| "deploy_files d dataDir (f # fs) =
     (case d (path_Join dataDir f) of
        (Some e, acts) \<Rightarrow> (Some e, acts)
      | (None, acts) \<Rightarrow> (case deploy_files d dataDir fs of (err, acts') \<Rightarrow> (err, acts @ acts')))"

subsection \<open>What a joined path is\<close>

definition plain_elem :: "string \<Rightarrow> bool" where
  "plain_elem e \<longleftrightarrow> e \<noteq> [] \<and> e \<noteq> ''.'' \<and> e \<noteq> ''..'' \<and> CHR ''/'' \<notin> set e"

lemma split_path_ne [simp]: "split_path p \<noteq> []"
  by (cases p) (auto split: list.splits)

lemma split_path_append_slash: "split_path (p @ CHR ''/'' # q) = split_path p @ split_path q"
  by (induction p) (auto split: list.splits)

lemma split_path_elem: "CHR ''/'' \<notin> set e \<Longrightarrow> split_path e = [e]"
  by (induction e) auto

lemma split_join_path: "es \<noteq> [] \<Longrightarrow> \<forall>e \<in> set es. CHR ''/'' \<notin> set e \<Longrightarrow> split_path (join_path es) = es"
  by (induction es rule: join_path.induct) (auto simp: split_path_append_slash split_path_elem)

lemma clean_elems_simps [simp]:
  "clean_elems r [] st = st" "clean_elems r (e # es) st = clean_elems r es (clean_step r e st)"
  by (simp_all add: clean_elems_def)

lemma clean_elems_append: "clean_elems r (es @ fs) st = clean_elems r fs (clean_elems r es st)"
  by (simp add: clean_elems_def)

lemma clean_elems_plain: "\<forall>e \<in> set es. plain_elem e \<Longrightarrow> clean_elems r es st = st @ es"
  by (induction es arbitrary: st) (auto simp: clean_step_def plain_elem_def)

text \<open>Elements without a double dot only ever add to the path.\<close>

lemma clean_elems_no_dotdot:
  "''..'' \<notin> set es \<Longrightarrow> clean_elems r es st = st @ filter (\<lambda>e. e \<noteq> [] \<and> e \<noteq> ''.'') es"
  by (induction es arbitrary: st) (auto simp: clean_step_def)

definition root_path :: "string list \<Rightarrow> string" where
  "root_path es = CHR ''/'' # join_path es"

lemma path_Join_rooted:
  assumes "name \<noteq> []" "\<forall>e \<in> set es. plain_elem e"
  shows "path_Join (root_path es) name = root_path (clean_elems True (split_path name) es)"
proof -
  have root: "is_rooted (root_path es @ CHR ''/'' # name)"
    by (simp add: is_rooted_def root_path_def)
  have "split_path (root_path es) = [] # (if es = [] then [[]] else es)"
    using assms(2) by (auto simp: root_path_def split_join_path plain_elem_def)
  then have "split_path (root_path es @ CHR ''/'' # name) =
      ([] # (if es = [] then [[]] else es)) @ split_path name"
    by (simp only: split_path_append_slash)
  moreover have "clean_elems True ([] # (if es = [] then [[]] else es)) [] = es"
    using clean_elems_plain [OF assms(2), of True "[]"] by (simp add: clean_step_def)
  ultimately have "clean_elems True (split_path (root_path es @ CHR ''/'' # name)) [] =
      clean_elems True (split_path name) es"
    by (simp only: clean_elems_append)
  moreover have "root_path es \<noteq> []" by (simp add: root_path_def)
  ultimately show ?thesis
    using assms(1) root by (simp add: path_Join_def path_Clean_def root_path_def)
qed

text \<open>A name without double dots stays under the directory it is joined to.\<close>

lemma path_Join_inside:
  assumes "name \<noteq> []" "\<forall>e \<in> set es. plain_elem e" "''..'' \<notin> set (split_path name)"
  shows "path_Join (root_path es) name =
    root_path (es @ filter (\<lambda>e. e \<noteq> [] \<and> e \<noteq> ''.'') (split_path name))"
  using path_Join_rooted [OF assms(1,2)] clean_elems_no_dotdot [OF assms(3)] by simp

text \<open>A name with as many double dots as the directory is deep leaves it for any place.\<close>

lemma clean_elems_up:
  "\<forall>e \<in> set es. plain_elem e \<Longrightarrow> clean_elems True (replicate (length es) ''..'') es = []"
proof (induction es rule: rev_induct)
  case (snoc e es)
  have "replicate (length (es @ [e])) ''..'' = ''..'' # replicate (length es) ''..''" by simp
  with snoc show ?case by (auto simp: clean_step_def plain_elem_def)
qed simp

lemma path_Join_escape:
  assumes "\<forall>e \<in> set es. plain_elem e" "\<forall>e \<in> set out. plain_elem e" "out \<noteq> []"
  shows "path_Join (root_path es) (join_path (replicate (length es) ''..'' @ out)) = root_path out"
proof -
  let ?ns = "replicate (length es) ''..'' @ out"
  have elems: "set ?ns \<subseteq> insert ''..'' (set out)"
    by (simp add: set_replicate_conv_if subset_insertI2)
  have out: "e \<noteq> [] \<and> CHR ''/'' \<notin> set e" if "e \<in> set out" for e
    using assms(2) that by (simp add: plain_elem_def)
  have "\<forall>e \<in> set ?ns. CHR ''/'' \<notin> set e"
    using elems out by fastforce
  then have split: "split_path (join_path ?ns) = ?ns"
    using split_join_path [of ?ns] assms(3) by simp
  have "[] \<notin> set ?ns"
    using elems out by blast
  moreover have "[] \<in> set (split_path [])" by simp
  ultimately have "join_path ?ns \<noteq> []"
    using split by metis
  moreover note split
  moreover have "clean_elems True ?ns es = out"
    using clean_elems_up [OF assms(1)] clean_elems_plain [OF assms(2), of True "[]"]
    by (simp add: clean_elems_append)
  ultimately show ?thesis using path_Join_rooted [OF _ assms(1)] by simp
qed

subsection \<open>What Unzip writes\<close>

definition no_faults :: "zip_entry \<Rightarrow> bool" where
  "no_faults f \<longleftrightarrow> ze_open f = None \<and> ze_mkdir f = None \<and> ze_create f = None \<and> ze_copy f = None"

definition written :: "deploy_action list \<Rightarrow> string set" where
  "written acts = {p. \<exists>b. WriteFile p b \<in> set acts}"

lemma unzip_loop_names:
  "\<forall>f \<in> set fs. no_faults f \<Longrightarrow>
   fst (unzip_loop dest fs names acts) = (names @ map (\<lambda>f. path_Join dest (ze_Name f)) fs, None)"
  by (induction fs arbitrary: names acts) (auto simp: no_faults_def Let_def)

lemma unzip_loop_written:
  "written (snd (unzip_loop dest fs names acts)) \<subseteq>
     written acts \<union> {path_Join dest (ze_Name f) | f. f \<in> set fs \<and> \<not> ze_IsDir f}"
proof (induction fs arbitrary: names acts)
  case (Cons f fs)
  have app: "written (as @ bs) = written as \<union> written bs" for as bs by (auto simp: written_def)
  have one: "written [MakeDirs p] = {}" "written [MakeDirs p, WriteFile q b] = {q}" for p q b
    by (auto simp: written_def)
  show ?case
    using Cons [of "names @ [path_Join dest (ze_Name f)]" "acts @ [MakeDirs (path_Join dest (ze_Name f))]"]
      Cons [of "names @ [path_Join dest (ze_Name f)]"
        "acts @ [MakeDirs (path_Dir (path_Join dest (ze_Name f))), WriteFile (path_Join dest (ze_Name f)) (ze_Content f)]"]
    by (cases "ze_IsDir f")
      (auto simp: Let_def app one split: option.split prod.split)
qed auto

lemma unzip_loop_acts: "\<exists>bs. snd (unzip_loop dest fs names acts) = acts @ bs"
proof (induction fs arbitrary: names acts)
  case (Cons f fs)
  have "\<exists>bs. snd (unzip_loop dest fs ns (acts @ as)) = acts @ bs" for ns as
    using Cons [of ns "acts @ as"] by auto
  then show ?case by (auto simp: Let_def split: option.split prod.split)
qed simp

text \<open>The files of an update run in order; the first failure ends the deployment.\<close>

lemma deploy_files_stops:
  assumes "\<forall>g \<in> set fs. fst (d (path_Join dir g)) = None" "fst (d (path_Join dir f)) = Some e"
  shows "deploy_files d dir (fs @ f # gs) =
    (Some e, concat (map (\<lambda>g. snd (d (path_Join dir g))) (fs @ [f])))"
  using assms
proof (induction fs)
  case Nil
  then show ?case by (cases "d (path_Join dir f)") simp
next
  case (Cons g fs)
  then show ?case by (cases "d (path_Join dir g)") simp
qed

lemma deploy_files_ok:
  "\<forall>f \<in> set fs. fst (d (path_Join dir f)) = None \<Longrightarrow>
   deploy_files d dir fs = (None, concat (map (\<lambda>f. snd (d (path_Join dir f))) fs))"
proof (induction fs)
  case (Cons f fs)
  then show ?case by (cases "d (path_Join dir f)") simp
qed simp

end
