(* ===== verification/Update.thy ===== *)
theory Update
  imports Config Versioned_Store Deploy
begin

section \<open>Updates and the agent's state (\<open>update.go\<close>, \<open>agent.go\<close>)\<close>

text \<open>
  An \<open>Update\<close> is an object shared by the agent's map, its monitor goroutine and the handlers that
  look it up, so the agent has a heap of them.  Each has a lock; \<open>u_locked\<close> says that a goroutine
  holds it.  A method runs on the whole agent and ends in one of three ways: it returns, it waits
  for a lock that is held, or it panics.  The effects outside the agent (torrents, files, packets,
  scripts) are appended to a log; the metadata directory is kept as a map from file names to contents.
\<close>

subsection \<open>Outcomes\<close>

datatype ('a, 's) outcome = Done 'a 's | Blocked 's | Panicked

fun bind_outcome :: "('a, 's) outcome \<Rightarrow> ('a \<Rightarrow> 's \<Rightarrow> ('b, 's) outcome) \<Rightarrow> ('b, 's) outcome" where
  "bind_outcome (Done x s) f = f x s"
| "bind_outcome (Blocked s) f = Blocked s"
| "bind_outcome Panicked f = Panicked"

text \<open>The state left behind, if the process survives.\<close>

fun final_state :: "('a, 's) outcome \<Rightarrow> 's option" where
  "final_state (Done x s) = Some s"
| "final_state (Blocked s) = Some s"
| "final_state Panicked = None"

lemma bind_outcome_Done: "bind_outcome m f = Done y t \<longleftrightarrow> (\<exists>x s. m = Done x s \<and> f x s = Done y t)"
  by (cases m) auto

lemma final_state_bind:
  "final_state (bind_outcome m f) = Some t \<longleftrightarrow>
     m = Blocked t \<or> (\<exists>x s. m = Done x s \<and> final_state (f x s) = Some t)"
  by (cases m) auto

lemma final_state_bind_Done [simp]:
  "final_state (bind_outcome m (\<lambda>x s. Done (g x) s)) = final_state m"
  by (cases m) auto

subsection \<open>State\<close>

record update =
  u_Notification :: notification
  u_Deployed :: int
  u_Source :: string
  u_Stopped :: bool
  u_Sent :: bool
  u_DeployFails :: int
  u_Missing :: int
  u_torrent :: "nat option"
  u_locked :: bool

datatype agent_action =
    AddTorrent meta_info
  | DropTorrent nat
  | DownloadAll nat
  | SpawnMonitor nat
  | RemoveAll string
  | Net action
  | Deploying deploy_action

record 'pub agent =
  ag_Config :: config
  ag_Overlay :: "overlay option"
  ag_PublicKey :: 'pub
  ag_updates :: "string \<rightharpoonup> nat"
  ag_heap :: "nat \<rightharpoonup> update"
  ag_next :: nat
  ag_dataDir :: string
  ag_metadataDir :: string
  ag_disk :: "string \<rightharpoonup> bytes"
  ag_buf :: notification                        \<comment> \<open>\<open>bufNotification\<close>\<close>
  ag_bufs :: "string \<rightharpoonup> notification option"     \<comment> \<open>\<open>bufNotifications\<close>\<close>
  ag_log :: "agent_action list"

definition emit :: "agent_action list \<Rightarrow> 'pub agent \<Rightarrow> 'pub agent" where
  "emit acts ag = ag\<lparr>ag_log := ag_log ag @ acts\<rparr>"

definition set_update :: "nat \<Rightarrow> update \<Rightarrow> 'pub agent \<Rightarrow> 'pub agent" where
  "set_update r u ag = ag\<lparr>ag_heap := (ag_heap ag)(r \<mapsto> u)\<rparr>"

definition new_object :: "update \<Rightarrow> 'pub agent \<Rightarrow> nat \<times> 'pub agent" where
  "new_object u ag = (ag_next ag, (set_update (ag_next ag) u ag)\<lparr>ag_next := Suc (ag_next ag)\<rparr>)"

text \<open>\<open>locking\<close>: take the object's lock; a nil object panics, a held lock waits.\<close>

definition locking :: "nat \<Rightarrow> 'pub agent \<Rightarrow> (update \<Rightarrow> ('a, 'pub agent) outcome) \<Rightarrow> ('a, 'pub agent) outcome" where
  "locking r ag f =
     (case ag_heap ag r of
        None \<Rightarrow> Panicked
      | Some u \<Rightarrow> if u_locked u then Blocked ag else f u)"

definition set_locked :: "bool \<Rightarrow> nat \<Rightarrow> 'pub agent \<Rightarrow> 'pub agent" where
  "set_locked b r ag = (case ag_heap ag r of None \<Rightarrow> ag | Some u \<Rightarrow> set_update r (u\<lparr>u_locked := b\<rparr>) ag)"

subsection \<open>Construction, files\<close>

text \<open>The UUIDs that name a deployer.\<close>

definition UUIDApk :: string where
  "UUIDApk = ''5ee3a38d-a8dc-514e-9c74-42ab160648aa''"
definition UUIDShell :: string where
  "UUIDShell = ''f5adf0cb-b0e1-5a22-97f1-09092f566438''"
definition DeployFailsLimit :: int where
  "DeployFailsLimit = 5"

definition NewUpdate :: "notification \<Rightarrow> 'pub agent \<Rightarrow> nat \<times> 'pub agent" where
  "NewUpdate n ag =
     new_object \<lparr>u_Notification = n, u_Deployed = go_zero_time, u_Source = [], u_Stopped = True,
       u_Sent = False, u_DeployFails = 0, u_Missing = 0, u_torrent = None, u_locked = False\<rparr> ag"

text \<open>
  JSON of an update: its exported fields.  \<open>decode\<close> gives the fields of a file over those of the
  update it is given.
\<close>

record update_json =
  uj_encode :: "update \<Rightarrow> bytes result"
  uj_decode :: "bytes \<Rightarrow> update \<Rightarrow> update result"

definition blank_update :: update where
  "blank_update =
     \<lparr>u_Notification = zero_notification, u_Deployed = go_zero_time, u_Source = [], u_Stopped = False,
      u_Sent = False, u_DeployFails = 0, u_Missing = 0, u_torrent = None, u_locked = False\<rparr>"

text \<open>The unexported fields and the lock are not part of the JSON text.\<close>

definition decode_update :: "update_json \<Rightarrow> bytes \<Rightarrow> update \<Rightarrow> update result" where
  "decode_update js b u0 =
     (case uj_decode js b u0 of
        Inl e \<Rightarrow> Inl e
      | Inr u \<Rightarrow> Inr (u\<lparr>u_torrent := u_torrent u0, u_locked := u_locked u0\<rparr>))"

definition LoadUpdateFromFile :: "update_json \<Rightarrow> bytes result \<Rightarrow> update result" where
  "LoadUpdateFromFile js file =
     (case file of
        Inl e \<Rightarrow> Inl e
      | Inr b \<Rightarrow> decode_update js b (blank_update\<lparr>u_Stopped := True\<rparr>))"

definition MetadataFilename :: "notification \<Rightarrow> 'pub agent \<Rightarrow> string" where
  "MetadataFilename n ag = path_Join (ag_metadataDir ag) (n_UUID n @ ''-v'' @ nat_dec (unat (n_Version n)))"

text \<open>
  \<open>Save\<close> truncates the file, then \<open>Write\<close> takes the lock for reading and writes the JSON text.
  \<open>wrote\<close> is an error with the number of bytes that reached the file, or none.
\<close>

definition Update_Save ::
  "update_json \<Rightarrow> go_error option \<Rightarrow> (go_error \<times> nat) option \<Rightarrow> nat \<Rightarrow> 'pub agent
     \<Rightarrow> (go_error option, 'pub agent) outcome" where
  "Update_Save js openf wrote r ag =
     (case ag_heap ag r of
        None \<Rightarrow> Panicked
      | Some u \<Rightarrow>
          (case openf of
             Some e \<Rightarrow> Done (Some e) ag
           | None \<Rightarrow>
               (let file = MetadataFilename (u_Notification u) ag;
                    ag1 = ag\<lparr>ag_disk := (ag_disk ag)(file \<mapsto> [])\<rparr>
                in if u_locked u then Blocked ag1
                   else case uj_encode js u of
                     Inl e \<Rightarrow> Done (Some e) ag1
                   | Inr data \<Rightarrow>
                       (case wrote of
                          Some (e, k) \<Rightarrow> Done (Some e) (ag\<lparr>ag_disk := (ag_disk ag)(file \<mapsto> take k data)\<rparr>)
                        | None \<Rightarrow> Done None (ag\<lparr>ag_disk := (ag_disk ag)(file \<mapsto> data)\<rparr>)))))"

subsection \<open>The agent's map of updates\<close>

definition addUpdate :: "nat \<Rightarrow> 'pub agent \<Rightarrow> nat option result \<times> 'pub agent" where
  "addUpdate r ag =
     (let n = u_Notification (the (ag_heap ag r)); uuid = n_UUID n;
          store = ag\<lparr>ag_updates := (ag_updates ag)(uuid \<mapsto> r)\<rparr> in
      case ag_updates ag uuid of
        Some old \<Rightarrow>
          (let m = u_Notification (the (ag_heap ag old)) in
           if n_Version m > n_Version n then (Inl ErrUpdateIsOlder, ag)
           else if n_Version m = n_Version n then (Inl ErrUpdateIsAlreadyExist, ag)
           else (Inr (Some old), store))
      | None \<Rightarrow> (Inr None, store))"

definition deleteUpdate :: "string \<Rightarrow> 'pub agent \<Rightarrow> nat option \<times> 'pub agent" where
  "deleteUpdate uuid ag = (ag_updates ag uuid, ag\<lparr>ag_updates := (ag_updates ag)(uuid := None)\<rparr>)"

definition getUpdate :: "string \<Rightarrow> 'pub agent \<Rightarrow> nat option" where
  "getUpdate uuid ag = ag_updates ag uuid"

text \<open>The keys in the order of the range: any list that holds each key once.\<close>

definition getUpdateUUIDs :: "string list \<Rightarrow> 'pub agent \<Rightarrow> string list" where
  "getUpdateUUIDs order ag = filter (\<lambda>k. ag_updates ag k \<noteq> None) order"

subsection \<open>The text of an update\<close>

text \<open>\<open>String\<close>: the text for the log, from what the torrent library reports.\<close>

record torrent_report =
  tr_completed :: int
  tr_missing :: int
  tr_seeding :: bool
  tr_total_peers :: int
  tr_active_peers :: int
  tr_read :: int
  tr_written :: int
  tr_checking :: bool      \<comment> \<open>the state of piece 0\<close>
  tr_complete :: bool
  tr_ok :: bool
  tr_partial :: bool
  tr_priority :: int

definition bool_text :: "bool \<Rightarrow> string" where
  "bool_text b = (if b then ''true'' else ''false'')"

definition Update_String :: "torrent_report \<Rightarrow> update \<Rightarrow> string" where
  "Update_String tr u =
     ''uuid:'' @ n_UUID (u_Notification u) @ '' version:'' @ nat_dec (unat (n_Version (u_Notification u))) @
     (if u_torrent u = None then []
      else '' completed/missing:'' @ int_dec (tr_completed tr) @ ''/'' @ int_dec (tr_missing tr) @
        '' seeding:'' @ bool_text (tr_seeding tr) @
        '' peers(total/active):'' @ int_dec (tr_total_peers tr) @ ''/'' @ int_dec (tr_active_peers tr) @
        '' read/write:'' @ int_dec (tr_read tr) @ ''/'' @ int_dec (tr_written tr) @
        '' piece[0]checking:'' @ bool_text (tr_checking tr) @ '' complete:'' @ bool_text (tr_complete tr) @
        '' ok:'' @ bool_text (tr_ok tr) @ '' partial:'' @ bool_text (tr_partial tr) @
        '' priority:'' @ int_dec (tr_priority tr))"

subsection \<open>Start, Stop, Delete\<close>

record update_env =
  ue_add :: "nat result"               \<comment> \<open>\<open>torrentClient.AddTorrent\<close>\<close>
  ue_rm_data :: "go_error option"
  ue_rm_meta :: "go_error option"

definition Update_Verify :: "('priv, 'pub) notif_lib \<Rightarrow> 'pub \<Rightarrow> update \<Rightarrow> go_error option" where
  "Update_Verify nlib pub u =
     (case snd (Notification_Verify nlib pub (u_Notification u)) of
        None \<Rightarrow> None | Some e \<Rightarrow> Some ErrUpdateVerificationFailed)"

definition Update_Stop :: "nat \<Rightarrow> 'pub agent \<Rightarrow> (unit, 'pub agent) outcome" where
  "Update_Stop r ag =
     locking r ag (\<lambda>u.
       let u1 = u\<lparr>u_Stopped := True\<rparr> in
       case u_torrent u1 of
         None \<Rightarrow> Done () (set_update r u1 ag)
       | Some h \<Rightarrow> Done () (emit [DropTorrent h] (set_update r (u1\<lparr>u_torrent := None\<rparr>) ag)))"

definition Update_Delete :: "update_env \<Rightarrow> nat \<Rightarrow> 'pub agent \<Rightarrow> (go_error option, 'pub agent) outcome" where
  "Update_Delete env r ag =
     locking r ag (\<lambda>u.
       if \<not> u_Stopped u then Done (Some (ErrMsg ''update has not been stopped'')) ag
       else
         let data = path_Join (ag_dataDir ag) (ti_Name (n_Info (u_Notification u)));
             meta = MetadataFilename (u_Notification u) ag;
             ag1 = emit [RemoveAll data, RemoveAll meta] ag
         in case ue_rm_meta env of
              Some e \<Rightarrow> Done (Some (ErrMsg ''failed deleting update'')) ag1
            | None \<Rightarrow> Done None (ag1\<lparr>ag_disk := (ag_disk ag1)(meta := None)\<rparr>))"

text \<open>Retiring the update that a newer one replaces; an error of \<open>Delete\<close> is only logged.\<close>

definition retire :: "update_env \<Rightarrow> nat option \<Rightarrow> 'pub agent \<Rightarrow> (unit, 'pub agent) outcome" where
  "retire env old ag =
     (case old of
        None \<Rightarrow> Done () ag
      | Some r \<Rightarrow>
          bind_outcome (Update_Stop r ag) (\<lambda>_ ag1.
            bind_outcome (Update_Delete env r ag1) (\<lambda>_ ag2. Done () ag2)))"

definition activate ::
  "('priv, 'pub) notif_lib \<Rightarrow> update_env \<Rightarrow> nat \<Rightarrow> update \<Rightarrow> 'pub agent \<Rightarrow> (go_error option, 'pub agent) outcome" where
  "activate nlib env r u ag =
     (case torrentMetainfo nlib (u_Notification u) of
        Inl e \<Rightarrow> Done (Some (ErrMsg ''failed generating torrent metainfo'')) (set_locked False r ag)
      | Inr mi \<Rightarrow>
          (case ue_add env of
             Inl e \<Rightarrow> Done (Some (ErrMsg ''failed adding torrent'')) (set_locked False r ag)
           | Inr h \<Rightarrow>
               Done None (emit [AddTorrent mi, SpawnMonitor r]
                 (set_update r (u\<lparr>u_torrent := Some h, u_Stopped := False, u_locked := False\<rparr>) ag))))"

text \<open>\<open>Start\<close> holds the update's lock from its first line to its return.\<close>

definition Update_Start ::
  "('priv, 'pub) notif_lib \<Rightarrow> update_env \<Rightarrow> nat \<Rightarrow> 'pub agent \<Rightarrow> (go_error option, 'pub agent) outcome" where
  "Update_Start nlib env r ag =
     locking r ag (\<lambda>u.
       let ag0 = set_locked True r ag in
       case Update_Verify nlib (ag_PublicKey ag) u of
         Some e \<Rightarrow> Done (Some e) (set_locked False r ag0)
       | None \<Rightarrow>
           (case addUpdate r ag0 of
              (Inl e, ag1) \<Rightarrow> Done (Some e) (set_locked False r ag1)
            | (Inr old, ag1) \<Rightarrow>
                bind_outcome (retire env old ag1) (\<lambda>_ ag2. activate nlib env r u ag2)))"

subsection \<open>Monitoring and deploying\<close>

text \<open>\<open>Deployed.Year() < 2000\<close>, in universal time.\<close>

definition not_deployed :: "update \<Rightarrow> bool" where
  "not_deployed u \<longleftrightarrow> u_Deployed u < 946684800 * second"

definition Update_deploy ::
  "deploy_env \<Rightarrow> int \<Rightarrow> string \<Rightarrow> string list \<Rightarrow> update \<Rightarrow> update \<times> deploy_action list" where
  "Update_deploy env now dataDir files u =
     (if u_DeployFails u > DeployFailsLimit then (u, [])
      else
        let failed = u\<lparr>u_DeployFails := u_DeployFails u + 1\<rparr>;
            finish = (\<lambda>(err, acts). (if err \<noteq> (None :: go_error option) then failed
                        else u\<lparr>u_DeployFails := 0, u_Deployed := now\<rparr>, acts));
            uuid = n_UUID (u_Notification u)
        in if uuid = UUIDApk then finish (deploy_files (apk_deploy env) dataDir files)
           else if uuid = UUIDShell then finish (deploy_files (shell_deploy env) dataDir files)
           else (failed, []))"

text \<open>
  Writing to the agent's overlay.  Without an overlay (\<open>NoUDP\<close>) the method runs on a nil pointer: it
  gets past the test of the length and then panics.
\<close>

definition agent_send ::
  "'m stun_lib \<Rightarrow> (udp_addr \<Rightarrow> go_error option) \<Rightarrow> peer_id list \<Rightarrow> 'pub agent \<Rightarrow> bytes
     \<Rightarrow> (action list \<times> go_error option) may_panic" where
  "agent_send lib write ids ag b =
     (case ag_Overlay ag of
        None \<Rightarrow>
          (if length b > stunMaxPacketDataSize then Some ([], Some (ErrMsg ''data is too large'')) else None)
      | Some ov \<Rightarrow>
          map_option (\<lambda>(as, r). (as, case r of Inl e \<Rightarrow> Some e | Inr _ \<Rightarrow> None))
            (overlay_Write lib write ov ids b))"

record monitor_env =
  me_now :: int
  me_missing :: int                            \<comment> \<open>\<open>torrent.BytesMissing\<close>\<close>
  me_files :: "string list"                    \<comment> \<open>\<open>torrent.Files\<close>\<close>
  me_deploy :: deploy_env
  me_write :: "udp_addr \<Rightarrow> go_error option"
  me_order :: "peer_id list"
  me_open :: "go_error option"
  me_wrote :: "(go_error \<times> nat) option"

text \<open>Sending an update that has not been sent: the update, whether to save it, the packets.\<close>

definition monitor_send ::
  "'m stun_lib \<Rightarrow> ('priv, 'pub) notif_lib \<Rightarrow> monitor_env \<Rightarrow> bool \<Rightarrow> update \<Rightarrow> 'pub agent
     \<Rightarrow> (update \<times> bool \<times> agent_action list) may_panic" where
  "monitor_send lib nlib env toSave u ag =
     (if u_Sent u then Some (u, toSave, [])
      else case Notification_Write nlib (agent_send lib (me_write env) (me_order env) ag) [] (u_Notification u) of
        None \<Rightarrow> None
      | Some (acts, Some e) \<Rightarrow> Some (u, toSave, map Net acts)
      | Some (acts, None) \<Rightarrow> Some (u\<lparr>u_Sent := True\<rparr>, True, map Net acts))"

text \<open>Downloading or deploying.\<close>

definition monitor_progress ::
  "monitor_env \<Rightarrow> nat \<Rightarrow> bool \<Rightarrow> update \<Rightarrow> 'pub agent \<Rightarrow> update \<times> bool \<times> agent_action list" where
  "monitor_progress env h toSave u ag =
     (let u1 = u\<lparr>u_Missing := me_missing env\<rparr> in
      if me_missing env > 0 then (u1, toSave, [DownloadAll h])
      else if \<not> cf_Proxy (ag_Config ag) \<and> not_deployed u1 then
        (case Update_deploy (me_deploy env) (me_now env) (ag_dataDir ag) (me_files env) u1 of
           (u2, acts) \<Rightarrow> (u2, True, map Deploying acts))
      else (u1, toSave, []))"

text \<open>
  One turn of the loop of \<open>monitor\<close> after its sleep, as far as the lock is held.  \<open>Done None\<close>: the loop
  ends, and the lock taken at the top of the turn stays taken.  \<open>Done (Some toSave)\<close>: the lock is free.
\<close>

definition monitor_turn ::
  "'m stun_lib \<Rightarrow> ('priv, 'pub) notif_lib \<Rightarrow> monitor_env \<Rightarrow> bool \<Rightarrow> nat \<Rightarrow> 'pub agent
     \<Rightarrow> (bool option, 'pub agent) outcome" where
  "monitor_turn lib nlib env toSave r ag =
     locking r ag (\<lambda>u.
       if u_Stopped u then Done None (set_locked True r ag)
       else case u_torrent u of
         None \<Rightarrow> Done None (set_locked True r ag)
       | Some h \<Rightarrow>
           (case monitor_send lib nlib env toSave u ag of
              None \<Rightarrow> Panicked
            | Some (u1, save1, acts1) \<Rightarrow>
                (case monitor_progress env h save1 u1 ag of
                   (u2, save2, acts2) \<Rightarrow> Done (Some save2) (emit (acts1 @ acts2) (set_update r u2 ag)))))"

text \<open>The whole turn: what it has to save is saved after the lock is free.\<close>

definition monitor_step ::
  "'m stun_lib \<Rightarrow> ('priv, 'pub) notif_lib \<Rightarrow> update_json \<Rightarrow> monitor_env \<Rightarrow> bool \<Rightarrow> nat \<Rightarrow> 'pub agent
     \<Rightarrow> (bool, 'pub agent) outcome" where
  "monitor_step lib nlib js env toSave r ag =
     bind_outcome (monitor_turn lib nlib env toSave r ag) (\<lambda>res ag1.
       case res of
         None \<Rightarrow> Done False ag1
       | Some save \<Rightarrow>
           (if save
            then bind_outcome (Update_Save js (me_open env) (me_wrote env) r ag1) (\<lambda>_ ag2. Done True ag2)
            else Done True ag1))"

end
