(* ===== verification/Agent.thy ===== *)
theory Agent
  imports Update
begin

section \<open>The agent (\<open>agent.go\<close>) and its REST interface (\<open>api.go\<close>)\<close>

text \<open>
  How updates reach an agent: from the server over HTTP (\<open>readTCP\<close>), from a peer over the overlay
  (\<open>readOverlay\<close>), from its own metadata directory (\<open>loadUpdates\<close>), from a user through the REST
  interface.  Every function returns an \<open>outcome\<close> over the agent's state; the answers of the
  environment to each update's \<open>Start\<close> are a function of its UUID.
\<close>

subsection \<open>Reading from the server\<close>

text \<open>Offering a notification: \<open>NewUpdate\<close> and \<open>Start\<close>; the caller only logs the error.\<close>

definition offer_notification ::
  "('priv, 'pub) notif_lib \<Rightarrow> update_env \<Rightarrow> notification \<Rightarrow> 'pub agent \<Rightarrow> (go_error option, 'pub agent) outcome" where
  "offer_notification nlib env n ag =
     (case NewUpdate n ag of (r, ag1) \<Rightarrow> Update_Start nlib env r ag1)"

fun offer_all ::
  "('priv, 'pub) notif_lib \<Rightarrow> (string \<Rightarrow> update_env) \<Rightarrow> notification option list \<Rightarrow> 'pub agent
     \<Rightarrow> (unit, 'pub agent) outcome" where
  "offer_all nlib envs [] ag = Done () ag"
| "offer_all nlib envs (None # ns) ag = Panicked"
| "offer_all nlib envs (Some n # ns) ag =
     bind_outcome (offer_notification nlib (envs (n_UUID n)) n ag) (\<lambda>_ ag1. offer_all nlib envs ns ag1)"

text \<open>
  \<open>json.Unmarshal\<close> into the map \<open>bufNotifications\<close> keeps the entries that are not in the text; \<open>decode\<close>
  gives the entries it stores, those before an error included, and the error.  The range over the map
  takes its keys in the order \<open>ks\<close>.
\<close>

definition buf_values :: "string list \<Rightarrow> (string \<rightharpoonup> notification option) \<Rightarrow> notification option list" where
  "buf_values ks m = map (\<lambda>k. the (m k)) (filter (\<lambda>k. m k \<noteq> None) ks)"

definition readTCP ::
  "('priv, 'pub) notif_lib \<Rightarrow> (string \<Rightarrow> update_env) \<Rightarrow> (bytes \<Rightarrow> (string \<rightharpoonup> notification option) \<times> go_error option)
     \<Rightarrow> (int \<times> bytes) result \<Rightarrow> string list \<Rightarrow> 'pub agent \<Rightarrow> (go_error option, 'pub agent) outcome" where
  "readTCP nlib envs decode response ks ag =
     (case response of
        Inl e \<Rightarrow> Done (Some (ErrMsg ''readTCP - failed getting updates'')) ag
      | Inr (code, body) \<Rightarrow>
          (if code \<noteq> 200 then Done (Some (ErrMsg ''readTCP - failed getting updates'')) ag
           else case decode body of (m, err) \<Rightarrow>
             (let ag1 = ag\<lparr>ag_bufs := ag_bufs ag ++ m\<rparr> in
              if err \<noteq> None then Done (Some (ErrMsg ''readTCP - failed decoding notifications'')) ag1
              else bind_outcome (offer_all nlib envs (buf_values ks (ag_bufs ag1)) ag1) (\<lambda>_ ag2. Done None ag2))))"

subsection \<open>Reading from the overlay\<close>

text \<open>
  \<open>Overlay.Read\<close> into the 64 KiB buffer.  The message is decoded into the global \<open>bufNotification\<close>,
  over what the last message left there; whatever the decoder says, the buffer's content is offered.
\<close>

definition handle_message ::
  "('priv, 'pub) notif_lib \<Rightarrow> (string \<Rightarrow> update_env) \<Rightarrow> bytes \<Rightarrow> 'pub agent \<Rightarrow> (go_error option, 'pub agent) outcome" where
  "handle_message nlib envs b ag =
     (case nl_bdecode nlib b (ag_buf ag) of
        (n, err) \<Rightarrow> offer_notification nlib (envs (n_UUID n)) n (ag\<lparr>ag_buf := n\<rparr>))"

definition readOverlay ::
  "('priv, 'pub) notif_lib \<Rightarrow> (string \<Rightarrow> update_env) \<Rightarrow> bool \<Rightarrow> 'pub agent \<Rightarrow> (unit, 'pub agent) outcome" where
  "readOverlay nlib envs timer ag =
     (case ag_Overlay ag of
        None \<Rightarrow> Panicked
      | Some ov \<Rightarrow>
          (case overlay_Read timer (64 * 1024) ov of
             Blocks \<Rightarrow> Blocked ag
           | Returns (b, Some e, ov') \<Rightarrow> Done () (ag\<lparr>ag_Overlay := Some ov'\<rparr>)
           | Returns (b, None, ov') \<Rightarrow>
               bind_outcome (handle_message nlib envs b (ag\<lparr>ag_Overlay := Some ov'\<rparr>)) (\<lambda>_ ag1. Done () ag1)))"

subsection \<open>The gossip loop\<close>

text \<open>
  One turn of the loop of \<open>startGossip\<close>, as what it does next and the counter it leaves: while the
  overlay is not ready it sleeps, and reads from the server when the counter passes the interval.
\<close>

datatype gossip_turn = GossipSleep | GossipReadTCP | GossipReadOverlay

definition gossip_step :: "'pub agent \<Rightarrow> int \<Rightarrow> gossip_turn \<times> int" where
  "gossip_step ag counter =
     (if (case ag_Overlay ag of None \<Rightarrow> True | Some ov \<Rightarrow> \<not> Ready ov) then
        (let c = counter + 1 in
         if c > cf_ReadTCPInterval (ag_Config ag) then (GossipReadTCP, 0) else (GossipSleep, c))
      else (GossipReadOverlay, 0))"

subsection \<open>Loading the metadata directory\<close>

text \<open>The file names in the order of \<open>ioutil.ReadDir\<close>; a file that does not load or verify is skipped.\<close>

fun load_files ::
  "('priv, 'pub) notif_lib \<Rightarrow> update_json \<Rightarrow> (string \<Rightarrow> update_env) \<Rightarrow> string list \<Rightarrow> 'pub agent
     \<Rightarrow> (unit, 'pub agent) outcome" where
  "load_files nlib js envs [] ag = Done () ag"
| "load_files nlib js envs (f # fs) ag =
     (let file = path_Join (ag_metadataDir ag) f;
          content = (case ag_disk ag file of None \<Rightarrow> Inl (ErrMsg ''no such file'') | Some b \<Rightarrow> Inr b) in
      case LoadUpdateFromFile js content of
        Inl e \<Rightarrow> load_files nlib js envs fs ag
      | Inr u \<Rightarrow>
          (if Update_Verify nlib (ag_PublicKey ag) u \<noteq> None then load_files nlib js envs fs ag
           else case new_object u ag of
             (r, ag1) \<Rightarrow>
               bind_outcome (Update_Start nlib (envs (n_UUID (u_Notification u))) r ag1)
                 (\<lambda>_ ag2. load_files nlib js envs fs ag2)))"

subsection \<open>The torrent client's configuration\<close>

definition is_space :: "char \<Rightarrow> bool" where
  "is_space c \<longleftrightarrow> c \<in> {CHR '' '', CHR 0x09, CHR 0x0A, CHR 0x0D}"

definition trim :: "string \<Rightarrow> string" where
  "trim s = rev (dropWhile is_space (rev (dropWhile is_space s)))"

definition is_digit :: "char \<Rightarrow> bool" where
  "is_digit c \<longleftrightarrow> c \<in> dec_chars"

text \<open>The regular expression \<open>^.*:[0-9]+$\<close>; a dot does not match a line feed.\<close>

definition has_port :: "string \<Rightarrow> bool" where
  "has_port s =
     (let r = dropWhile is_digit (rev s) in
      (case r of c # h \<Rightarrow> c = CHR '':'' \<and> CHR 0x0A \<notin> set h | [] \<Rightarrow> False) \<and>
      (case rev s of d # _ \<Rightarrow> is_digit d | [] \<Rightarrow> False))"

definition digit_value :: "char \<Rightarrow> int" where
  "digit_value c = int (of_char c) - 48"

definition digits_value :: "string \<Rightarrow> int" where
  "digits_value ds = fold (\<lambda>c v. 10 * v + digit_value c) ds 0"

text \<open>\<open>strconv.Atoi\<close>, the error dropped: 0 on a syntax error, the bound when out of range.\<close>

definition atoi :: "string \<Rightarrow> int" where
  "atoi s =
     (let (neg, ds) = (case s of c # cs \<Rightarrow>
            (if c = CHR ''-'' then (True, cs) else if c = CHR ''+'' then (False, cs) else (False, s))
          | [] \<Rightarrow> (False, []))
      in if ds = [] \<or> \<not> list_all is_digit ds then 0
         else if neg then max (- (2 ^ 63)) (- digits_value ds)
         else min (2 ^ 63 - 1) (digits_value ds))"

definition overlay_port :: "string \<Rightarrow> int" where
  "overlay_port address =
     (let addr = trim address in
      if has_port addr then atoi (tl (dropWhile (\<lambda>c. c \<noteq> CHR '':'') addr)) else 0)"

record torrent_config =
  tc_ListenPort :: int
  tc_DataDir :: string
  tc_Seed :: bool
  tc_NoDHT :: bool
  tc_HTTPUserAgent :: string
  tc_Debug :: bool

text \<open>\<open>random\<close> is the port of \<open>bindRandomPort\<close>; the chosen port is stored in the configuration.\<close>

definition torrentClientConfig :: "int \<Rightarrow> string \<Rightarrow> config \<Rightarrow> torrent_config \<times> config" where
  "torrentClientConfig random dataDir cfg =
     (let bt = cf_BitTorrent cfg;
          bt1 = (if bt_Port bt = 0 \<or> bt_Port bt = overlay_port (cf_Address cfg)
                 then bt\<lparr>bt_Port := random\<rparr> else bt)
      in (\<lparr>tc_ListenPort = bt_Port bt1, tc_DataDir = dataDir, tc_Seed = True,
           tc_NoDHT = bt_NoDHT bt1 \<or> cf_NoUDP cfg, tc_HTTPUserAgent = softwareName,
           tc_Debug = bt_Debug bt1\<rparr>,
          cfg\<lparr>cf_BitTorrent := bt1\<rparr>))"

text \<open>
  \<open>bindRandomPort\<close>: the answers of the routers found by UPnP, each a list of attempts (a random number
  below 10000, and whether the mapping was made), 50 at most per router; \<open>final\<close> is the number drawn
  when no mapping was made.
\<close>

definition first_mapped :: "(int \<times> bool) list \<Rightarrow> int option" where
  "first_mapped attempts = map_option (\<lambda>(n, _). n + 50000) (find snd (take 50 attempts))"

fun bindRandomPort :: "(int \<times> bool) list list \<Rightarrow> int \<Rightarrow> int" where
  "bindRandomPort [] final = final + 50000"
| "bindRandomPort (d # ds) final =
     (case first_mapped d of Some p \<Rightarrow> p | None \<Rightarrow> bindRandomPort ds final)"

subsection \<open>Creating the agent\<close>

record 'pub agent_env =
  ae_mkdir_data :: "go_error option"
  ae_mkdir_meta :: "go_error option"
  ae_iface_ip :: "ip option"                 \<comment> \<open>\<open>IPv4ofInterface\<close>\<close>
  ae_local_ip :: "ip option"                 \<comment> \<open>\<open>LocalIPv4\<close>\<close>
  ae_random_port :: int
  ae_client :: "torrent_config \<Rightarrow> unit result"
  ae_overlay :: "overlay_config \<Rightarrow> overlay result"
  ae_key :: "'pub result"
  ae_files :: "string list result"           \<comment> \<open>\<open>ioutil.ReadDir\<close>\<close>

text \<open>\<open>createDirs\<close>: the two directories under the data directory, given what \<open>os.MkdirAll\<close> answers.\<close>

definition createDirs :: "go_error option \<Rightarrow> go_error option \<Rightarrow> string \<Rightarrow> (string \<times> string) result" where
  "createDirs mkdir_data mkdir_meta base =
     (let dataDir = path_Join base ''update''; metaDir = path_Join base ''notification'' in
      if mkdir_data \<noteq> None \<or> mkdir_meta \<noteq> None then Inl (ErrMsg ''createDirs - failed creating directory'')
      else Inr (dataDir, metaDir))"

definition agent_address :: "'pub agent_env \<Rightarrow> config \<Rightarrow> string" where
  "agent_address env cfg =
     (if cf_Address cfg \<noteq> [] then cf_Address cfg
      else case (case ae_iface_ip env of Some i \<Rightarrow> Some i | None \<Rightarrow> ae_local_ip env) of
        None \<Rightarrow> []
      | Some i \<Rightarrow> ip_String i @ '':'')"

text \<open>What the overlay is started with: the agent's address and server, the torrent port twice.\<close>

definition agent_overlay_config :: "config \<Rightarrow> overlay_config" where
  "agent_overlay_config cfg =
     (cf_Overlay cfg)\<lparr>oc_Address := cf_Address cfg, oc_Server := cf_Server cfg,
       oc_torrentPorts := (bt_Port (cf_BitTorrent cfg), bt_Port (cf_BitTorrent cfg))\<rparr>"

text \<open>
  \<open>NewAgent\<close>: directories, address, torrent client, overlay, key, stored updates.  The key is only
  needed from \<open>loadUpdates\<close> on; an unreadable metadata directory ends the process (\<open>log.Fatalf\<close>).
\<close>

definition NewAgent ::
  "('priv, 'pub) notif_lib \<Rightarrow> update_json \<Rightarrow> (string \<Rightarrow> update_env) \<Rightarrow> 'pub agent_env \<Rightarrow> config
     \<Rightarrow> (string \<rightharpoonup> bytes) \<Rightarrow> (go_error option, 'pub agent option) outcome" where
  "NewAgent nlib js envs env cfg disk =
     (let fail = (\<lambda>s. Done (Some (ErrMsg s)) None); cfg1 = cfg\<lparr>cf_Address := agent_address env cfg\<rparr> in
      case createDirs (ae_mkdir_data env) (ae_mkdir_meta env) (cf_DataDir cfg) of
        Inl e \<Rightarrow> Done (Some e) None
      | Inr (dataDir, metaDir) \<Rightarrow> (case torrentClientConfig (ae_random_port env) dataDir cfg1 of
        (tc, cfg2) \<Rightarrow> (case ae_client env tc of
          Inl e \<Rightarrow> fail ''ERROR: failed creating Torrent client''
        | Inr _ \<Rightarrow> (case (if cf_NoUDP cfg2 then Inr None
                         else map_sum id Some (ae_overlay env (agent_overlay_config cfg2))) of
          Inl e \<Rightarrow> Done (Some e) None
        | Inr ov \<Rightarrow> (case ae_key env of
          Inl e \<Rightarrow> fail ''ERROR: failed loading public key file''
        | Inr key \<Rightarrow> (case ae_files env of
          Inl e \<Rightarrow> Panicked
        | Inr fs \<Rightarrow>
            (case load_files nlib js envs fs
               \<lparr>ag_Config = cfg2, ag_Overlay = ov, ag_PublicKey = key, ag_updates = Map.empty,
                ag_heap = Map.empty, ag_next = 0, ag_dataDir = dataDir, ag_metadataDir = metaDir,
                ag_disk = disk, ag_buf = zero_notification, ag_bufs = Map.empty, ag_log = []\<rparr> of
               Done _ ag \<Rightarrow> Done None (Some ag)
             | Blocked ag \<Rightarrow> Blocked (Some ag)
             | Panicked \<Rightarrow> Panicked)))))))"

end
