(* ===== verification/Api.thy ===== *)
theory Api
  imports Agent
begin

section \<open>The REST interface of the agent (\<open>api.go\<close>)\<close>

text \<open>
  \<open>requestHandler\<close> tests the host, then the path, then the method.  A reply is a status code and the
  value its body encodes; a handler that takes locks may wait, and one that uses a missing overlay
  panics.  \<open>fasthttp\<close> answers 200 when the handler sets no status.
\<close>

record http_request =
  rq_Host :: string
  rq_Path :: string
  rq_Method :: string
  rq_Body :: bytes

datatype api_body =
    NoBody
  | BodyConfig config
  | BodyUUIDs "string list"
  | BodyUpdate update
  | BodyText string
  | BodyOverlay string string "udp_addr" "udp_addr option"

type_synonym api_reply = "int \<times> api_body"

text \<open>\<open>rUpdateURL\<close>: the path of one update, groups of 8, 4, 4, 4 and 12 hexadecimal digits.\<close>

definition is_hex_digit :: "char \<Rightarrow> bool" where
  "is_hex_digit c \<longleftrightarrow> hex_value c \<noteq> None"

definition is_uuid :: "string \<Rightarrow> bool" where
  "is_uuid s \<longleftrightarrow> map length (split_on (CHR ''-'') s) = [8, 4, 4, 4, 12] \<and>
     list_all (\<lambda>c. c = CHR ''-'' \<or> is_hex_digit c) s"

definition is_update_path :: "string \<Rightarrow> bool" where
  "is_update_path p \<longleftrightarrow> take 8 p = ''/update/'' \<and> is_uuid (drop 8 p)"

datatype route =
    RouteConfig | RouteOverlayPeers | RouteOverlay | RouteUpdate | RouteUpdates | RouteDhtNodes | RouteNone

definition route_of :: "string \<Rightarrow> route" where
  "route_of p =
     (if p = ''/config'' then RouteConfig
      else if p = ''/overlay/peers'' then RouteOverlayPeers
      else if p = ''/overlay'' then RouteOverlay
      else if is_update_path p then RouteUpdate
      else if p = ''/update'' then RouteUpdates
      else if p = ''/torrent/dht/nodes'' then RouteDhtNodes
      else RouteNone)"

subsection \<open>Handlers\<close>

record api_env =
  pe_stat :: "string \<Rightarrow> go_error option"       \<comment> \<open>\<open>os.Stat\<close> of the source file\<close>
  pe_copy :: "go_error option"                 \<comment> \<open>the command \<open>cp\<close>\<close>
  pe_start :: update_env
  pe_write :: "udp_addr \<Rightarrow> go_error option"
  pe_order :: "peer_id list"
  pe_uuids :: "string list"
  pe_nodes :: "string list list"               \<comment> \<open>the nodes of each DHT server\<close>

definition requestConfig :: "string \<Rightarrow> 'pub agent \<Rightarrow> api_reply" where
  "requestConfig meth ag = (if meth = ''GET'' then (200, BodyConfig (ag_Config ag)) else (400, NoBody))"

definition requestTorrentDhtNodes :: "string \<Rightarrow> api_env \<Rightarrow> api_reply" where
  "requestTorrentDhtNodes meth env =
     (if meth = ''GET''
      then (200, BodyText (''['' @ join_with '','' (map quoted (concat (pe_nodes env))) @ '']''))
      else (400, NoBody))"

definition requestOverlayPeers :: "string \<Rightarrow> api_env \<Rightarrow> 'pub agent \<Rightarrow> api_reply may_panic" where
  "requestOverlayPeers meth env ag =
     (if meth \<noteq> ''GET'' then Some (400, NoBody)
      else case ag_Overlay ag of
        None \<Rightarrow> None
      | Some ov \<Rightarrow> Some (200, BodyText (SessionTable_JSON (pe_order env) (ov_peers ov))))"

definition requestOverlay :: "string \<Rightarrow> 'pub agent \<Rightarrow> api_reply may_panic" where
  "requestOverlay meth ag =
     (if meth \<noteq> ''GET'' then Some (400, NoBody)
      else case ag_Overlay ag of
        None \<Rightarrow> None
      | Some ov \<Rightarrow>
          map_option (\<lambda>a. (200, BodyOverlay (PeerID_String (ov_ID ov))
              (State_String (state_code (Current (ov_automata ov)))) a (ExternalAddr ov)))
            (InternalAddr ov))"

definition requestGetUpdateWithUUID :: "string \<Rightarrow> 'pub agent \<Rightarrow> api_reply" where
  "requestGetUpdateWithUUID uuid ag =
     (case getUpdate uuid ag of
        None \<Rightarrow> (404, NoBody)
      | Some r \<Rightarrow> (200, BodyUpdate (the (ag_heap ag r))))"

definition requestBroadcastUpdateWithUUID ::
  "'m stun_lib \<Rightarrow> ('priv, 'pub) notif_lib \<Rightarrow> api_env \<Rightarrow> string \<Rightarrow> 'pub agent \<Rightarrow> (api_reply, 'pub agent) outcome" where
  "requestBroadcastUpdateWithUUID lib nlib env uuid ag =
     (case getUpdate uuid ag of
        None \<Rightarrow> Done (404, NoBody) ag
      | Some r \<Rightarrow>
          (case Notification_Write nlib (agent_send lib (pe_write env) (pe_order env) ag) []
                  (u_Notification (the (ag_heap ag r))) of
             None \<Rightarrow> Panicked
           | Some (acts, Some e) \<Rightarrow> Done (500, NoBody) (emit (map Net acts) ag)
           | Some (acts, None) \<Rightarrow> Done (200, NoBody) (emit (map Net acts) ag)))"

definition requestDeleteUpdate ::
  "api_env \<Rightarrow> string \<Rightarrow> 'pub agent \<Rightarrow> (api_reply, 'pub agent) outcome" where
  "requestDeleteUpdate env uuid ag =
     (case deleteUpdate uuid ag of
        (None, ag1) \<Rightarrow> Done (200, NoBody) ag1
      | (Some r, ag1) \<Rightarrow>
          bind_outcome (Update_Stop r ag1) (\<lambda>_ ag2.
            bind_outcome (Update_Delete (pe_start env) r ag2) (\<lambda>err ag3.
              Done (if err \<noteq> None then 500 else 200, NoBody) ag3)))"

text \<open>The status of a failed \<open>Start\<close>.\<close>

definition start_status :: "go_error option \<Rightarrow> int" where
  "start_status err =
     (case err of
        None \<Rightarrow> 200
      | Some ErrUpdateIsAlreadyExist \<Rightarrow> 208
      | Some ErrUpdateVerificationFailed \<Rightarrow> 401
      | Some ErrUpdateIsOlder \<Rightarrow> 406
      | Some _ \<Rightarrow> 500)"

definition requestPostUpdate ::
  "('priv, 'pub) notif_lib \<Rightarrow> update_json \<Rightarrow> api_env \<Rightarrow> bytes \<Rightarrow> 'pub agent \<Rightarrow> (api_reply, 'pub agent) outcome" where
  "requestPostUpdate nlib js env body ag =
     (case decode_update js body blank_update of
        Inl e \<Rightarrow> Done (400, NoBody) ag
      | Inr u \<Rightarrow>
          (if pe_stat env (u_Source u) \<noteq> None then Done (404, NoBody) ag
           else if pe_copy env \<noteq> None then Done (403, NoBody) ag
           else case new_object u ag of
             (r, ag1) \<Rightarrow>
               bind_outcome (Update_Start nlib (pe_start env) r ag1)
                 (\<lambda>err ag2. Done (start_status err, NoBody) ag2)))"

text \<open>
  \<open>rebroadcastUpdate\<close>: one turn each minute, five at most, over the agent's successive states; it
  stops when the update has gone or has another version.  An error of the write is dropped.
\<close>

definition rebroadcast_turn ::
  "'m stun_lib \<Rightarrow> ('priv, 'pub) notif_lib \<Rightarrow> api_env \<Rightarrow> string \<Rightarrow> 64 word \<Rightarrow> 'pub agent \<Rightarrow> action list option may_panic" where
  "rebroadcast_turn lib nlib env uuid version ag =
     (case getUpdate uuid ag of
        None \<Rightarrow> Some None
      | Some r \<Rightarrow>
          (let n = u_Notification (the (ag_heap ag r)) in
           if n_Version n \<noteq> version then Some None
           else map_option (\<lambda>(acts, _). Some acts)
                  (Notification_Write nlib (agent_send lib (pe_write env) (pe_order env) ag) [] n)))"

fun rebroadcast_loop ::
  "nat \<Rightarrow> 'm stun_lib \<Rightarrow> ('priv, 'pub) notif_lib \<Rightarrow> api_env \<Rightarrow> string \<Rightarrow> 64 word \<Rightarrow> 'pub agent list
     \<Rightarrow> action list list may_panic" where
  "rebroadcast_loop 0 lib nlib env uuid version ags = Some []"
| "rebroadcast_loop (Suc i) lib nlib env uuid version [] = Some []"
| "rebroadcast_loop (Suc i) lib nlib env uuid version (ag # ags) =
     (case rebroadcast_turn lib nlib env uuid version ag of
        None \<Rightarrow> None
      | Some None \<Rightarrow> Some []
      | Some (Some acts) \<Rightarrow>
          map_option (\<lambda>rest. acts # rest) (rebroadcast_loop i lib nlib env uuid version ags))"

definition rebroadcastUpdate ::
  "'m stun_lib \<Rightarrow> ('priv, 'pub) notif_lib \<Rightarrow> api_env \<Rightarrow> string \<Rightarrow> 64 word \<Rightarrow> 'pub agent list \<Rightarrow> action list list may_panic" where
  "rebroadcastUpdate lib nlib env uuid version ags = rebroadcast_loop 5 lib nlib env uuid version ags"

subsection \<open>Routing\<close>

definition requestUpdate ::
  "('priv, 'pub) notif_lib \<Rightarrow> update_json \<Rightarrow> api_env \<Rightarrow> http_request \<Rightarrow> 'pub agent \<Rightarrow> (api_reply, 'pub agent) outcome" where
  "requestUpdate nlib js env rq ag =
     (if rq_Method rq = ''POST'' then requestPostUpdate nlib js env (rq_Body rq) ag
      else if rq_Method rq = ''GET'' then Done (200, BodyUUIDs (getUpdateUUIDs (pe_uuids env) ag)) ag
      else Done (400, NoBody) ag)"

definition requestUpdateWithParam ::
  "'m stun_lib \<Rightarrow> ('priv, 'pub) notif_lib \<Rightarrow> api_env \<Rightarrow> http_request \<Rightarrow> 'pub agent \<Rightarrow> (api_reply, 'pub agent) outcome" where
  "requestUpdateWithParam lib nlib env rq ag =
     (let uuid = drop 8 (rq_Path rq) in
      if rq_Method rq = ''GET'' then Done (requestGetUpdateWithUUID uuid ag) ag
      else if rq_Method rq = ''DELETE'' then requestDeleteUpdate env uuid ag
      else if rq_Method rq = ''PATCH'' then requestBroadcastUpdateWithUUID lib nlib env uuid ag
      else Done (400, NoBody) ag)"

definition requestHandler ::
  "'m stun_lib \<Rightarrow> ('priv, 'pub) notif_lib \<Rightarrow> update_json \<Rightarrow> api_env \<Rightarrow> http_request \<Rightarrow> 'pub agent
     \<Rightarrow> (api_reply, 'pub agent) outcome" where
  "requestHandler lib nlib js env rq ag =
     (let lift = (\<lambda>r. case r of None \<Rightarrow> Panicked | Some rep \<Rightarrow> Done rep ag) in
      if rq_Host rq \<noteq> ''v1'' then Done (400, NoBody) ag
      else case route_of (rq_Path rq) of
        RouteConfig \<Rightarrow> Done (requestConfig (rq_Method rq) ag) ag
      | RouteOverlayPeers \<Rightarrow> lift (requestOverlayPeers (rq_Method rq) env ag)
      | RouteOverlay \<Rightarrow> lift (requestOverlay (rq_Method rq) ag)
      | RouteUpdate \<Rightarrow> requestUpdateWithParam lib nlib env rq ag
      | RouteUpdates \<Rightarrow> requestUpdate nlib js env rq ag
      | RouteDhtNodes \<Rightarrow> Done (requestTorrentDhtNodes (rq_Method rq) env) ag
      | RouteNone \<Rightarrow> Done (400, NoBody) ag)"

end
