(* ===== verification/Agent_Safety.thy ===== *)
theory Agent_Safety
  imports Api Transition
begin

section \<open>What the agent guarantees\<close>

text \<open>
  The invariant of the agent's heap, kept by everything that can happen to it: the map's entries are
  live objects filed under their own UUID, and whatever is in the map or has a torrent verifies under
  the agent's key.  The map implements the versioned store.  \<open>Start\<close> returns and leaves no lock held
  when none was.
\<close>

subsection \<open>The invariant\<close>

definition heap_wf :: "'pub agent \<Rightarrow> bool" where
  "heap_wf ag \<longleftrightarrow>
     (\<forall>r u. ag_heap ag r = Some u \<longrightarrow> r < ag_next ag) \<and>
     (\<forall>uuid r. ag_updates ag uuid = Some r \<longrightarrow>
        (\<exists>u. ag_heap ag r = Some u \<and> n_UUID (u_Notification u) = uuid))"

definition all_verified :: "('priv, 'pub) notif_lib \<Rightarrow> 'pub agent \<Rightarrow> bool" where
  "all_verified nlib ag \<longleftrightarrow>
     (\<forall>r u. ag_heap ag r = Some u \<longrightarrow> u_torrent u \<noteq> None \<or> (\<exists>uuid. ag_updates ag uuid = Some r) \<longrightarrow>
        verifies nlib (ag_PublicKey ag) (u_Notification u))"

definition agent_ok :: "('priv, 'pub) notif_lib \<Rightarrow> 'pub agent \<Rightarrow> bool" where
  "agent_ok nlib ag \<longleftrightarrow> heap_wf ag \<and> all_verified nlib ag"

lemma heap_wf_cong:
  "ag_heap ag' = ag_heap ag \<Longrightarrow> ag_updates ag' = ag_updates ag \<Longrightarrow> ag_next ag' = ag_next ag \<Longrightarrow>
   heap_wf ag' = heap_wf ag"
  by (simp add: heap_wf_def)

lemma agent_ok_cong:
  "ag_heap ag' = ag_heap ag \<Longrightarrow> ag_updates ag' = ag_updates ag \<Longrightarrow> ag_next ag' = ag_next ag \<Longrightarrow>
   ag_PublicKey ag' = ag_PublicKey ag \<Longrightarrow> agent_ok nlib ag' = agent_ok nlib ag"
  by (simp add: agent_ok_def heap_wf_def all_verified_def)

lemma emit_sel [simp]:
  "ag_heap (emit acts ag) = ag_heap ag" "ag_updates (emit acts ag) = ag_updates ag"
  "ag_next (emit acts ag) = ag_next ag" "ag_PublicKey (emit acts ag) = ag_PublicKey ag"
  "ag_Overlay (emit acts ag) = ag_Overlay ag" "ag_Config (emit acts ag) = ag_Config ag"
  "ag_disk (emit acts ag) = ag_disk ag" "ag_dataDir (emit acts ag) = ag_dataDir ag"
  "ag_metadataDir (emit acts ag) = ag_metadataDir ag" "ag_log (emit acts ag) = ag_log ag @ acts"
  by (simp_all add: emit_def)

lemma set_update_sel [simp]:
  "ag_heap (set_update r u ag) = (ag_heap ag)(r \<mapsto> u)" "ag_updates (set_update r u ag) = ag_updates ag"
  "ag_next (set_update r u ag) = ag_next ag" "ag_PublicKey (set_update r u ag) = ag_PublicKey ag"
  "ag_Overlay (set_update r u ag) = ag_Overlay ag" "ag_Config (set_update r u ag) = ag_Config ag"
  "ag_disk (set_update r u ag) = ag_disk ag" "ag_dataDir (set_update r u ag) = ag_dataDir ag"
  "ag_metadataDir (set_update r u ag) = ag_metadataDir ag" "ag_log (set_update r u ag) = ag_log ag"
  by (simp_all add: set_update_def)

lemma set_locked_Some:
  "ag_heap ag r = Some u \<Longrightarrow> set_locked b r ag = set_update r (u\<lparr>u_locked := b\<rparr>) ag"
  by (simp add: set_locked_def)

lemma agent_ok_emit [simp]: "agent_ok nlib (emit acts ag) = agent_ok nlib ag"
  by (rule agent_ok_cong) simp_all

lemma agent_ok_set_update:
  assumes "agent_ok nlib ag" "ag_heap ag r = Some u" "u_Notification u' = u_Notification u"
    and "u_torrent u' = None \<or> u_torrent u' = u_torrent u \<or> verifies nlib (ag_PublicKey ag) (u_Notification u)"
  shows "agent_ok nlib (set_update r u' ag)"
proof -
  have "heap_wf (set_update r u' ag)"
    using assms(1-3) by (simp add: agent_ok_def heap_wf_def) (metis option.inject)
  moreover have "all_verified nlib (set_update r u' ag)"
    using assms by (simp add: agent_ok_def all_verified_def) (metis option.distinct(1))
  ultimately show ?thesis by (simp add: agent_ok_def)
qed

lemma agent_ok_clear_torrent:
  "agent_ok nlib ag \<Longrightarrow> ag_heap ag r = Some u \<Longrightarrow>
   agent_ok nlib (set_update r (u\<lparr>u_Stopped := b, u_torrent := None\<rparr>) ag)"
  by (rule agent_ok_set_update) simp_all

lemma agent_ok_set_locked: "agent_ok nlib ag \<Longrightarrow> agent_ok nlib (set_locked b r ag)"
  by (auto simp: set_locked_def intro: agent_ok_set_update split: option.split)

lemma agent_ok_new_object:
  assumes "agent_ok nlib ag" "u_torrent u = None"
  shows "agent_ok nlib (snd (new_object u ag))"
  using assms
  by (fastforce simp: new_object_def agent_ok_def heap_wf_def all_verified_def less_Suc_eq)

lemma new_object_sel:
  assumes "new_object u ag = (r, ag1)"
  shows "r = ag_next ag" "ag_heap ag1 = (ag_heap ag)(r \<mapsto> u)" "ag_updates ag1 = ag_updates ag"
    "ag_next ag1 = Suc (ag_next ag)" "ag_PublicKey ag1 = ag_PublicKey ag"
    "ag_Overlay ag1 = ag_Overlay ag" "ag_log ag1 = ag_log ag"
  using assms by (auto simp: new_object_def)

subsection \<open>Each method\<close>

lemma final_locking:
  "final_state (locking r ag f) = Some ag' \<Longrightarrow>
   ag' = ag \<or> (\<exists>u. ag_heap ag r = Some u \<and> \<not> u_locked u \<and> final_state (f u) = Some ag')"
  by (auto simp: locking_def split: option.splits if_splits)

lemma Stop_Done:
  assumes "ag_heap ag r = Some u" "\<not> u_locked u"
  shows "Update_Stop r ag = Done () (case u_torrent u of
      None \<Rightarrow> set_update r (u\<lparr>u_Stopped := True, u_torrent := None\<rparr>) ag
    | Some h \<Rightarrow> emit [DropTorrent h] (set_update r (u\<lparr>u_Stopped := True, u_torrent := None\<rparr>) ag))"
proof (cases "u_torrent u")
  case None
  then have eq: "u\<lparr>u_Stopped := True, u_torrent := None\<rparr> = u\<lparr>u_Stopped := True\<rparr>" by (cases u) simp
  show ?thesis using None assms by (simp add: Update_Stop_def locking_def Let_def eq)
qed (use assms in \<open>simp add: Update_Stop_def locking_def Let_def\<close>)

lemma Stop_cases:
  assumes "final_state (Update_Stop r ag) = Some ag'"
  obtains "ag' = ag"
  | u acts where "ag_heap ag r = Some u" "\<not> u_locked u"
      "ag' = emit acts (set_update r (u\<lparr>u_Stopped := True, u_torrent := None\<rparr>) ag)"
proof (cases "\<exists>u. ag_heap ag r = Some u \<and> \<not> u_locked u")
  case True
  then obtain u where u: "ag_heap ag r = Some u" "\<not> u_locked u" by blast
  have "emit [] a = a" for a :: "'a agent" by (simp add: emit_def)
  then have "\<exists>acts. ag' = emit acts (set_update r (u\<lparr>u_Stopped := True, u_torrent := None\<rparr>) ag)"
    using assms Stop_Done [OF u] by (cases "u_torrent u") (auto intro: exI [of _ "[]"])
  then show thesis using that(2) u by blast
next
  case False
  then show thesis
    using assms that(1) by (auto simp: Update_Stop_def locking_def split: option.splits if_splits)
qed

lemma agent_ok_Stop:
  assumes "agent_ok nlib ag" "final_state (Update_Stop r ag) = Some ag'"
  shows "agent_ok nlib ag'"
  using assms(2)
proof (cases rule: Stop_cases)
  case (2 u acts)
  then show ?thesis using agent_ok_clear_torrent [OF assms(1) 2(1)] by simp
qed (use assms(1) in simp)

lemma agent_ok_Delete:
  assumes "agent_ok nlib ag" "final_state (Update_Delete env r ag) = Some ag'"
  shows "agent_ok nlib ag'"
  using assms final_locking [OF assms(2) [unfolded Update_Delete_def]]
  by (auto simp: Let_def agent_ok_cong [of "emit acts ag\<lparr>ag_disk := d\<rparr>" ag nlib for acts d]
      split: option.splits if_splits)

lemma agent_ok_retire:
  assumes "agent_ok nlib ag" "final_state (retire env old ag) = Some ag'"
  shows "agent_ok nlib ag'"
proof (cases old)
  case None
  then show ?thesis using assms by (simp add: retire_def)
next
  case (Some r)
  have stop: "agent_ok nlib s" if "final_state (Update_Stop r ag) = Some s" for s
    using agent_ok_Stop assms(1) that by blast
  have delete: "agent_ok nlib t" if "Update_Stop r ag = Done () s" "final_state (Update_Delete env r s) = Some t" for s t
    using agent_ok_Delete stop [of s] that by simp
  show ?thesis
    using assms(2) Some stop delete
    by (force simp: retire_def final_state_bind)
qed

text \<open>Objects keep their notifications, and a method on one object leaves the others alone.\<close>

definition keeps_objects :: "'pub agent \<Rightarrow> 'pub agent \<Rightarrow> bool" where
  "keeps_objects ag ag' \<longleftrightarrow>
     ag_PublicKey ag' = ag_PublicKey ag \<and> ag_updates ag' = ag_updates ag \<and> ag_next ag' = ag_next ag \<and>
     (\<forall>r. map_option u_Notification (ag_heap ag' r) = map_option u_Notification (ag_heap ag r))"

lemma keeps_objects_refl [simp]: "keeps_objects ag ag"
  by (simp add: keeps_objects_def)

lemma keeps_objects_trans: "keeps_objects ag ag1 \<Longrightarrow> keeps_objects ag1 ag2 \<Longrightarrow> keeps_objects ag ag2"
  by (simp add: keeps_objects_def)

lemma keeps_set_update:
  "ag_heap ag r = Some u \<Longrightarrow> u_Notification u' = u_Notification u \<Longrightarrow> keeps_objects ag (set_update r u' ag)"
  by (simp add: keeps_objects_def)

lemma keeps_set_locked: "keeps_objects ag (set_locked b r ag)"
  by (auto simp: set_locked_def keeps_set_update split: option.split)

lemma keeps_Stop:
  assumes "final_state (Update_Stop r ag) = Some ag'"
  shows "keeps_objects ag ag'"
  using assms by (cases rule: Stop_cases) (auto simp: keeps_objects_def)

lemma keeps_Delete: "final_state (Update_Delete env r ag) = Some ag' \<Longrightarrow> keeps_objects ag ag'"
  by (auto simp: Update_Delete_def locking_def keeps_objects_def Let_def split: option.splits if_splits)

lemma keeps_retire: "final_state (retire env old ag) = Some ag' \<Longrightarrow> keeps_objects ag ag'"
proof (cases old)
  case (Some r)
  assume "final_state (retire env old ag) = Some ag'"
  then show ?thesis
    using Some keeps_Stop [of r ag] keeps_Delete [of env r]
    by (force simp: retire_def final_state_bind intro: keeps_objects_trans)
qed (simp add: retire_def)

subsection \<open>The map of updates is a versioned store\<close>

definition agent_content :: "'pub agent \<Rightarrow> (string \<rightharpoonup> notification)" where
  "agent_content ag uuid =
     (case ag_updates ag uuid of None \<Rightarrow> None | Some r \<Rightarrow> map_option u_Notification (ag_heap ag r))"

lemma keeps_content: "keeps_objects ag ag' \<Longrightarrow> agent_content ag' = agent_content ag"
  by (rule ext) (simp add: agent_content_def keeps_objects_def split: option.split)

lemma heap_wf_lookup:
  "heap_wf ag \<Longrightarrow> ag_updates ag uuid = Some r \<Longrightarrow>
   \<exists>u. ag_heap ag r = Some u \<and> n_UUID (u_Notification u) = uuid"
  by (simp add: heap_wf_def)

lemma addUpdate_verdict:
  assumes "heap_wf ag" "ag_heap ag r = Some u"
  shows "addUpdate r ag =
    (case verdict_of n_UUID n_Version (u_Notification u) (agent_content ag) of
       Older \<Rightarrow> (Inl ErrUpdateIsOlder, ag)
     | Duplicate \<Rightarrow> (Inl ErrUpdateIsAlreadyExist, ag)
     | Accepted \<Rightarrow> (Inr (ag_updates ag (n_UUID (u_Notification u))),
         ag\<lparr>ag_updates := (ag_updates ag)(n_UUID (u_Notification u) \<mapsto> r)\<rparr>))"
proof (cases "ag_updates ag (n_UUID (u_Notification u))")
  case None
  then show ?thesis
    by (simp add: addUpdate_def verdict_of_def agent_content_def assms(2) Let_def)
next
  case (Some old)
  then obtain v where "ag_heap ag old = Some v" using heap_wf_lookup [OF assms(1)] by blast
  with Some show ?thesis
    by (simp add: addUpdate_def verdict_of_def agent_content_def assms(2) Let_def)
qed

lemma content_update:
  "ag_heap ag r = Some u \<Longrightarrow>
   agent_content (ag\<lparr>ag_updates := (ag_updates ag)(uuid \<mapsto> r)\<rparr>) = (agent_content ag)(uuid \<mapsto> u_Notification u)"
  by (rule ext) (auto simp: agent_content_def split: option.split)

lemma content_new_object:
  assumes "heap_wf ag" "new_object u ag = (r, ag1)"
  shows "agent_content ag1 = agent_content ag"
proof (rule ext)
  fix uuid
  have "ag_updates ag uuid \<noteq> Some r"
    using assms(1) new_object_sel(1) [OF assms(2)] unfolding heap_wf_def by blast
  then show "agent_content ag1 uuid = agent_content ag uuid"
    using new_object_sel(2,3) [OF assms(2)] by (auto simp: agent_content_def split: option.split)
qed

lemma heap_wf_new_object:
  "heap_wf ag \<Longrightarrow> new_object u ag = (r, ag1) \<Longrightarrow> heap_wf ag1"
  by (fastforce simp: new_object_def heap_wf_def less_Suc_eq)

text \<open>Offering a notification to the map: \<open>NewUpdate\<close>, then \<open>addUpdate\<close>.\<close>

definition agent_offer :: "notification \<Rightarrow> 'pub agent \<Rightarrow> verdict \<times> 'pub agent" where
  "agent_offer n ag =
     (case NewUpdate n ag of
        (r, ag1) \<Rightarrow>
          (case addUpdate r ag1 of
             (Inr old, ag2) \<Rightarrow> (Accepted, ag2)
           | (Inl e, ag2) \<Rightarrow> (if e = ErrUpdateIsOlder then Older else Duplicate, ag2)))"

lemma agent_offer_keep:
  assumes "heap_wf ag"
  shows "fst (agent_offer n ag) = verdict_of n_UUID n_Version n (agent_content ag)"
    and "agent_content (snd (agent_offer n ag)) = keep_newest n_UUID n_Version n (agent_content ag)"
    and "heap_wf (snd (agent_offer n ag))"
proof -
  obtain r ag1 where new: "NewUpdate n ag = (r, ag1)" by (cases "NewUpdate n ag")
  note sel = new_object_sel [OF new [unfolded NewUpdate_def]]
  obtain u where u: "ag_heap ag1 r = Some u" "u_Notification u = n" using sel(2) by simp
  have wf: "heap_wf ag1" and content: "agent_content ag1 = agent_content ag"
    using heap_wf_new_object content_new_object assms new unfolding NewUpdate_def by blast+
  note offer = addUpdate_verdict [OF wf u(1), unfolded u(2) content]
  have stored: "heap_wf (ag1\<lparr>ag_updates := (ag_updates ag1)(n_UUID n \<mapsto> r)\<rparr>)"
    using wf u by (simp add: heap_wf_def)
  show "fst (agent_offer n ag) = verdict_of n_UUID n_Version n (agent_content ag)"
    by (cases "verdict_of n_UUID n_Version n (agent_content ag)") (simp_all add: agent_offer_def new offer)
  show "agent_content (snd (agent_offer n ag)) = keep_newest n_UUID n_Version n (agent_content ag)"
    by (cases "verdict_of n_UUID n_Version n (agent_content ag)")
      (simp_all add: agent_offer_def new offer keep_newest_def content content_update [OF u(1)] u(2))
  show "heap_wf (snd (agent_offer n ag))"
    by (cases "verdict_of n_UUID n_Version n (agent_content ag)")
      (simp_all add: agent_offer_def new offer wf stored)
qed

interpretation agent_store: versioned_store n_UUID n_Version agent_content heap_wf agent_offer
  by unfold_locales (simp_all add: agent_offer_keep)

subsection \<open>Start\<close>

lemma Update_Verify_None: "Update_Verify nlib pub u = None \<longleftrightarrow> verifies nlib pub (u_Notification u)"
  by (simp add: Update_Verify_def split: option.split)

lemma Update_Verify_Some:
  "\<not> verifies nlib pub (u_Notification u) \<Longrightarrow> Update_Verify nlib pub u = Some ErrUpdateVerificationFailed"
  by (auto simp: Update_Verify_def)

lemma heap_keeps:
  "keeps_objects ag ag' \<Longrightarrow> ag_heap ag r = Some u \<Longrightarrow> \<exists>v. ag_heap ag' r = Some v \<and> u_Notification v = u_Notification u"
  by (auto simp: keeps_objects_def dest!: spec [of _ r])

lemma activate_final:
  assumes "agent_ok nlib ag" "ag_heap ag r = Some v" "u_Notification v = u_Notification u"
    and "verifies nlib (ag_PublicKey ag) (u_Notification u)"
    and "final_state (activate nlib env r u ag) = Some ag'"
  shows "agent_ok nlib ag' \<and> keeps_objects ag ag'"
  using assms
  by (auto simp: activate_def set_locked_Some keeps_objects_def intro!: agent_ok_set_update
      split: sum.splits)

lemma agent_ok_store:
  assumes "agent_ok nlib ag" "ag_heap ag r = Some u" "verifies nlib (ag_PublicKey ag) (u_Notification u)"
  shows "agent_ok nlib (ag\<lparr>ag_updates := (ag_updates ag)(n_UUID (u_Notification u) \<mapsto> r)\<rparr>)"
  using assms unfolding agent_ok_def heap_wf_def all_verified_def by (auto split: if_splits) blast

text \<open>The rest of \<open>Start\<close> once the update is in the map.\<close>

lemma replace_final:
  assumes "agent_ok nlib ag" "ag_heap ag r = Some v" "u_Notification v = u_Notification u"
    and "verifies nlib (ag_PublicKey ag) (u_Notification u)"
    and "final_state (bind_outcome (retire env old ag) (\<lambda>_ ag2. activate nlib env r u ag2)) = Some ag'"
  shows "agent_ok nlib ag' \<and> keeps_objects ag ag'"
proof (cases "final_state (retire env old ag) = Some ag'")
  case True
  then show ?thesis using agent_ok_retire [OF assms(1)] keeps_retire by blast
next
  case False
  then obtain ag2 where ag2: "final_state (retire env old ag) = Some ag2" "final_state (activate nlib env r u ag2) = Some ag'"
    using assms(5) by (auto simp: final_state_bind)
  have ok2: "agent_ok nlib ag2" and keep2: "keeps_objects ag ag2"
    using agent_ok_retire [OF assms(1) ag2(1)] keeps_retire [OF ag2(1)] by blast+
  obtain w where w: "ag_heap ag2 r = Some w" "u_Notification w = u_Notification u"
    using heap_keeps [OF keep2 assms(2)] assms(3) by auto
  have "ag_PublicKey ag2 = ag_PublicKey ag" using keep2 by (simp add: keeps_objects_def)
  then have "agent_ok nlib ag' \<and> keeps_objects ag2 ag'"
    using activate_final [OF ok2 w _ ag2(2)] assms(4) by simp
  then show ?thesis using keep2 keeps_objects_trans by blast
qed

text \<open>A \<open>Start\<close> that is refused only takes the lock and frees it.\<close>

lemma relock_final:
  assumes "agent_ok nlib ag" "ag_heap ag r = Some u"
  shows "agent_ok nlib (set_locked False r (set_update r (u\<lparr>u_locked := True\<rparr>) ag)) \<and>
    keeps_objects ag (set_locked False r (set_update r (u\<lparr>u_locked := True\<rparr>) ag))"
proof -
  have "agent_ok nlib (set_update r (u\<lparr>u_locked := True\<rparr>) ag)"
    by (rule agent_ok_set_update [OF assms]) simp_all
  moreover have "keeps_objects ag (set_update r (u\<lparr>u_locked := True\<rparr>) ag)"
    by (rule keeps_set_update [OF assms(2)]) simp
  ultimately show ?thesis using agent_ok_set_locked keeps_set_locked keeps_objects_trans by blast
qed

lemma Start_final:
  assumes ok: "agent_ok nlib ag" and u: "ag_heap ag r = Some u" "\<not> u_locked u"
    and final: "final_state (Update_Start nlib env r ag) = Some ag'"
  shows "agent_ok nlib ag' \<and> ag_PublicKey ag' = ag_PublicKey ag \<and> ag_next ag' = ag_next ag \<and>
    agent_content ag' =
      (if verifies nlib (ag_PublicKey ag) (u_Notification u)
       then keep_newest n_UUID n_Version (u_Notification u) (agent_content ag) else agent_content ag)"
proof -
  let ?n = "u_Notification u" and ?u0 = "u\<lparr>u_locked := True\<rparr>"
  let ?ag0 = "set_update r ?u0 ag"
  let ?v = "verdict_of n_UUID n_Version ?n (agent_content ag)"
  have ok0: "agent_ok nlib ?ag0" by (rule agent_ok_set_update [OF ok u(1)]) simp_all
  have keep0: "keeps_objects ag ?ag0" by (rule keeps_set_update [OF u(1)]) simp
  have heap0: "ag_heap ?ag0 r = Some ?u0" by simp
  have "heap_wf ?ag0" using ok0 by (simp add: agent_ok_def)
  note add = addUpdate_verdict [OF this heap0, simplified keeps_content [OF keep0]]
  show ?thesis
  proof (cases "verifies nlib (ag_PublicKey ag) ?n \<and> ?v = Accepted")
    case False
    have "ag' = set_locked False r ?ag0"
    proof (cases "verifies nlib (ag_PublicKey ag) ?n")
      case True
      note ver = iffD2 [OF Update_Verify_None True]
      have "?v = Older \<or> ?v = Duplicate" using True False by (cases ?v) simp_all
      then show ?thesis
        using final by (auto simp: Update_Start_def locking_def u ver set_locked_Some [OF u(1)] add)
    qed (use final in \<open>simp add: Update_Start_def locking_def u set_locked_Some [OF u(1)] Update_Verify_Some\<close>)
    then show ?thesis
      using relock_final [OF ok u(1)] False keeps_content by (auto simp: keeps_objects_def keep_newest_def)
  next
    case True
    let ?ag1 = "?ag0\<lparr>ag_updates := (ag_updates ?ag0)(n_UUID ?n \<mapsto> r)\<rparr>"
    have "agent_ok nlib ?ag1" using agent_ok_store [OF ok0 heap0] True by simp
    moreover have "final_state (bind_outcome (retire env (ag_updates ?ag0 (n_UUID ?n)) ?ag1)
        (\<lambda>_ ag2. activate nlib env r u ag2)) = Some ag'"
      using final True iffD2 [OF Update_Verify_None, of nlib "ag_PublicKey ag" u]
      by (simp add: Update_Start_def locking_def u set_locked_Some [OF u(1)] add)
    ultimately have "agent_ok nlib ag' \<and> keeps_objects ?ag1 ag'"
      using replace_final [of nlib ?ag1 r ?u0 u] True by simp
    moreover have "agent_content ?ag1 = (agent_content ag)(n_UUID ?n \<mapsto> ?n)"
      using content_update [OF heap0] keeps_content [OF keep0] by simp
    ultimately show ?thesis
      using keeps_content [of ?ag1 ag'] True by (simp add: keeps_objects_def keep_newest_def)
  qed
qed

lemma offer_final:
  assumes ok: "agent_ok nlib ag" and final: "final_state (offer_notification nlib env n ag) = Some ag'"
  shows "agent_ok nlib ag' \<and> ag_PublicKey ag' = ag_PublicKey ag \<and>
    agent_content ag' = (if verifies nlib (ag_PublicKey ag) n
      then keep_newest n_UUID n_Version n (agent_content ag) else agent_content ag)"
proof -
  obtain r ag1 where new: "NewUpdate n ag = (r, ag1)" by (cases "NewUpdate n ag")
  note sel = new_object_sel [OF new [unfolded NewUpdate_def]]
  obtain u where u: "ag_heap ag1 r = Some u" "\<not> u_locked u" "u_Notification u = n" using sel(2) by simp
  have ok1: "agent_ok nlib ag1"
    using agent_ok_new_object [OF ok] new unfolding NewUpdate_def by (metis snd_conv update.select_convs(8))
  have "agent_content ag1 = agent_content ag"
    using content_new_object ok new unfolding NewUpdate_def agent_ok_def by blast
  moreover have "final_state (Update_Start nlib env r ag1) = Some ag'"
    using final by (simp add: offer_notification_def new)
  ultimately show ?thesis
    using Start_final [OF ok1 u(1,2)] u(3) sel(5) by simp
qed

end
