(* ===== verification/Agent_Behaviour.thy ===== *)
theory Agent_Behaviour
  imports Agent_Safety
begin

section \<open>What the agent's operations do\<close>

text \<open>
  \<open>Start\<close> returns and releases its lock when no lock was held; how a newer update replaces an older
  one and what a failed start leaves behind; the monitor's turns: who is gossiped and deployed, how
  often a failing deployment is tried, and the lock a stopped monitor keeps.
\<close>

subsection \<open>Locks and termination of Start\<close>

definition no_locks :: "'pub agent \<Rightarrow> bool" where
  "no_locks ag \<longleftrightarrow> (\<forall>r u. ag_heap ag r = Some u \<longrightarrow> \<not> u_locked u)"

text \<open>The state after an update has been stopped and deleted.\<close>

definition retired :: "update_env \<Rightarrow> nat \<Rightarrow> update \<Rightarrow> 'pub agent \<Rightarrow> 'pub agent" where
  "retired env r u ag =
     (let data = path_Join (ag_dataDir ag) (ti_Name (n_Info (u_Notification u)));
          meta = MetadataFilename (u_Notification u) ag;
          drops = (case u_torrent u of None \<Rightarrow> [] | Some h \<Rightarrow> [DropTorrent h]);
          ag1 = emit (drops @ [RemoveAll data, RemoveAll meta])
                  (set_update r (u\<lparr>u_Stopped := True, u_torrent := None\<rparr>) ag)
      in if ue_rm_meta env = None then ag1\<lparr>ag_disk := (ag_disk ag)(meta := None)\<rparr> else ag1)"

lemma retired_sel:
  "ag_heap (retired env r u ag) = (ag_heap ag)(r \<mapsto> u\<lparr>u_Stopped := True, u_torrent := None\<rparr>)"
  "ag_updates (retired env r u ag) = ag_updates ag" "ag_PublicKey (retired env r u ag) = ag_PublicKey ag"
  by (simp_all add: retired_def Let_def)

lemma emit_emit: "emit as (emit bs ag) = emit (bs @ as) ag"
  by (simp add: emit_def)

lemma emit_Nil [simp]: "emit [] ag = ag"
  by (simp add: emit_def)

lemma Delete_stopped:
  assumes "ag_heap ag r = Some u" "\<not> u_locked u" "u_Stopped u"
  shows "\<exists>err. Update_Delete env r ag = Done err
    (let data = path_Join (ag_dataDir ag) (ti_Name (n_Info (u_Notification u)));
         meta = MetadataFilename (u_Notification u) ag;
         ag1 = emit [RemoveAll data, RemoveAll meta] ag
     in if ue_rm_meta env = None then ag1\<lparr>ag_disk := (ag_disk ag)(meta := None)\<rparr> else ag1)"
  using assms by (simp add: Update_Delete_def locking_def Let_def split: option.split)

lemma retire_Some:
  assumes "ag_heap ag r = Some u" "\<not> u_locked u"
  shows "retire env (Some r) ag = Done () (retired env r u ag)"
proof -
  let ?u1 = "u\<lparr>u_Stopped := True, u_torrent := None\<rparr>"
  let ?drops = "case u_torrent u of None \<Rightarrow> [] | Some h \<Rightarrow> [DropTorrent h]"
  let ?ag1 = "emit ?drops (set_update r ?u1 ag)"
  have stop: "Update_Stop r ag = Done () ?ag1"
    using Stop_Done [OF assms] by (simp add: emit_Nil split: option.split)
  have heap: "ag_heap ?ag1 r = Some ?u1" by simp
  obtain err where del: "Update_Delete env r ?ag1 = Done err
    (let data = path_Join (ag_dataDir ?ag1) (ti_Name (n_Info (u_Notification ?u1)));
         meta = MetadataFilename (u_Notification ?u1) ?ag1;
         ag1 = emit [RemoveAll data, RemoveAll meta] ?ag1
     in if ue_rm_meta env = None then ag1\<lparr>ag_disk := (ag_disk ?ag1)(meta := None)\<rparr> else ag1)"
    using Delete_stopped [OF heap, of env] assms(2) by auto
  have meta: "MetadataFilename n ?ag1 = MetadataFilename n ag" for n
    by (simp add: MetadataFilename_def)
  show ?thesis
    by (simp add: retire_def stop del retired_def Let_def meta emit_emit)
qed

text \<open>Nothing in the map is the object itself: it is new.\<close>

definition fresh_object :: "nat \<Rightarrow> 'pub agent \<Rightarrow> bool" where
  "fresh_object r ag \<longleftrightarrow> (\<forall>uuid. ag_updates ag uuid \<noteq> Some r)"

lemma Start_accepted:
  assumes wf: "heap_wf ag" and u: "ag_heap ag r = Some u" "\<not> u_locked u"
    and fresh: "fresh_object r ag" and locks: "no_locks ag"
    and ver: "verifies nlib (ag_PublicKey ag) (u_Notification u)"
    and new: "verdict_of n_UUID n_Version (u_Notification u) (agent_content ag) = Accepted"
  shows "Update_Start nlib env r ag =
    (let n = u_Notification u;
         ag1 = (set_update r (u\<lparr>u_locked := True\<rparr>) ag)\<lparr>ag_updates := (ag_updates ag)(n_UUID n \<mapsto> r)\<rparr>
     in activate nlib env r u
          (case ag_updates ag (n_UUID n) of
             None \<Rightarrow> ag1
           | Some old \<Rightarrow> retired env old (the (ag_heap ag old)) ag1))"
proof -
  let ?n = "u_Notification u" and ?u0 = "u\<lparr>u_locked := True\<rparr>"
  let ?ag0 = "set_update r ?u0 ag"
  let ?ag1 = "?ag0\<lparr>ag_updates := (ag_updates ag)(n_UUID ?n \<mapsto> r)\<rparr>"
  have keep0: "keeps_objects ag ?ag0" by (rule keeps_set_update [OF u(1)]) simp
  have wf0: "heap_wf ?ag0" using wf u by (fastforce simp: heap_wf_def)
  have "addUpdate r ?ag0 = (Inr (ag_updates ag (n_UUID ?n)), ?ag1)"
    using addUpdate_verdict [OF wf0, of r ?u0] new keeps_content [OF keep0] by simp
  then have start: "Update_Start nlib env r ag =
      bind_outcome (retire env (ag_updates ag (n_UUID ?n)) ?ag1) (\<lambda>_ ag2. activate nlib env r u ag2)"
    by (simp add: Update_Start_def locking_def u set_locked_Some [OF u(1)] Let_def
        iffD2 [OF Update_Verify_None ver])
  show ?thesis
  proof (cases "ag_updates ag (n_UUID ?n)")
    case None
    then show ?thesis by (simp add: start retire_def)
  next
    case (Some old)
    then obtain v where v: "ag_heap ag old = Some v" using heap_wf_lookup [OF wf] by blast
    have "old \<noteq> r" using fresh Some by (auto simp: fresh_object_def)
    then have "ag_heap ?ag1 old = Some v" using v by simp
    moreover have "\<not> u_locked v" using locks v by (auto simp: no_locks_def)
    ultimately show ?thesis using Some v by (simp add: start retire_Some)
  qed
qed

lemma Start_refused:
  assumes "heap_wf ag" "ag_heap ag r = Some u" "\<not> u_locked u"
    and "verifies nlib (ag_PublicKey ag) (u_Notification u)"
    and "verdict_of n_UUID n_Version (u_Notification u) (agent_content ag) = v" "v \<noteq> Accepted"
  shows "Update_Start nlib env r ag =
    Done (Some (if v = Older then ErrUpdateIsOlder else ErrUpdateIsAlreadyExist)) ag"
proof -
  let ?ag0 = "set_update r (u\<lparr>u_locked := True\<rparr>) ag"
  have keep0: "keeps_objects ag ?ag0" by (rule keeps_set_update [OF assms(2)]) simp
  have wf0: "heap_wf ?ag0" using assms(1,2) by (fastforce simp: heap_wf_def)
  have add: "addUpdate r ?ag0 =
      (Inl (if v = Older then ErrUpdateIsOlder else ErrUpdateIsAlreadyExist), ?ag0)"
    using addUpdate_verdict [OF wf0, of r "u\<lparr>u_locked := True\<rparr>"] assms(5,6) keeps_content [OF keep0]
    by (cases v) simp_all
  have "u\<lparr>u_locked := False\<rparr> = u" using assms(3) by (cases u) simp
  then have "set_locked False r ?ag0 = ag"
    using assms(2) by (simp add: set_locked_def set_update_def fun_upd_idem)
  then show ?thesis
    by (simp add: Update_Start_def locking_def assms(2,3) set_locked_Some [OF assms(2)] Let_def
        iffD2 [OF Update_Verify_None assms(4)] add)
qed

lemma Start_unverified:
  assumes "ag_heap ag r = Some u" "\<not> u_locked u" "\<not> verifies nlib (ag_PublicKey ag) (u_Notification u)"
  shows "Update_Start nlib env r ag = Done (Some ErrUpdateVerificationFailed) ag"
proof -
  have "u\<lparr>u_locked := False\<rparr> = u" using assms(2) by (cases u) simp
  then have "set_locked False r (set_update r (u\<lparr>u_locked := True\<rparr>) ag) = ag"
    using assms(1) by (simp add: set_locked_def set_update_def fun_upd_idem)
  then show ?thesis
    by (simp add: Update_Start_def locking_def assms(1,2) set_locked_Some [OF assms(1)] Let_def
        Update_Verify_Some [OF assms(3)])
qed

lemma no_locks_activate:
  assumes "\<And>r' v. r' \<noteq> r \<Longrightarrow> ag_heap ag r' = Some v \<Longrightarrow> \<not> u_locked v"
  shows "\<exists>err ag'. activate nlib env r u ag = Done err ag' \<and> no_locks ag'"
proof -
  have "no_locks (set_locked False r ag)"
  proof (cases "ag_heap ag r")
    case None
    then show ?thesis using assms by (simp add: no_locks_def set_locked_def) (metis option.distinct(1))
  qed (use assms in \<open>auto simp: no_locks_def set_locked_def\<close>)
  moreover have "no_locks (emit acts (set_update r (u\<lparr>u_torrent := Some h, u_Stopped := False, u_locked := False\<rparr>) ag))"
    for acts h using assms by (simp add: no_locks_def)
  ultimately show ?thesis by (simp add: activate_def split: sum.split)
qed

lemma Start_returns:
  assumes "heap_wf ag" "no_locks ag" "ag_heap ag r = Some u" "fresh_object r ag"
  shows "\<exists>err ag'. Update_Start nlib env r ag = Done err ag' \<and> no_locks ag'"
proof -
  have u: "\<not> u_locked u" using assms(2,3) by (auto simp: no_locks_def)
  consider "\<not> verifies nlib (ag_PublicKey ag) (u_Notification u)"
    | "verifies nlib (ag_PublicKey ag) (u_Notification u)"
      "verdict_of n_UUID n_Version (u_Notification u) (agent_content ag) \<noteq> Accepted"
    | "verifies nlib (ag_PublicKey ag) (u_Notification u)"
      "verdict_of n_UUID n_Version (u_Notification u) (agent_content ag) = Accepted" by blast
  then show ?thesis
  proof cases
    case 1
    then show ?thesis using Start_unverified [OF assms(3) u] assms(2) by blast
  next
    case 2
    then show ?thesis using Start_refused [OF assms(1,3) u] assms(2) by blast
  next
    case 3
    let ?ag1 = "(set_update r (u\<lparr>u_locked := True\<rparr>) ag)\<lparr>ag_updates := (ag_updates ag)(n_UUID (u_Notification u) \<mapsto> r)\<rparr>"
    let ?ag2 = "case ag_updates ag (n_UUID (u_Notification u)) of None \<Rightarrow> ?ag1
      | Some old \<Rightarrow> retired env old (the (ag_heap ag old)) ?ag1"
    have "\<not> u_locked v" if "r' \<noteq> r" "ag_heap ?ag2 r' = Some v" for r' v
    proof (cases "ag_updates ag (n_UUID (u_Notification u))")
      case None
      then show ?thesis using that assms(2) by (auto simp: no_locks_def)
    next
      case (Some old)
      then obtain w where "ag_heap ag old = Some w" using heap_wf_lookup [OF assms(1)] by blast
      then show ?thesis using that assms(2) Some
        by (auto simp: no_locks_def retired_sel split: if_splits)
    qed
    then show ?thesis
      using no_locks_activate [of r ?ag2 nlib env u] Start_accepted [OF assms(1,3) u assms(4,2) 3]
      by (simp add: Let_def)
  qed
qed

text \<open>A notification that is offered is always dealt with.\<close>

lemma new_object_fresh:
  assumes "heap_wf ag" "new_object u ag = (r, ag1)"
  shows "fresh_object r ag1"
proof -
  have "ag_updates ag uuid \<noteq> Some r" for uuid
    using assms new_object_sel(1) [OF assms(2)] unfolding heap_wf_def by blast
  then show ?thesis using new_object_sel(3) [OF assms(2)] by (simp add: fresh_object_def)
qed

lemma offer_returns:
  assumes "heap_wf ag" "no_locks ag"
  shows "\<exists>err ag'. offer_notification nlib env n ag = Done err ag' \<and> no_locks ag'"
proof -
  obtain r ag1 where new: "NewUpdate n ag = (r, ag1)" by (cases "NewUpdate n ag")
  note sel = new_object_sel [OF new [unfolded NewUpdate_def]]
  obtain u where u: "ag_heap ag1 r = Some u" "\<not> u_locked u" using sel(2) by simp
  have "no_locks ag1" using assms(2) sel(2) by (auto simp: no_locks_def)
  then show ?thesis
    using Start_returns [of ag1 r u nlib env] heap_wf_new_object [OF assms(1) new [unfolded NewUpdate_def]]
      new_object_fresh [OF assms(1) new [unfolded NewUpdate_def]] u
    by (simp add: offer_notification_def new)
qed

subsection \<open>Replacing, and failing to start\<close>

lemma offer_known:
  assumes "heap_wf ag" "verifies nlib (ag_PublicKey ag) n"
    and "agent_content ag (n_UUID n) = Some m" "n_Version n \<le> n_Version m"
  shows "offer_notification nlib env n ag =
    Done (Some (if n_Version n < n_Version m then ErrUpdateIsOlder else ErrUpdateIsAlreadyExist)) (snd (NewUpdate n ag))"
proof -
  obtain r ag1 where new: "NewUpdate n ag = (r, ag1)" by (cases "NewUpdate n ag")
  note new' = new [unfolded NewUpdate_def]
  obtain u where u: "ag_heap ag1 r = Some u" "\<not> u_locked u" "u_Notification u = n"
    using new_object_sel(2) [OF new'] by simp
  let ?v = "if n_Version n < n_Version m then Older else Duplicate"
  have "verdict_of n_UUID n_Version n (agent_content ag1) = ?v"
    using assms(3,4) content_new_object [OF assms(1) new'] by (simp add: verdict_of_def)
  then have "Update_Start nlib env r ag1 =
      Done (Some (if ?v = Older then ErrUpdateIsOlder else ErrUpdateIsAlreadyExist)) ag1"
    using Start_refused [OF heap_wf_new_object [OF assms(1) new'] u(1,2), of nlib ?v env]
      assms(2) new_object_sel(5) [OF new'] by (simp add: u(3))
  then show ?thesis by (simp add: offer_notification_def new)
qed

lemma offer_accepted:
  assumes "heap_wf ag" "no_locks ag" "verifies nlib (ag_PublicKey ag) n"
    and "verdict_of n_UUID n_Version n (agent_content ag) = Accepted"
  obtains r ag1 u where "NewUpdate n ag = (r, ag1)" "ag_heap ag1 r = Some u" "u_Notification u = n"
    "u_torrent u = None" "r = ag_next ag"
    "offer_notification nlib env n ag = activate nlib env r u
       (let ag2 = (set_update r (u\<lparr>u_locked := True\<rparr>) ag1)\<lparr>ag_updates := (ag_updates ag)(n_UUID n \<mapsto> r)\<rparr> in
        case ag_updates ag (n_UUID n) of
          None \<Rightarrow> ag2
        | Some old \<Rightarrow> retired env old (the (ag_heap ag old)) ag2)"
proof -
  obtain r ag1 where new: "NewUpdate n ag = (r, ag1)" by (cases "NewUpdate n ag")
  note new' = new [unfolded NewUpdate_def]
  note sel = new_object_sel [OF new']
  obtain u where u: "ag_heap ag1 r = Some u" "\<not> u_locked u" "u_Notification u = n" "u_torrent u = None"
    using sel(2) by simp
  have heap: "ag_heap ag1 old = ag_heap ag old" if "ag_updates ag uuid = Some old" for old uuid
    using heap_wf_lookup [OF assms(1) that] assms(1) sel(1,2) by (auto simp: heap_wf_def)
  have locks: "no_locks ag1" using assms(2) sel(2) by (auto simp: no_locks_def)
  have "Update_Start nlib env r ag1 = activate nlib env r u
       (let ag2 = (set_update r (u\<lparr>u_locked := True\<rparr>) ag1)\<lparr>ag_updates := (ag_updates ag)(n_UUID n \<mapsto> r)\<rparr> in
        case ag_updates ag (n_UUID n) of
          None \<Rightarrow> ag2
        | Some old \<Rightarrow> retired env old (the (ag_heap ag old)) ag2)"
    using Start_accepted [OF heap_wf_new_object [OF assms(1) new'] u(1,2) new_object_fresh [OF assms(1) new'] locks, of nlib env]
      assms(3,4) u(3) sel(3,5) heap content_new_object [OF assms(1) new']
    by (simp add: Let_def split: option.split)
  then show thesis
    using that [OF new u(1,3,4)] sel(1) by (simp add: offer_notification_def new)
qed

text \<open>An accepted update runs; the one it replaces is stopped, its torrent dropped, its files removed.\<close>

lemma newer_replaces:
  assumes "heap_wf ag" "no_locks ag" "verifies nlib (ag_PublicKey ag) n"
    and "ag_updates ag (n_UUID n) = Some old" "ag_heap ag old = Some v"
    and "n_Version (u_Notification v) < n_Version n"
    and "torrentMetainfo nlib n = Inr mi" "ue_add env = Inr h"
  shows "\<exists>ag' r u w.
    offer_notification nlib env n ag = Done None ag' \<and>
    ag_updates ag' (n_UUID n) = Some r \<and> ag_heap ag' r = Some u \<and> u_Notification u = n \<and>
    u_torrent u = Some h \<and> \<not> u_Stopped u \<and> \<not> u_locked u \<and>
    ag_heap ag' old = Some w \<and> u_Stopped w \<and> u_torrent w = None \<and>
    ag_log ag' = ag_log ag @ (case u_torrent v of None \<Rightarrow> [] | Some g \<Rightarrow> [DropTorrent g]) @
      [RemoveAll (path_Join (ag_dataDir ag) (ti_Name (n_Info (u_Notification v)))),
       RemoveAll (MetadataFilename (u_Notification v) ag), AddTorrent mi, SpawnMonitor r]"
proof -
  have acc: "verdict_of n_UUID n_Version n (agent_content ag) = Accepted"
    using assms(4,5) less_imp_neq [OF assms(6)] leD [OF less_imp_le [OF assms(6)]]
    by (simp add: verdict_of_def agent_content_def)
  obtain r ag1 u where new: "NewUpdate n ag = (r, ag1)" and u: "ag_heap ag1 r = Some u" "u_Notification u = n"
    and r: "r = ag_next ag"
    and offer: "offer_notification nlib env n ag = activate nlib env r u
       (let ag2 = (set_update r (u\<lparr>u_locked := True\<rparr>) ag1)\<lparr>ag_updates := (ag_updates ag)(n_UUID n \<mapsto> r)\<rparr> in
        case ag_updates ag (n_UUID n) of
          None \<Rightarrow> ag2
        | Some old \<Rightarrow> retired env old (the (ag_heap ag old)) ag2)"
    using offer_accepted [OF assms(1-3) acc, of env thesis] by blast
  have "old < ag_next ag" using assms(1,5) by (auto simp: heap_wf_def)
  then have ne: "old \<noteq> r" using r by simp
  have dirs: "ag_dataDir ag1 = ag_dataDir ag" "ag_metadataDir ag1 = ag_metadataDir ag" "ag_log ag1 = ag_log ag"
    using new by (auto simp: NewUpdate_def new_object_def)
  define ag2 where "ag2 = retired env old v
    ((set_update r (u\<lparr>u_locked := True\<rparr>) ag1)\<lparr>ag_updates := (ag_updates ag)(n_UUID n \<mapsto> r)\<rparr>)"
  have ag2: "ag_updates ag2 (n_UUID n) = Some r"
    "ag_heap ag2 old = Some (v\<lparr>u_Stopped := True, u_torrent := None\<rparr>)"
    "ag_log ag2 = ag_log ag @ (case u_torrent v of None \<Rightarrow> [] | Some g \<Rightarrow> [DropTorrent g]) @
      [RemoveAll (path_Join (ag_dataDir ag) (ti_Name (n_Info (u_Notification v)))),
       RemoveAll (MetadataFilename (u_Notification v) ag)]"
    by (simp_all add: ag2_def retired_sel dirs) (simp add: retired_def Let_def MetadataFilename_def dirs)
  have "offer_notification nlib env n ag = Done None (emit [AddTorrent mi, SpawnMonitor r]
      (set_update r (u\<lparr>u_torrent := Some h, u_Stopped := False, u_locked := False\<rparr>) ag2))"
    by (simp add: offer assms(4,5,7,8) u(2) activate_def ag2_def Let_def)
  then show ?thesis
    using ag2 ne u(2) by simp
qed

text \<open>
  When the torrent client refuses the torrent, the update stays in the map without a torrent, and the
  same notification is refused from then on.
\<close>

lemma failed_start_blocks:
  assumes "heap_wf ag" "no_locks ag" "verifies nlib (ag_PublicKey ag) n"
    and "verdict_of n_UUID n_Version n (agent_content ag) = Accepted" "ag_updates ag (n_UUID n) = None"
    and "torrentMetainfo nlib n = Inr mi" "ue_add env = Inl e"
  shows "\<exists>ag' r u. offer_notification nlib env n ag = Done (Some (ErrMsg ''failed adding torrent'')) ag' \<and>
    ag_updates ag' (n_UUID n) = Some r \<and> ag_heap ag' r = Some u \<and> u_torrent u = None \<and> u_Stopped u \<and>
    ag_log ag' = ag_log ag \<and>
    (\<forall>env'. offer_notification nlib env' n ag' = Done (Some ErrUpdateIsAlreadyExist) (snd (NewUpdate n ag')))"
proof -
  obtain r ag1 where new: "NewUpdate n ag = (r, ag1)" by (cases "NewUpdate n ag")
  note new' = new [unfolded NewUpdate_def]
  note sel = new_object_sel [OF new']
  obtain u where u: "ag_heap ag1 r = Some u" "u_Notification u = n" "u_torrent u = None"
    and offer: "offer_notification nlib env n ag = activate nlib env r u
      ((set_update r (u\<lparr>u_locked := True\<rparr>) ag1)\<lparr>ag_updates := (ag_updates ag)(n_UUID n \<mapsto> r)\<rparr>)"
    using offer_accepted [OF assms(1-4), of env thesis] assms(5) new by (auto simp: Let_def)
  have stopped: "u_Stopped u" "\<not> u_locked u" using u(1) sel(2) by auto
  let ?ag' = "(set_update r u ag1)\<lparr>ag_updates := (ag_updates ag)(n_UUID n \<mapsto> r)\<rparr>"
  have uu: "u\<lparr>u_locked := False\<rparr> = u" using stopped(2) by (cases u) simp
  have "set_locked False r ((set_update r (u\<lparr>u_locked := True\<rparr>) ag1)\<lparr>ag_updates := (ag_updates ag)(n_UUID n \<mapsto> r)\<rparr>) = ?ag'"
    by (simp add: set_locked_def set_update_def uu)
  then have res: "offer_notification nlib env n ag = Done (Some (ErrMsg ''failed adding torrent'')) ?ag'"
    by (simp add: offer activate_def u(2) assms(6,7))
  have "heap_wf ?ag'"
    using heap_wf_new_object [OF assms(1) new'] u(1,2) sel(3)
    by (auto simp: heap_wf_def fun_upd_idem)
  moreover have "agent_content ?ag' (n_UUID n) = Some n" by (simp add: agent_content_def u(2))
  moreover have "verifies nlib (ag_PublicKey ?ag') n" using assms(3) sel(5) by simp
  ultimately have again: "offer_notification nlib env' n ?ag' = Done (Some ErrUpdateIsAlreadyExist) (snd (NewUpdate n ?ag'))" for env'
    using offer_known [of ?ag' nlib n n env'] by simp
  show ?thesis
    by (rule exI [of _ ?ag'], rule exI [of _ r], rule exI [of _ u])
      (use res again u(3) stopped(1) sel(7) in simp)
qed

subsection \<open>The monitor\<close>

lemma monitor_ends:
  assumes "ag_heap ag r = Some u" "\<not> u_locked u" "u_Stopped u \<or> u_torrent u = None"
  shows "monitor_step lib nlib js env toSave r ag = Done False (set_update r (u\<lparr>u_locked := True\<rparr>) ag)"
  using assms by (auto simp: monitor_step_def monitor_turn_def locking_def set_locked_Some split: option.split)

text \<open>
  The monitor of a stopped update ends with the lock held.  If it runs between \<open>Stop\<close> and \<open>Delete\<close>,
  the goroutine that deletes the update waits for ever.
\<close>

lemma stop_monitor_delete:
  assumes "ag_heap ag r = Some u" "\<not> u_locked u"
  shows "\<exists>ag1 ag2. Update_Stop r ag = Done () ag1 \<and>
    monitor_step lib nlib js menv toSave r ag1 = Done False ag2 \<and> Update_Delete env r ag2 = Blocked ag2"
proof -
  let ?u1 = "u\<lparr>u_Stopped := True, u_torrent := None\<rparr>"
  have "\<exists>acts. Update_Stop r ag = Done () (emit acts (set_update r ?u1 ag))"
  proof (cases "u_torrent u")
    case None
    then show ?thesis by (intro exI [of _ "[]"]) (simp add: Stop_Done [OF assms] emit_Nil)
  next
    case (Some h)
    then show ?thesis by (intro exI [of _ "[DropTorrent h]"]) (simp add: Stop_Done [OF assms])
  qed
  then obtain acts where stop: "Update_Stop r ag = Done () (emit acts (set_update r ?u1 ag))" ..
  let ?ag1 = "emit acts (set_update r ?u1 ag)"
  have "monitor_step lib nlib js menv toSave r ?ag1 = Done False (set_update r (?u1\<lparr>u_locked := True\<rparr>) ?ag1)"
    by (rule monitor_ends) (use assms(2) in simp_all)
  moreover have "Update_Delete env r (set_update r (?u1\<lparr>u_locked := True\<rparr>) ?ag1) =
      Blocked (set_update r (?u1\<lparr>u_locked := True\<rparr>) ?ag1)"
    by (simp add: Update_Delete_def locking_def)
  ultimately show ?thesis using stop by blast
qed

lemma monitor_no_overlay:
  assumes "ag_Overlay ag = None" "ag_heap ag r = Some u" "\<not> u_locked u" "\<not> u_Stopped u"
    and "u_torrent u = Some h" "\<not> u_Sent u"
    and "nl_bencode nlib (u_Notification u) = Inr b" "length b \<le> stunMaxPacketDataSize"
  shows "monitor_step lib nlib js env toSave r ag = Panicked"
  using assms by (simp add: monitor_step_def monitor_turn_def locking_def monitor_send_def Notification_Write_def agent_send_def)

lemma Save_final:
  assumes "final_state (Update_Save js openf wrote r ag) = Some ag'"
  shows "ag_heap ag' = ag_heap ag" "ag_updates ag' = ag_updates ag" "ag_next ag' = ag_next ag"
    "ag_PublicKey ag' = ag_PublicKey ag" "ag_log ag' = ag_log ag"
  using assms by (auto simp: Update_Save_def Let_def split: option.splits sum.splits if_splits prod.splits)

lemma Update_deploy_frame:
  "u_Notification (fst (Update_deploy env now dir files u)) = u_Notification u"
  "u_torrent (fst (Update_deploy env now dir files u)) = u_torrent u"
  "u_locked (fst (Update_deploy env now dir files u)) = u_locked u"
  "u_Sent (fst (Update_deploy env now dir files u)) = u_Sent u"
  by (simp_all add: Update_deploy_def Let_def split: prod.split)

lemma monitor_progress_frame:
  "u_Notification (fst (monitor_progress env h ts u ag)) = u_Notification u"
  "u_torrent (fst (monitor_progress env h ts u ag)) = u_torrent u"
  "u_locked (fst (monitor_progress env h ts u ag)) = u_locked u"
  "u_Sent (fst (monitor_progress env h ts u ag)) = u_Sent u"
  using Update_deploy_frame [of "me_deploy env" "me_now env" "ag_dataDir ag" "me_files env" "u\<lparr>u_Missing := me_missing env\<rparr>"]
  by (auto simp: monitor_progress_def Let_def split: prod.split)

lemma monitor_send_frame:
  "monitor_send lib nlib env ts u ag = Some (u1, s1, acts) \<Longrightarrow>
   u_Notification u1 = u_Notification u \<and> u_torrent u1 = u_torrent u"
  by (auto simp: monitor_send_def split: option.splits if_splits prod.splits)

lemma monitor_final:
  assumes "final_state (monitor_step lib nlib js env toSave r ag) = Some ag'"
  obtains "ag' = ag"
  | u where "ag_heap ag r = Some u" "ag' = set_update r (u\<lparr>u_locked := True\<rparr>) ag"
  | u u' h acts where "ag_heap ag r = Some u" "u_torrent u = Some h" "u_Notification u' = u_Notification u"
      "u_torrent u' = u_torrent u" "ag_heap ag' = (ag_heap ag)(r \<mapsto> u')" "ag_updates ag' = ag_updates ag"
      "ag_next ag' = ag_next ag" "ag_PublicKey ag' = ag_PublicKey ag" "ag_log ag' = ag_log ag @ acts"
proof (cases "\<exists>u h. ag_heap ag r = Some u \<and> \<not> u_locked u \<and> \<not> u_Stopped u \<and> u_torrent u = Some h")
  case True
  then obtain u h where u: "ag_heap ag r = Some u" "\<not> u_locked u" "\<not> u_Stopped u" "u_torrent u = Some h" by blast
  then obtain u1 s1 acts1 where send: "monitor_send lib nlib env toSave u ag = Some (u1, s1, acts1)"
    using assms by (cases "monitor_send lib nlib env toSave u ag") (auto simp: monitor_step_def monitor_turn_def locking_def)
  obtain u2 s2 acts2 where prog: "monitor_progress env h s1 u1 ag = (u2, s2, acts2)"
    by (cases "monitor_progress env h s1 u1 ag") auto
  have same: "u_Notification u2 = u_Notification u" "u_torrent u2 = u_torrent u"
    using monitor_progress_frame [of env h s1 u1 ag] monitor_send_frame [OF send] by (simp_all add: prog)
  let ?ag2 = "emit (acts1 @ acts2) (set_update r u2 ag)"
  have "ag' = ?ag2 \<or> final_state (Update_Save js (me_open env) (me_wrote env) r ?ag2) = Some ag'"
    using assms u by (auto simp: monitor_step_def monitor_turn_def locking_def send prog Let_def final_state_bind split: if_splits)
  then have "ag_heap ag' = (ag_heap ag)(r \<mapsto> u2) \<and> ag_updates ag' = ag_updates ag \<and> ag_next ag' = ag_next ag \<and>
      ag_PublicKey ag' = ag_PublicKey ag \<and> ag_log ag' = ag_log ag @ (acts1 @ acts2)"
    using Save_final [of js "me_open env" "me_wrote env" r ?ag2 ag'] by auto
  with that(3) [OF u(1,4) same] show thesis by blast
next
  case False
  then show thesis
    using assms that(1,2) monitor_ends [of ag r _ lib nlib js env toSave]
    by (cases "ag_heap ag r") (auto simp: monitor_step_def monitor_turn_def locking_def set_locked_Some split: option.splits if_splits)
qed

lemma agent_ok_monitor:
  assumes "agent_ok nlib ag" "final_state (monitor_step lib nlib js env toSave r ag) = Some ag'"
  shows "agent_ok nlib ag'"
  using assms(2)
proof (cases rule: monitor_final)
  case (2 u)
  then show ?thesis using agent_ok_set_update [OF assms(1) 2(1)] by simp
next
  case (3 u u' h acts)
  then have "agent_ok nlib (set_update r u' ag)"
    by (intro agent_ok_set_update [OF assms(1) 3(1)]) simp_all
  moreover have "agent_ok nlib ag' = agent_ok nlib (set_update r u' ag)"
    by (rule agent_ok_cong) (use 3 in simp_all)
  ultimately show ?thesis by simp
qed (use assms(1) in simp)

text \<open>Only an update that verifies is gossiped, downloaded or deployed.\<close>

lemma monitor_acts_verified:
  assumes "agent_ok nlib ag" "final_state (monitor_step lib nlib js env toSave r ag) = Some ag'"
    and "ag_log ag' \<noteq> ag_log ag"
  shows "\<exists>u. ag_heap ag r = Some u \<and> verifies nlib (ag_PublicKey ag) (u_Notification u)"
  using assms(2)
proof (cases rule: monitor_final)
  case (3 u u' h acts)
  then have "verifies nlib (ag_PublicKey ag) (u_Notification u)"
    using assms(1) unfolding agent_ok_def all_verified_def by (metis option.distinct(1))
  with 3(1) show ?thesis by blast
qed (use assms(3) in auto)

subsection \<open>Deployment\<close>

lemma deploy_over_limit:
  "u_DeployFails u > DeployFailsLimit \<Longrightarrow> Update_deploy env now dir files u = (u, [])"
  by (simp add: Update_deploy_def)

text \<open>A sequence of turns of the monitor that deploy, with what each of them runs.\<close>

fun deploy_turns :: "string \<Rightarrow> (deploy_env \<times> int \<times> string list) list \<Rightarrow> update \<Rightarrow> deploy_action list list" where
  "deploy_turns dir [] u = []"
| "deploy_turns dir ((env, now, files) # ts) u =
     (case Update_deploy env now dir files u of (u', acts) \<Rightarrow> acts # deploy_turns dir ts u')"

text \<open>A shell update whose deployment always fails: which turns run what.\<close>

lemma deploy_turns_idle: "u_DeployFails u > DeployFailsLimit \<Longrightarrow> deploy_turns dir ts u = replicate (length ts) []"
  by (induction ts) (auto simp: deploy_over_limit)

lemma deploy_turns_failing:
  assumes "\<forall>(env, now, files) \<in> set ts. fst (deploy_files (shell_deploy env) dir files) \<noteq> None"
    and "n_UUID (u_Notification u) = UUIDShell" "u_DeployFails u = DeployFailsLimit + 1 - int k"
  shows "deploy_turns dir ts u =
    map (\<lambda>(env, now, files). snd (deploy_files (shell_deploy env) dir files)) (take k ts) @ replicate (length ts - k) []"
  using assms
proof (induction ts arbitrary: u k)
  case (Cons t ts)
  obtain env now files where t: "t = (env, now, files)" by (cases t)
  show ?case
  proof (cases k)
    case 0
    then have "u_DeployFails u > DeployFailsLimit" using Cons.prems(3) by simp
    then show ?thesis using deploy_turns_idle [of u dir "t # ts"] 0 by simp
  next
    case (Suc j)
    obtain e acts where dep: "deploy_files (shell_deploy env) dir files = (Some e, acts)"
      using Cons.prems(1) t by (cases "deploy_files (shell_deploy env) dir files") auto
    have "UUIDShell \<noteq> UUIDApk" by (simp add: UUIDShell_def UUIDApk_def)
    moreover have "\<not> u_DeployFails u > DeployFailsLimit" using Cons.prems(3) Suc by simp
    ultimately have step: "Update_deploy env now dir files u = (u\<lparr>u_DeployFails := u_DeployFails u + 1\<rparr>, acts)"
      using Cons.prems(2) dep by (simp add: Update_deploy_def Let_def)
    have "deploy_turns dir ts (u\<lparr>u_DeployFails := u_DeployFails u + 1\<rparr>) =
      map (\<lambda>(env, now, files). snd (deploy_files (shell_deploy env) dir files)) (take j ts) @ replicate (length ts - j) []"
      using Cons.IH [of "u\<lparr>u_DeployFails := u_DeployFails u + 1\<rparr>" j] Cons.prems Suc by simp
    then show ?thesis by (simp add: t step dep Suc)
  qed
qed simp

end
