(* ===== verification/Agent_Run.thy ===== *)
theory Agent_Run
  imports Agent_Behaviour
begin

section \<open>The agent as a whole\<close>

text \<open>
  \<open>agent_step\<close> is one thing that happens to an agent: loading its metadata directory, a poll of the
  server, a turn of the gossip loop, a request to the REST interface, a turn of a monitor.  The invariant of
  \<open>Agent_Safety\<close> holds in every reachable state.  Then: the rhythm of the gossip loop, what a message
  that is not a notification does, and facts about the REST interface.
\<close>

subsection \<open>Steps\<close>

inductive agent_step ::
  "'m stun_lib \<Rightarrow> ('priv, 'pub) notif_lib \<Rightarrow> update_json \<Rightarrow> 'pub agent \<Rightarrow> 'pub agent \<Rightarrow> bool"
  for lib :: "'m stun_lib" and nlib :: "('priv, 'pub) notif_lib" and js :: update_json where
  tcp: "final_state (readTCP nlib envs decode response ks ag) = Some ag' \<Longrightarrow> agent_step lib nlib js ag ag'"
| gossip: "final_state (readOverlay nlib envs timer ag) = Some ag' \<Longrightarrow> agent_step lib nlib js ag ag'"
| request: "final_state (requestHandler lib nlib js env rq ag) = Some ag' \<Longrightarrow> agent_step lib nlib js ag ag'"
| monitor: "final_state (monitor_step lib nlib js menv toSave r ag) = Some ag' \<Longrightarrow> agent_step lib nlib js ag ag'"
| overlay: "agent_step lib nlib js ag (ag\<lparr>ag_Overlay := ov\<rparr>)"
| load: "final_state (load_files nlib js envs files ag) = Some ag' \<Longrightarrow> agent_step lib nlib js ag ag'"

inductive_cases agent_stepE: "agent_step lib nlib js ag ag'"

text \<open>The agent before it loads its metadata directory: \<open>NewAgent\<close> has filled in the struct.\<close>

definition agent_init :: "'pub agent \<Rightarrow> bool" where
  "agent_init ag \<longleftrightarrow> ag_updates ag = Map.empty \<and> ag_heap ag = Map.empty \<and> ag_log ag = []"

lemma agent_init_ok: "agent_init ag \<Longrightarrow> agent_ok nlib ag"
  by (simp add: agent_init_def agent_ok_def heap_wf_def all_verified_def)

lemma offer_all_ok:
  assumes "agent_ok nlib ag" "final_state (offer_all nlib envs ns ag) = Some ag'"
  shows "agent_ok nlib ag' \<and> ag_PublicKey ag' = ag_PublicKey ag"
  using assms
proof (induction ns arbitrary: ag)
  case (Cons x ns)
  then obtain n where x: "x = Some n" by (cases x) auto
  let ?offer = "offer_notification nlib (envs (n_UUID n)) n ag"
  show ?case
  proof (cases "final_state ?offer = Some ag'")
    case True
    then show ?thesis using offer_final [OF Cons.prems(1)] by blast
  next
    case False
    then obtain ag1 where ag1: "final_state ?offer = Some ag1" "final_state (offer_all nlib envs ns ag1) = Some ag'"
      using Cons.prems(2) by (auto simp: x final_state_bind)
    then show ?thesis
      using Cons.IH [of ag1] offer_final [OF Cons.prems(1) ag1(1)] by auto
  qed
qed simp

lemma readTCP_ok:
  assumes "agent_ok nlib ag" "final_state (readTCP nlib envs decode response ks ag) = Some ag'"
  shows "agent_ok nlib ag'"
proof -
  have buf: "agent_ok nlib (ag\<lparr>ag_bufs := m\<rparr>)" for m
    using assms(1) agent_ok_cong [of "ag\<lparr>ag_bufs := m\<rparr>" ag nlib] by simp
  have "ag' = ag \<or> (\<exists>m. ag' = ag\<lparr>ag_bufs := m\<rparr>) \<or>
      (\<exists>m ns. final_state (offer_all nlib envs ns (ag\<lparr>ag_bufs := m\<rparr>)) = Some ag')"
    using assms(2) by (auto simp: readTCP_def Let_def split: sum.splits if_splits prod.splits)
  then show ?thesis
    using assms(1) buf offer_all_ok [OF buf] by blast
qed

lemma readOverlay_ok:
  assumes "agent_ok nlib ag" "final_state (readOverlay nlib envs timer ag) = Some ag'"
  shows "agent_ok nlib ag'"
proof -
  have cong: "agent_ok nlib (ag\<lparr>ag_Overlay := ov, ag_buf := n\<rparr>)" "agent_ok nlib (ag\<lparr>ag_Overlay := ov\<rparr>)" for ov n
    using assms(1) agent_ok_cong [of "ag\<lparr>ag_Overlay := ov, ag_buf := n\<rparr>" ag nlib]
      agent_ok_cong [of "ag\<lparr>ag_Overlay := ov\<rparr>" ag nlib] by simp_all
  have "ag' = ag \<or> (\<exists>ov. ag' = ag\<lparr>ag_Overlay := ov\<rparr>) \<or>
      (\<exists>env n ov m. final_state (offer_notification nlib env n (ag\<lparr>ag_Overlay := ov, ag_buf := m\<rparr>)) = Some ag')"
    using assms(2)
    by (auto simp: readOverlay_def handle_message_def split: option.splits blocking.splits prod.splits)
  then show ?thesis
    using assms(1) cong offer_final [OF cong(1)] by blast
qed

lemma agent_ok_remove:
  assumes "agent_ok nlib ag"
  shows "agent_ok nlib (ag\<lparr>ag_updates := (ag_updates ag)(uuid := None)\<rparr>)"
proof -
  have "heap_wf (ag\<lparr>ag_updates := (ag_updates ag)(uuid := None)\<rparr>)"
    using assms by (simp add: agent_ok_def heap_wf_def)
  moreover have "all_verified nlib (ag\<lparr>ag_updates := (ag_updates ag)(uuid := None)\<rparr>)"
    using assms unfolding agent_ok_def all_verified_def by (auto split: if_splits)
  ultimately show ?thesis by (simp add: agent_ok_def)
qed

lemma requestDelete_ok:
  assumes "agent_ok nlib ag" "final_state (requestDeleteUpdate env uuid ag) = Some ag'"
  shows "agent_ok nlib ag'"
proof -
  let ?ag1 = "ag\<lparr>ag_updates := (ag_updates ag)(uuid := None)\<rparr>"
  have ok1: "agent_ok nlib ?ag1" by (rule agent_ok_remove [OF assms(1)])
  show ?thesis
  proof (cases "ag_updates ag uuid")
    case None
    then show ?thesis using assms(2) ok1 by (simp add: requestDeleteUpdate_def deleteUpdate_def)
  next
    case (Some r)
    have stop: "agent_ok nlib s" if "final_state (Update_Stop r ?ag1) = Some s" for s
      using agent_ok_Stop [OF ok1 that] .
    show ?thesis
      using assms(2) Some stop agent_ok_Delete [of nlib _ "pe_start env" r]
      by (force simp: requestDeleteUpdate_def deleteUpdate_def final_state_bind)
  qed
qed

lemma requestPost_ok:
  assumes "agent_ok nlib ag" "final_state (requestPostUpdate nlib js env body ag) = Some ag'"
  shows "agent_ok nlib ag'"
proof (cases "decode_update js body blank_update")
  case Inl
  then show ?thesis using assms by (simp add: requestPostUpdate_def)
next
  case (Inr u)
  then have u: "u_torrent u = None" "\<not> u_locked u"
    by (auto simp: decode_update_def blank_update_def split: sum.splits)
  obtain r ag1 where new: "new_object u ag = (r, ag1)" by (cases "new_object u ag")
  have ok1: "agent_ok nlib ag1" using agent_ok_new_object [OF assms(1) u(1)] new by simp
  have heap: "ag_heap ag1 r = Some u" using new_object_sel(2) [OF new] by simp
  show ?thesis
    using assms Start_final [OF ok1 heap u(2), of "pe_start env" ag']
    by (auto simp: requestPostUpdate_def Inr new split: if_splits)
qed

lemma load_files_ok:
  assumes "agent_ok nlib ag" "final_state (load_files nlib js envs files ag) = Some ag'"
  shows "agent_ok nlib ag'"
  using assms
proof (induction files arbitrary: ag)
  case (Cons f fs)
  let ?content = "case ag_disk ag (path_Join (ag_metadataDir ag) f) of
    None \<Rightarrow> Inl (ErrMsg ''no such file'') | Some b \<Rightarrow> Inr b"
  show ?case
  proof (cases "LoadUpdateFromFile js ?content")
    case (Inl e)
    with Cons show ?thesis by (simp add: Let_def)
  next
    case (Inr u)
    show ?thesis
    proof (cases "Update_Verify nlib (ag_PublicKey ag) u")
      case (Some e)
      with Inr Cons show ?thesis by (simp add: Let_def)
    next
      case None
      have u: "u_torrent u = None" "\<not> u_locked u"
        using Inr by (auto simp: LoadUpdateFromFile_def decode_update_def blank_update_def split: sum.splits)
      obtain r ag1 where new: "new_object u ag = (r, ag1)" by (cases "new_object u ag")
      have ok1: "agent_ok nlib ag1" using agent_ok_new_object [OF Cons.prems(1) u(1)] new by simp
      have heap: "ag_heap ag1 r = Some u" using new_object_sel(2) [OF new] by simp
      have start: "agent_ok nlib ag2"
        if "final_state (Update_Start nlib (envs (n_UUID (u_Notification u))) r ag1) = Some ag2" for ag2
        using Start_final [OF ok1 heap u(2) that] by blast
      show ?thesis
        using Cons.prems(2) Cons.IH start None
        by (auto simp: Inr new Let_def final_state_bind)
    qed
  qed
qed simp

lemma requestHandler_ok:
  assumes "agent_ok nlib ag" "final_state (requestHandler lib nlib js env rq ag) = Some ag'"
  shows "agent_ok nlib ag'"
proof -
  have "final_state (requestBroadcastUpdateWithUUID lib nlib env uuid ag) = Some ag' \<Longrightarrow> agent_ok nlib ag'" for uuid
    using assms(1) by (auto simp: requestBroadcastUpdateWithUUID_def split: option.splits prod.splits)
  then show ?thesis
    using assms requestDelete_ok [OF assms(1)] requestPost_ok [OF assms(1)]
    by (auto simp: requestHandler_def requestUpdateWithParam_def requestUpdate_def Let_def
        split: route.splits option.splits if_splits)
qed

lemma agent_step_ok: "agent_ok nlib ag \<Longrightarrow> agent_step lib nlib js ag ag' \<Longrightarrow> agent_ok nlib ag'"
proof (erule agent_step.cases, goal_cases)
  case (5 ag1 ov)
  then show ?case using agent_ok_cong [of "ag1\<lparr>ag_Overlay := ov\<rparr>" ag1 nlib] by simp
qed (auto intro: readTCP_ok readOverlay_ok requestHandler_ok agent_ok_monitor load_files_ok)

interpretation agent_sys: invariant_system agent_init "agent_step lib nlib js" "agent_ok nlib" for lib nlib js
  by unfold_locales (auto intro: agent_init_ok agent_step_ok)

text \<open>What \<open>NewAgent\<close> returns is the initial state with the metadata directory loaded.\<close>

lemma NewAgent_loads:
  assumes "NewAgent nlib js envs env cfg disk = Done err (Some ag)"
  shows "\<exists>fs ag0. load_files nlib js envs fs ag0 = Done () ag \<and> agent_init ag0"
  using assms
  by (auto simp: NewAgent_def Let_def split: sum.splits prod.splits outcome.splits)
    (intro exI conjI, assumption, simp add: agent_init_def)

lemma NewAgent_reach:
  assumes "NewAgent nlib js envs env cfg disk = Done err (Some ag)"
  shows "reach agent_init (agent_step lib nlib js) ag"
proof -
  obtain ag0 fs where load: "load_files nlib js envs fs ag0 = Done () ag" and init: "agent_init ag0"
    using NewAgent_loads [OF assms] by blast
  have "final_state (load_files nlib js envs fs ag0) = Some ag" unfolding load by simp
  then show ?thesis
    by (rule reach.reach_step [where step = "agent_step lib nlib js", OF reach.reach_init [of agent_init, OF init] agent_step.load])
qed

subsection \<open>Several notifications\<close>

text \<open>The agent as a store fed by notifications, each with what the operating system answers to it.\<close>

interpretation agent_feed: verified_store n_UUID n_Version agent_content "agent_ok nlib"
    "\<lambda>ag n. verifies nlib (ag_PublicKey ag) n" Some
    "\<lambda>n ag ag'. final_state (offer_notification nlib (envs (n_UUID n)) n ag) = Some ag'"
  for nlib envs
  by unfold_locales (auto dest: offer_final)

text \<open>What a poll of the server leaves in the map: the newest of everything that verifies.\<close>

lemma offer_all_feed:
  fixes nlib :: "('priv, 'pub) notif_lib"
  shows "offer_all nlib envs (map Some ns) ag = Done () ag' \<Longrightarrow> agent_feed.feed TYPE('priv) nlib envs ns ag ag'"
  by (induction ns arbitrary: ag) (auto simp: bind_outcome_Done)

lemma offer_all_content:
  assumes "agent_ok nlib ag" "offer_all nlib envs (map Some ns) ag = Done () ag'"
  shows "agent_content ag' =
    agent_store.newest (agent_content ag) (filter (\<lambda>n. verifies nlib (ag_PublicKey ag) n) ns)"
  using agent_feed.feed_content [OF assms(1) offer_all_feed [OF assms(2)]]
  by (simp add: agent_feed.passing_def)

lemma offer_all_returns:
  assumes "agent_ok nlib ag" "no_locks ag"
  shows "\<exists>ag'. offer_all nlib envs (map Some ns) ag = Done () ag' \<and> no_locks ag' \<and> agent_ok nlib ag'"
  using assms
proof (induction ns arbitrary: ag)
  case (Cons n ns)
  obtain err ag1 where off: "offer_notification nlib (envs (n_UUID n)) n ag = Done err ag1" "no_locks ag1"
    using offer_returns [of ag nlib "envs (n_UUID n)" n] Cons.prems by (auto simp: agent_ok_def)
  have "agent_ok nlib ag1"
    using offer_final [OF Cons.prems(1), of "envs (n_UUID n)" n ag1] off by simp
  with Cons.IH [of ag1] off show ?case by simp
qed simp

subsection \<open>The gossip loop\<close>

fun gossip_turns :: "nat \<Rightarrow> 'pub agent \<Rightarrow> int \<Rightarrow> gossip_turn list" where
  "gossip_turns 0 ag c = []"
| "gossip_turns (Suc k) ag c = (case gossip_step ag c of (t, c') \<Rightarrow> t # gossip_turns k ag c')"

definition overlay_ready :: "'pub agent \<Rightarrow> bool" where
  "overlay_ready ag \<longleftrightarrow> (\<exists>ov. ag_Overlay ag = Some ov \<and> Ready ov)"

lemma gossip_step_waiting:
  "\<not> overlay_ready ag \<Longrightarrow> gossip_step ag c =
     (if c + 1 > cf_ReadTCPInterval (ag_Config ag) then (GossipReadTCP, 0) else (GossipSleep, c + 1))"
  by (auto simp: gossip_step_def overlay_ready_def Let_def split: option.splits)

lemma gossip_step_ready: "overlay_ready ag \<Longrightarrow> gossip_step ag c = (GossipReadOverlay, 0)"
  by (auto simp: gossip_step_def overlay_ready_def)

lemma gossip_waits:
  assumes "\<not> overlay_ready ag" "cf_ReadTCPInterval (ag_Config ag) = int n" "c + int k = int n"
  shows "gossip_turns (Suc k) ag c = replicate k GossipSleep @ [GossipReadTCP]"
  using assms(3)
proof (induction k arbitrary: c)
  case 0
  then show ?case using assms by (simp add: gossip_step_waiting)
next
  case (Suc k)
  then have "gossip_step ag c = (GossipSleep, c + 1)"
    using assms by (simp add: gossip_step_waiting)
  moreover have "gossip_turns (Suc k) ag (c + 1) = replicate k GossipSleep @ [GossipReadTCP]"
    using Suc by simp
  ultimately show ?case by simp
qed

subsection \<open>A message that is not a notification\<close>

text \<open>
  When the decoder fails and leaves the buffer as it was, the notification of the previous message is
  offered again.
\<close>

lemma garbage_reoffers:
  assumes "nl_bdecode nlib b (ag_buf ag) = (ag_buf ag, Some e)"
  shows "handle_message nlib envs b ag = offer_notification nlib (envs (n_UUID (ag_buf ag))) (ag_buf ag) ag"
  using assms by (simp add: handle_message_def)

lemma garbage_restores_deleted:
  assumes "agent_ok nlib ag" "no_locks ag" "nl_bdecode nlib b (ag_buf ag) = (ag_buf ag, Some e)"
    and "verifies nlib (ag_PublicKey ag) (ag_buf ag)" "ag_updates ag (n_UUID (ag_buf ag)) = None"
  shows "\<exists>err ag'. handle_message nlib envs b ag = Done err ag' \<and>
    agent_content ag' (n_UUID (ag_buf ag)) = Some (ag_buf ag)"
proof -
  let ?n = "ag_buf ag"
  obtain err ag' where off: "offer_notification nlib (envs (n_UUID ?n)) ?n ag = Done err ag'"
    using offer_returns [of ag nlib "envs (n_UUID ?n)" ?n] assms(1,2) by (auto simp: agent_ok_def)
  have "agent_content ag' = keep_newest n_UUID n_Version ?n (agent_content ag)"
    using offer_final [OF assms(1), of "envs (n_UUID ?n)" ?n ag'] off assms(4) by simp
  moreover have "agent_content ag (n_UUID ?n) = None" using assms(5) by (simp add: agent_content_def)
  ultimately have "agent_content ag' (n_UUID ?n) = Some ?n"
    by (simp add: keep_newest_def verdict_of_def)
  with off show ?thesis by (simp add: garbage_reoffers [OF assms(3)])
qed

subsection \<open>The REST interface\<close>

lemma Start_status:
  "start_status err = 200 \<longleftrightarrow> err = None"
  by (auto simp: start_status_def split: option.splits go_error.splits)

text \<open>Only POST and DELETE change the agent's map and its objects; a broadcast only sends.\<close>

lemma request_frame:
  assumes "requestHandler lib nlib js env rq ag = Done rep ag'"
    and "rq_Method rq \<noteq> ''POST''" "rq_Method rq \<noteq> ''DELETE''"
  shows "ag_heap ag' = ag_heap ag \<and> ag_updates ag' = ag_updates ag \<and> ag_disk ag' = ag_disk ag"
  using assms
  by (auto simp: requestHandler_def requestUpdateWithParam_def requestUpdate_def
      requestBroadcastUpdateWithUUID_def Let_def split: route.splits option.splits if_splits prod.splits)

lemma request_bad:
  assumes "rq_Host rq \<noteq> ''v1'' \<or> route_of (rq_Path rq) = RouteNone"
  shows "requestHandler lib nlib js env rq ag = Done (400, NoBody) ag"
  using assms by (auto simp: requestHandler_def Let_def)

lemma post_status:
  assumes "agent_ok nlib ag" "no_locks ag" "decode_update js body blank_update = Inr u"
    and "pe_stat env (u_Source u) = None" "pe_copy env = None"
  shows "\<exists>ag'. requestPostUpdate nlib js env body ag =
      Done (if \<not> verifies nlib (ag_PublicKey ag) (u_Notification u) then 401
            else case verdict_of n_UUID n_Version (u_Notification u) (agent_content ag) of
              Older \<Rightarrow> 406 | Duplicate \<Rightarrow> 208
            | Accepted \<Rightarrow> if is_err (torrentMetainfo nlib (u_Notification u)) \<or> is_err (ue_add (pe_start env))
                          then 500 else 200, NoBody) ag'"
proof -
  have u: "u_torrent u = None" "\<not> u_locked u"
    using assms(3) by (auto simp: decode_update_def blank_update_def split: sum.splits)
  obtain r ag1 where new: "new_object u ag = (r, ag1)" by (cases "new_object u ag")
  note sel = new_object_sel [OF new]
  have wf: "heap_wf ag" using assms(1) by (simp add: agent_ok_def)
  have wf1: "heap_wf ag1" and content1: "agent_content ag1 = agent_content ag"
    using heap_wf_new_object [OF wf new] content_new_object [OF wf new] .
  have heap1: "ag_heap ag1 r = Some u" using sel(2) by simp
  have locks1: "no_locks ag1" using assms(2) sel(2) u(2) by (auto simp: no_locks_def)
  have post: "requestPostUpdate nlib js env body ag =
      bind_outcome (Update_Start nlib (pe_start env) r ag1) (\<lambda>err ag2. Done (start_status err, NoBody) ag2)"
    by (simp add: requestPostUpdate_def assms(3-5) new)
  show ?thesis
  proof (cases "verifies nlib (ag_PublicKey ag) (u_Notification u)")
    case False
    then show ?thesis
      using Start_unverified [OF heap1 u(2), of nlib "pe_start env"] sel(5)
      by (simp add: post start_status_def)
  next
    case ver: True
    then have ver1: "verifies nlib (ag_PublicKey ag1) (u_Notification u)" using sel(5) by simp
    show ?thesis
    proof (cases "verdict_of n_UUID n_Version (u_Notification u) (agent_content ag)")
      case Accepted
      then show ?thesis
        using Start_accepted [OF wf1 heap1 u(2) new_object_fresh [OF wf new] locks1 ver1, of "pe_start env"] ver
        by (simp add: post content1 Let_def activate_def start_status_def is_err_def split: sum.split)
    next
      case Duplicate
      then show ?thesis
        using Start_refused [OF wf1 heap1 u(2) ver1, of Duplicate "pe_start env"] ver
        by (simp add: post content1 start_status_def)
    next
      case Older
      then show ?thesis
        using Start_refused [OF wf1 heap1 u(2) ver1, of Older "pe_start env"] ver
        by (simp add: post content1 start_status_def)
    qed
  qed
qed

text \<open>Five sends at most, each of the version that was submitted; none after a state without it.\<close>

lemma rebroadcast_loop_length:
  "rebroadcast_loop k lib nlib env uuid v ags = Some as \<Longrightarrow> length as \<le> k \<and> length as \<le> length ags"
proof (induction k lib nlib env uuid v ags arbitrary: as rule: rebroadcast_loop.induct)
  case (3 i lib nlib env uuid v ag ags)
  then show ?case by (auto split: option.splits)
qed auto

lemma rebroadcast_turn_live:
  "rebroadcast_turn lib nlib env uuid v ag = Some (Some acts) \<Longrightarrow>
   \<exists>r. ag_updates ag uuid = Some r \<and> n_Version (u_Notification (the (ag_heap ag r))) = v"
  by (auto simp: rebroadcast_turn_def getUpdate_def Let_def split: option.splits if_splits)

lemma rebroadcast_loop_live:
  "rebroadcast_loop k lib nlib env uuid v ags = Some as \<Longrightarrow> ag \<in> set (take (length as) ags) \<Longrightarrow>
   \<exists>r. ag_updates ag uuid = Some r \<and> n_Version (u_Notification (the (ag_heap ag r))) = v"
proof (induction k lib nlib env uuid v ags arbitrary: as rule: rebroadcast_loop.induct)
  case (3 i lib nlib env uuid v a ags)
  then show ?case by (auto dest: rebroadcast_turn_live split: option.splits)
qed auto

lemma rebroadcast_no_overlay:
  assumes "ag_updates ag uuid = Some r" "n_Version (u_Notification (the (ag_heap ag r))) = v" "ag_Overlay ag = None"
    and "nl_bencode nlib (u_Notification (the (ag_heap ag r))) = Inr b" "length b \<le> stunMaxPacketDataSize"
  shows "rebroadcastUpdate lib nlib env uuid v (ag # ags) = None"
  using assms
  by (simp add: rebroadcastUpdate_def numeral_eq_Suc rebroadcast_turn_def getUpdate_def Notification_Write_def agent_send_def)

end
