(* ===== verification/Agent_Store.thy ===== *)
theory Agent_Store
  imports Agent_Run
begin

section \<open>Ports and files of the agent\<close>

text \<open>
  The port \<open>torrentClientConfig\<close> reads out of the agent's address, and what a restart finds in the
  metadata directory.
\<close>

subsection \<open>The overlay's port\<close>

lemma digit_value_nth: "n < 10 \<Longrightarrow> digit_value (''0123456789'' ! n) = int n"
proof -
  assume "n < 10"
  then have "n \<in> set [0, 1, 2, 3, 4, 5, 6, 7, 8, 9]" by (simp, arith)
  then show ?thesis by (auto simp: digit_value_def)
qed

lemma digits_value_append: "digits_value (s @ [c]) = 10 * digits_value s + digit_value c"
  by (simp add: digits_value_def)

lemma digits_value_nat_dec: "digits_value (nat_dec n) = int n"
proof (induction n rule: nat_dec.induct)
  case (1 n)
  show ?case
  proof (cases "n < 10")
    case True
    then have "nat_dec n = [''0123456789'' ! n]" by (subst nat_dec.simps) simp
    then show ?thesis using digit_value_nth [OF True] by (simp add: digits_value_def)
  next
    case False
    then have "nat_dec n = nat_dec (n div 10) @ [''0123456789'' ! (n mod 10)]"
      by (subst nat_dec.simps) simp
    moreover have "digit_value (''0123456789'' ! (n mod 10)) = int (n mod 10)"
      by (rule digit_value_nth) simp
    ultimately show ?thesis
      using 1 False by (simp add: digits_value_append zmod_int zdiv_int)
  qed
qed

lemma nat_dec_digits: "list_all is_digit (nat_dec n)"
  using nat_dec_chars [of n] by (auto simp: list_all_iff is_digit_def)

lemma digit_not_space: "is_digit c \<Longrightarrow> \<not> is_space c" "is_digit c \<Longrightarrow> c \<noteq> CHR '':''"
  by (auto simp: is_digit_def dec_chars_def is_space_def)

lemma atoi_digits:
  assumes "ds \<noteq> []" "list_all is_digit ds"
  shows "atoi ds = min (2 ^ 63 - 1) (digits_value ds)"
proof -
  obtain c cs where ds: "ds = c # cs" using assms(1) by (cases ds) auto
  then have "c \<noteq> CHR ''-''" "c \<noteq> CHR ''+''"
    using assms(2) by (auto simp: is_digit_def dec_chars_def)
  with ds assms show ?thesis by (simp add: atoi_def)
qed

lemma overlay_port_v4:
  assumes "CHR '':'' \<notin> set host" "CHR 0x0A \<notin> set host" "host = [] \<or> \<not> is_space (hd host)"
  shows "overlay_port (host @ CHR '':'' # nat_dec n) = min (2 ^ 63 - 1) (int n)"
proof -
  let ?s = "host @ CHR '':'' # nat_dec n"
  obtain d r where rev: "rev (nat_dec n) = d # r" using nat_dec_ne [of n] by (cases "rev (nat_dec n)") auto
  have digits: "\<forall>c \<in> set (rev (nat_dec n)). is_digit c"
    using nat_dec_digits [of n] by (auto simp: list_all_iff)
  then have d: "is_digit d" using rev by simp
  have left: "dropWhile is_space ?s = ?s"
    using assms(3) by (cases host) (auto simp: is_space_def)
  have "dropWhile is_space (rev ?s) = rev ?s"
    using rev d digit_not_space(1) by simp
  then have trim: "trim ?s = ?s" using left by (simp add: trim_def)
  have "dropWhile is_digit (rev ?s) = CHR '':'' # rev host"
  proof -
    have "\<not> is_digit (CHR '':'')" by (simp add: is_digit_def dec_chars_def)
    moreover have "dropWhile is_digit (rev (nat_dec n) @ CHR '':'' # rev host) = dropWhile is_digit (CHR '':'' # rev host)"
      using digits by (intro dropWhile_append2) blast
    ultimately show ?thesis by simp
  qed
  then have port: "has_port ?s"
    using assms(2) rev d by (simp add: has_port_def)
  have "dropWhile (\<lambda>c. c \<noteq> CHR '':'') ?s = CHR '':'' # nat_dec n"
    using assms(1) by (induction host) auto
  then have "overlay_port ?s = atoi (nat_dec n)"
    using trim port by (simp add: overlay_port_def Let_def)
  then show ?thesis
    using atoi_digits [OF nat_dec_ne nat_dec_digits] by (simp add: digits_value_nat_dec)
qed

text \<open>The torrent client does not listen on the overlay's port, unless the random port is that one.\<close>

lemma torrent_port:
  assumes "bt_Port (cf_BitTorrent cfg) = overlay_port (cf_Address cfg) \<longrightarrow> random \<noteq> overlay_port (cf_Address cfg)"
    and "bt_Port (cf_BitTorrent cfg) = 0 \<longrightarrow> random \<noteq> overlay_port (cf_Address cfg)"
  shows "tc_ListenPort (fst (torrentClientConfig random dataDir cfg)) \<noteq> overlay_port (cf_Address cfg)"
  using assms by (simp add: torrentClientConfig_def Let_def)

lemma torrent_port_kept:
  "bt_Port (cf_BitTorrent (snd (torrentClientConfig random dataDir cfg))) =
     tc_ListenPort (fst (torrentClientConfig random dataDir cfg))"
  by (simp add: torrentClientConfig_def Let_def)

lemma bindRandomPort_range:
  assumes "\<forall>d \<in> set ds. \<forall>(n, ok) \<in> set d. 0 \<le> n \<and> n < 10000" "0 \<le> final" "final < 10000"
  shows "50000 \<le> bindRandomPort ds final \<and> bindRandomPort ds final < 60000"
  using assms(1)
proof (induction ds)
  case (Cons d ds)
  show ?case
  proof (cases "first_mapped d")
    case (Some p)
    then obtain x where x: "find snd (take 50 d) = Some x" "p = fst x + 50000"
      by (auto simp: first_mapped_def)
    obtain i where "i < length (take 50 d)" "x = take 50 d ! i"
      using x(1) unfolding find_Some_iff by blast
    then have "x \<in> set (take 50 d)" using nth_mem by blast
    then have "x \<in> set d" by (rule in_set_takeD)
    with Cons.prems x(2) Some show ?thesis by (cases x) fastforce
  qed (use Cons in simp)
qed (use assms in simp)

subsection \<open>Metadata files\<close>

text \<open>The JSON text of an update holds its exported fields.\<close>

definition update_json_laws :: "update_json \<Rightarrow> bool" where
  "update_json_laws js \<longleftrightarrow>
     (\<forall>u b u0. uj_encode js u = Inr b \<longrightarrow>
        uj_decode js b u0 = Inr (u\<lparr>u_torrent := u_torrent u0, u_locked := u_locked u0\<rparr>))"

lemma save_then_load:
  assumes "update_json_laws js" "ag_heap ag r = Some u" "Update_Save js None None r ag = Done None ag'"
  shows "\<exists>b. ag_disk ag' (MetadataFilename (u_Notification u) ag) = Some b \<and>
    LoadUpdateFromFile js (Inr b) = Inr (u\<lparr>u_torrent := None, u_locked := False\<rparr>)"
proof -
  obtain data where "uj_encode js u = Inr data"
    and "ag' = ag\<lparr>ag_disk := (ag_disk ag)(MetadataFilename (u_Notification u) ag \<mapsto> data)\<rparr>"
    using assms(2,3) by (auto simp: Update_Save_def Let_def split: if_splits sum.splits)
  then show ?thesis
    using assms(1)
    by (simp add: update_json_laws_def LoadUpdateFromFile_def decode_update_def blank_update_def)
qed

text \<open>A deployed update is not deployed again.\<close>

lemma deployed_not_again:
  assumes "\<not> not_deployed u" "me_missing env \<le> 0"
  shows "monitor_progress env h ts u ag = (u\<lparr>u_Missing := me_missing env\<rparr>, ts, [])"
  using assms by (simp add: monitor_progress_def not_deployed_def)

end
