(* ===== verification/Server.thy ===== *)
theory Server
  imports Config Versioned_Store
begin

section \<open>The server (\<open>server.go\<close>)\<close>

text \<open>
  The server answers STUN binding requests over UDP, keeps a table of the peers' sessions and
  advertises it, and keeps the newest notification of each update, which peers fetch and submit over
  HTTP.  A method that takes the server's lock is one function on the record \<open>server\<close>; what it sends
  is a list of packets.  \<open>write\<close> is the UDP socket's answer to a packet; a loop over the peers takes
  the order of Go's \<open>range\<close> as an argument.
\<close>

subsection \<open>State\<close>

record 'pub server =
  sv_Addr :: udp_addr
  sv_ID :: peer_id
  sv_peers :: session_table
  sv_cfg :: server_config
  sv_udpConn :: "nat option"
  sv_publicKey :: 'pub
  sv_updates :: "string \<rightharpoonup> notification"
  sv_lastModified :: int
  sv_lastSaved :: int

type_synonym packet = "bytes \<times> udp_addr"
type_synonym sock_write = "bytes \<Rightarrow> udp_addr \<Rightarrow> go_error option"

datatype net_addr = UDPAddr udp_addr | OtherAddr string

text \<open>A write through a nil connection or to a nil address is an error, not a panic.\<close>

definition sock_send :: "sock_write \<Rightarrow> nat option \<Rightarrow> bytes \<Rightarrow> udp_addr option \<Rightarrow> go_error option" where
  "sock_send write conn raw dest =
     (case conn of None \<Rightarrow> Some (ErrMsg ''invalid argument'')
      | Some _ \<Rightarrow> (case dest of None \<Rightarrow> Some (ErrMsg ''missing address'') | Some a \<Rightarrow> write raw a))"

definition packet_of :: "bytes \<Rightarrow> udp_addr option \<Rightarrow> packet list" where
  "packet_of raw dest = (case dest of None \<Rightarrow> [] | Some a \<Rightarrow> [(raw, a)])"

subsection \<open>Updates over HTTP\<close>

text \<open>The part of \<open>servePostRequest\<close> under the lock.\<close>

definition accept_update :: "int \<Rightarrow> notification \<Rightarrow> 'pub server \<Rightarrow> verdict \<times> 'pub server" where
  "accept_update now n sv =
     (let store = (Accepted, sv\<lparr>sv_updates := (sv_updates sv)(n_UUID n \<mapsto> n), sv_lastModified := now\<rparr>) in
      case sv_updates sv (n_UUID n) of
        Some old \<Rightarrow>
          (if n_Version old > n_Version n then (Older, sv)
           else if n_Version old = n_Version n then (Duplicate, sv)
           else store)
      | None \<Rightarrow> store)"

text \<open>The status code, the server, and the notification that a goroutine then sends to the peers.\<close>

definition servePostRequest ::
  "('priv, 'pub) notif_lib \<Rightarrow> (bytes \<Rightarrow> notification result) \<Rightarrow> int \<Rightarrow> bytes \<Rightarrow> 'pub server
     \<Rightarrow> int \<times> 'pub server \<times> notification option" where
  "servePostRequest nlib decode now body sv =
     (case decode body of
        Inl e \<Rightarrow> (406, sv, None)
      | Inr n0 \<Rightarrow>
          (case Notification_Verify nlib (sv_publicKey sv) n0 of
             (n, Some e) \<Rightarrow> (400, sv, None)
           | (n, None) \<Rightarrow>
               (case accept_update now n sv of
                  (Older, sv') \<Rightarrow> (409, sv', None)
                | (Duplicate, sv') \<Rightarrow> (201, sv', None)
                | (Accepted, sv') \<Rightarrow> (200, sv', Some n))))"

text \<open>\<open>doJSONWrite\<close>: the status becomes 500 when the encoder fails.\<close>

definition doJSONWrite :: "int \<Rightarrow> bytes result \<Rightarrow> int \<times> bytes" where
  "doJSONWrite code json = (case json of Inl e \<Rightarrow> (500, []) | Inr b \<Rightarrow> (code, b))"

definition serveGetRequest :: "((string \<rightharpoonup> notification) \<Rightarrow> bytes result) \<Rightarrow> 'pub server \<Rightarrow> int \<times> bytes" where
  "serveGetRequest encode sv = doJSONWrite 200 (encode (sv_updates sv))"

definition serveHTTPRequest ::
  "('priv, 'pub) notif_lib \<Rightarrow> (bytes \<Rightarrow> notification result) \<Rightarrow> ((string \<rightharpoonup> notification) \<Rightarrow> bytes result)
     \<Rightarrow> int \<Rightarrow> string \<Rightarrow> bytes \<Rightarrow> 'pub server \<Rightarrow> (int \<times> bytes) \<times> 'pub server \<times> notification option" where
  "serveHTTPRequest nlib decode encode now meth body sv =
     (if meth = ''GET'' then (serveGetRequest encode sv, sv, None)
      else if meth = ''POST'' then
        (case servePostRequest nlib decode now body sv of (code, sv', job) \<Rightarrow> ((code, []), sv', job))
      else ((400, []), sv, None))"

subsection \<open>Sending an update to the peers\<close>

text \<open>
  The loop of \<open>sendUpdateNotificationOverUDP\<close>; \<open>err\<close> lives outside the loop, so nothing is sent after
  the first failure.  A session too short for the indices the branch reads panics.
\<close>

fun notify_loop ::
  "sock_write \<Rightarrow> nat option \<Rightarrow> bytes \<Rightarrow> session_table \<Rightarrow> go_error option \<Rightarrow> peer_id list \<Rightarrow> packet list may_panic" where
  "notify_loop write conn raw peers err [] = Some []"
| "notify_loop write conn raw peers err (i # is) =
     (case peers i of
        None \<Rightarrow> notify_loop write conn raw peers err is
      | Some addrs \<Rightarrow>
          (if addrs = [] then None
           else
             let err' = (if err = None then sock_send write conn raw (addrs ! 0) else err) in
             if err' \<noteq> None then
               (if length addrs \<le> 1 then None else notify_loop write conn raw peers err' is)
             else map_option (\<lambda>ps. packet_of raw (addrs ! 0) @ ps)
                    (notify_loop write conn raw peers err' is)))"

definition notificationMessage :: "'m stun_lib \<Rightarrow> 'pub server \<Rightarrow> bytes \<Rightarrow> 'm result" where
  "notificationMessage lib sv data =
     lib_build lib [lib_rand_tid lib, lib_set_type lib stunDataIndication,
       PeerMessage_AddTo lib data, PeerID_AddTo lib (sv_ID sv),
       lib_add_integrity lib (sc_StunPassword (sv_cfg sv)), lib_add_fingerprint lib]"

definition sendUpdateNotificationOverUDP ::
  "'m stun_lib \<Rightarrow> ('priv, 'pub) notif_lib \<Rightarrow> sock_write \<Rightarrow> peer_id list \<Rightarrow> notification \<Rightarrow> 'pub server
     \<Rightarrow> packet list may_panic" where
  "sendUpdateNotificationOverUDP lib nlib write ids n sv =
     (case nl_bencode nlib n of
        Inl e \<Rightarrow> Some []
      | Inr w \<Rightarrow>
          (case notificationMessage lib sv w of
             Inl e \<Rightarrow> notify_loop write (sv_udpConn sv) [] (sv_peers sv) (Some e) ids
           | Inr msg \<Rightarrow> notify_loop write (sv_udpConn sv) (lib_raw lib msg) (sv_peers sv) None ids))"

text \<open>
  The goroutine that an accepted POST starts: five rounds a second apart, over the server's successive
  states and the orders of the ranges.
\<close>

fun notify_rounds ::
  "nat \<Rightarrow> 'm stun_lib \<Rightarrow> ('priv, 'pub) notif_lib \<Rightarrow> sock_write \<Rightarrow> notification \<Rightarrow> ('pub server \<times> peer_id list) list
     \<Rightarrow> packet list list may_panic" where
  "notify_rounds 0 lib nlib write n svs = Some []"
| "notify_rounds (Suc i) lib nlib write n [] = Some []"
| "notify_rounds (Suc i) lib nlib write n ((sv, ids) # svs) =
     (case sendUpdateNotificationOverUDP lib nlib write ids n sv of
        None \<Rightarrow> None
      | Some ps \<Rightarrow> map_option (\<lambda>rest. ps # rest) (notify_rounds i lib nlib write n svs))"

definition notify_peers ::
  "'m stun_lib \<Rightarrow> ('priv, 'pub) notif_lib \<Rightarrow> sock_write \<Rightarrow> notification \<Rightarrow> ('pub server \<times> peer_id list) list
     \<Rightarrow> packet list list may_panic" where
  "notify_peers lib nlib write n svs = notify_rounds 5 lib nlib write n svs"

subsection \<open>Registering a peer\<close>

text \<open>External and internal address of the peer, then of its torrent client.\<close>

definition server_session :: "udp_addr \<Rightarrow> xor_addr \<Rightarrow> torrent_ports \<Rightarrow> session" where
  "server_session peer xa tp =
     [Some peer,
      Some \<lparr>IP = fst xa, Port = snd xa, Zone = []\<rparr>,
      Some \<lparr>IP = IP peer, Port = fst tp, Zone = []\<rparr>,
      Some \<lparr>IP = fst xa, Port = snd tp, Zone = []\<rparr>]"

definition server_updateSessionTable ::
  "net_addr \<Rightarrow> peer_id \<Rightarrow> xor_addr \<Rightarrow> torrent_ports \<Rightarrow> 'pub server \<Rightarrow> (bool result \<times> 'pub server) may_panic" where
  "server_updateSessionTable addr pid xa tp sv =
     (case addr of
        UDPAddr peer \<Rightarrow>
          (let session = server_session peer xa tp;
               store = (Inr True, sv\<lparr>sv_peers := (sv_peers sv)(pid \<mapsto> session)\<rparr>)
           in case sv_peers sv pid of
                Some old \<Rightarrow>
                  (case Session_Equal old session of
                     None \<Rightarrow> None
                   | Some True \<Rightarrow> Some (Inr False, sv)
                   | Some False \<Rightarrow> Some store)
              | None \<Rightarrow> Some store)
      | OtherAddr s \<Rightarrow> Some (Inl (ErrMsg ''unknown addr''), sv))"

text \<open>The reply goes to the first address of the stored session; reading a nil address panics.\<close>

definition bindingSuccessMessage :: "'m stun_lib \<Rightarrow> 'pub server \<Rightarrow> 'm \<Rightarrow> udp_addr \<Rightarrow> 'm result" where
  "bindingSuccessMessage lib sv req dest =
     lib_build lib [lib_set_tid lib (lib_tid lib req), lib_set_type lib BindingSuccess,
       lib_add_xor lib (IP dest, Port dest), PeerID_AddTo lib (sv_ID sv), SessionTable_AddTo lib [],
       lib_add_integrity lib (sc_StunPassword (sv_cfg sv)), lib_add_fingerprint lib]"

definition sendBindingSuccess ::
  "'m stun_lib \<Rightarrow> sock_write \<Rightarrow> peer_id \<Rightarrow> 'm \<Rightarrow> 'pub server \<Rightarrow> (go_error option \<times> packet list) may_panic" where
  "sendBindingSuccess lib write pid req sv =
     (case sv_peers sv pid of
        None \<Rightarrow> Some (Some (ErrMsg ''failed sendBindingSuccess: session of peer does not exist''), [])
      | Some session \<Rightarrow>
          (case session of
             Some dest # _ \<Rightarrow>
               (case bindingSuccessMessage lib sv req dest of
                  Inl e \<Rightarrow> Some (Some (ErrMsg ''failed building reply message''), [])
                | Inr res \<Rightarrow>
                    (case write (lib_raw lib res) dest of
                       Some e \<Rightarrow> Some (Some (ErrMsg ''ERROR: WriteTo''), [])
                     | None \<Rightarrow> Some (None, [(lib_raw lib res, dest)])))
           | _ \<Rightarrow> None))"

text \<open>
  One entry of the table as a binding indication.  When it cannot be built, \<open>advertiseNewPeer\<close> sends
  what the message buffer holds nevertheless: \<open>partial\<close>.
\<close>

definition entryMessage :: "'m stun_lib \<Rightarrow> 'pub server \<Rightarrow> peer_id \<Rightarrow> session \<Rightarrow> 'm result" where
  "entryMessage lib sv pid session =
     lib_build lib [lib_rand_tid lib, lib_set_type lib stunBindingIndication, PeerID_AddTo lib (sv_ID sv),
       SessionTable_AddTo lib [(pid, session)],
       lib_add_integrity lib (sc_StunPassword (sv_cfg sv)), lib_add_fingerprint lib]"

fun new_peer_loop ::
  "sock_write \<Rightarrow> bytes \<Rightarrow> session_table \<Rightarrow> peer_id \<Rightarrow> session \<Rightarrow> peer_id list \<Rightarrow> packet list may_panic" where
  "new_peer_loop write raw peers pid session [] = Some []"
| "new_peer_loop write raw peers pid session (i # is) =
     (if i = pid then new_peer_loop write raw peers pid session is
      else case peers i of
        None \<Rightarrow> new_peer_loop write raw peers pid session is
      | Some paddrs \<Rightarrow>
          (if paddrs = [] then None
           else if sock_send write (Some 0) raw (paddrs ! 0) \<noteq> None
                then new_peer_loop write raw peers pid session is
           else if length session \<le> 1 \<or> length paddrs \<le> 1 then None
           else map_option (\<lambda>ps. packet_of raw (paddrs ! 0) @ ps)
                  (new_peer_loop write raw peers pid session is)))"

definition advertiseNewPeer ::
  "'m stun_lib \<Rightarrow> sock_write \<Rightarrow> bytes \<Rightarrow> peer_id list \<Rightarrow> peer_id \<Rightarrow> 'pub server \<Rightarrow> packet list may_panic" where
  "advertiseNewPeer lib write partial ids pid sv =
     (case sv_peers sv pid of
        None \<Rightarrow> Some []
      | Some session \<Rightarrow>
          (case entryMessage lib sv pid session of
             Inr msg \<Rightarrow> new_peer_loop write (lib_raw lib msg) (sv_peers sv) pid session ids
           | Inl e \<Rightarrow>
               (if length session \<le> 1 then None
                else new_peer_loop write partial (sv_peers sv) pid session ids)))"

fun table_loop ::
  "'m stun_lib \<Rightarrow> sock_write \<Rightarrow> 'pub server \<Rightarrow> peer_id \<Rightarrow> udp_addr option \<Rightarrow> peer_id list \<Rightarrow> packet list" where
  "table_loop lib write sv dest addr [] = []"
| "table_loop lib write sv dest addr (i # is) =
     (if i = dest then table_loop lib write sv dest addr is
      else case sv_peers sv i of
        None \<Rightarrow> table_loop lib write sv dest addr is
      | Some sess \<Rightarrow>
          (case entryMessage lib sv i sess of
             Inl e \<Rightarrow> table_loop lib write sv dest addr is
           | Inr msg \<Rightarrow>
               (if sock_send write (sv_udpConn sv) (lib_raw lib msg) addr = None
                then packet_of (lib_raw lib msg) addr @ table_loop lib write sv dest addr is
                else table_loop lib write sv dest addr is)))"

definition advertiseSessionTableToPeer ::
  "'m stun_lib \<Rightarrow> sock_write \<Rightarrow> peer_id list \<Rightarrow> peer_id \<Rightarrow> 'pub server \<Rightarrow> packet list may_panic" where
  "advertiseSessionTableToPeer lib write ids dest sv =
     (case sv_peers sv dest of
        None \<Rightarrow> Some []
      | Some destAddrs \<Rightarrow>
          (if destAddrs = [] then None
           else Some (table_loop lib write sv dest (destAddrs ! 0) ids)))"

fun advertiseSessionTable ::
  "'m stun_lib \<Rightarrow> sock_write \<Rightarrow> peer_id list \<Rightarrow> peer_id list \<Rightarrow> 'pub server \<Rightarrow> packet list may_panic" where
  "advertiseSessionTable lib write ids [] sv = Some []"
| "advertiseSessionTable lib write ids (d # ds) sv =
     (case advertiseSessionTableToPeer lib write ids d sv of
        None \<Rightarrow> None
      | Some ps \<Rightarrow> map_option (\<lambda>qs. ps @ qs) (advertiseSessionTable lib write ids ds sv))"

subsection \<open>A datagram\<close>

type_synonym 'pub msg_result = "(go_error option \<times> 'pub server \<times> packet list) may_panic"

definition registerPeer ::
  "'m stun_lib \<Rightarrow> sock_write \<Rightarrow> bytes \<Rightarrow> peer_id list \<Rightarrow> net_addr \<Rightarrow> 'm \<Rightarrow> 'pub server \<Rightarrow> 'pub msg_result" where
  "registerPeer lib write partial ids addr req sv =
     (case PeerID_GetFrom lib req of
        Inl e \<Rightarrow> Some (Some (ErrMsg ''Failed to read peer ID''), sv, [])
      | Inr pid \<Rightarrow> (case lib_get_xor lib req of
        Inl e \<Rightarrow> Some (Some (ErrMsg ''failed getting peer internal address''), sv, [])
      | Inr xa \<Rightarrow> (case TorrentPorts_GetFrom lib req of
        None \<Rightarrow> None
      | Some (Inl e) \<Rightarrow> Some (Some (ErrMsg ''failed getting torrent-ports''), sv, [])
      | Some (Inr tp) \<Rightarrow> (case server_updateSessionTable addr pid xa tp sv of
        None \<Rightarrow> None
      | Some (Inl e, sv1) \<Rightarrow> Some (Some (ErrMsg ''failed evaluating peer session''), sv1, [])
      | Some (Inr updated, sv1) \<Rightarrow> (case sendBindingSuccess lib write pid req sv1 of
        None \<Rightarrow> None
      | Some (Some e, ps) \<Rightarrow> Some (Some (ErrMsg ''failed sending binding success response''), sv1, ps)
      | Some (None, ps) \<Rightarrow>
          (if \<not> updated then Some (None, sv1, ps)
           else case advertiseNewPeer lib write partial ids pid sv1 of
             None \<Rightarrow> None
           | Some qs \<Rightarrow>
               map_option (\<lambda>rs. (None, sv1, ps @ qs @ rs))
                 (advertiseSessionTableToPeer lib write ids pid sv1)))))))"

definition processMessage ::
  "'m stun_lib \<Rightarrow> sock_write \<Rightarrow> bytes \<Rightarrow> peer_id list \<Rightarrow> net_addr \<Rightarrow> 'm \<Rightarrow> 'pub server \<Rightarrow> 'pub msg_result" where
  "processMessage lib write partial ids addr req sv =
     (case validateMessage lib req None (sc_StunPassword (sv_cfg sv)) of
        Some e \<Rightarrow> Some (Some (ErrMsg ''Invalid message''), sv, [])
      | None \<Rightarrow>
          (if lib_type lib req = BindingRequest then registerPeer lib write partial ids addr req sv
           else Some (Some (ErrMsg ''message type is not STUN binding''), sv, [])))"

text \<open>
  One turn of the receive loop of \<open>serveUDP\<close>: a datagram, cut to the buffer, becomes a job for the
  workers or is dropped.  \<open>serve_datagram\<close> is the job done by a worker.
\<close>

definition receive_job :: "'m stun_lib \<Rightarrow> bytes \<Rightarrow> 'm option" where
  "receive_job lib datagram =
     (let msg = take 2048 datagram in
      if \<not> lib_is_message lib msg then None
      else case lib_decode lib msg of Inl e \<Rightarrow> None | Inr req \<Rightarrow> Some req)"

definition serve_datagram ::
  "'m stun_lib \<Rightarrow> sock_write \<Rightarrow> bytes \<Rightarrow> peer_id list \<Rightarrow> net_addr \<Rightarrow> bytes \<Rightarrow> 'pub server \<Rightarrow> 'pub msg_result" where
  "serve_datagram lib write partial ids addr datagram sv =
     (case receive_job lib datagram of
        None \<Rightarrow> Some (None, sv, [])
      | Some req \<Rightarrow> processMessage lib write partial ids addr req sv)"

subsection \<open>The database file\<close>

text \<open>
  \<open>db\<close> is the file's content, \<open>None\<close> when there is none.  \<open>openf\<close> is the answer of \<open>os.OpenFile\<close>,
  \<open>wrote\<close> that of the write: an error comes with the number of bytes that reached the file.
\<close>

definition saveUpdates ::
  "((string \<rightharpoonup> notification) \<Rightarrow> bytes result) \<Rightarrow> go_error option \<Rightarrow> (go_error \<times> nat) option
     \<Rightarrow> 'pub server \<times> bytes option \<Rightarrow> 'pub server \<times> bytes option" where
  "saveUpdates encode openf wrote sd =
     (let (sv, db) = sd in
      if \<not> sv_lastModified sv > sv_lastSaved sv then (sv, db)
      else case openf of
        Some e \<Rightarrow> (sv, db)
      | None \<Rightarrow>
          (case encode (sv_updates sv) of
             Inl e \<Rightarrow> (sv, Some [])
           | Inr data \<Rightarrow>
               (case wrote of
                  Some (e, k) \<Rightarrow> (sv, Some (take k data))
                | None \<Rightarrow> (sv\<lparr>sv_lastSaved := sv_lastModified sv\<rparr>, Some data))))"

definition loadUpdates ::
  "(bytes \<Rightarrow> (string \<rightharpoonup> notification) result) \<Rightarrow> go_error option \<Rightarrow> bytes option \<Rightarrow> 'pub server \<Rightarrow> 'pub server result" where
  "loadUpdates decode openf db sv =
     (let sv0 = sv\<lparr>sv_updates := Map.empty\<rparr> in
      case db of
        None \<Rightarrow> Inr sv0
      | Some b \<Rightarrow>
          (case openf of
             Some e \<Rightarrow> Inl e
           | None \<Rightarrow> (case decode b of Inl e \<Rightarrow> Inl e | Inr m \<Rightarrow> Inr (sv0\<lparr>sv_updates := m\<rparr>))))"

definition NewServer ::
  "(bytes \<Rightarrow> (string \<rightharpoonup> notification) result) \<Rightarrow> server_config \<Rightarrow> udp_addr result \<Rightarrow> peer_id result
     \<Rightarrow> 'pub result \<Rightarrow> go_error option \<Rightarrow> bytes option \<Rightarrow> 'pub server result" where
  "NewServer decode cfg addr pid pub openf db =
     (case addr of Inl e \<Rightarrow> Inl (ErrMsg ''failed resolving address'')
      | Inr a \<Rightarrow> (case pid of Inl e \<Rightarrow> Inl (ErrMsg ''Cannot get local ID'')
      | Inr i \<Rightarrow> (case pub of Inl e \<Rightarrow> Inl (ErrMsg ''ERROR: failed loading public key file'')
      | Inr k \<Rightarrow>
          (case loadUpdates decode openf db
             \<lparr>sv_Addr = a, sv_ID = i, sv_peers = Map.empty, sv_cfg = cfg, sv_udpConn = None,
              sv_publicKey = k, sv_updates = Map.empty, sv_lastModified = go_zero_time,
              sv_lastSaved = go_zero_time\<rparr> of
             Inl e \<Rightarrow> Inl (ErrMsg ''failed loading update database'')
           | Inr sv \<Rightarrow> Inr sv))))"

end
