(* ===== verification/Server_Safety.thy ===== *)
theory Server_Safety
  imports Server Overlay_Safety
begin

section \<open>What the server guarantees\<close>

text \<open>
  The store of updates implements the versioned store; every stored update verifies; sessions are
  well formed, so that the only panic a datagram can cause is the short port attribute; who is
  registered and who gets which packet; how an agent's binding request and the server's reply fit
  together; what saving and loading the database does.
\<close>

subsection \<open>The store of updates\<close>

lemma accept_update_keep:
  "fst (accept_update now n sv) = verdict_of n_UUID n_Version n (sv_updates sv)"
  "sv_updates (snd (accept_update now n sv)) = keep_newest n_UUID n_Version n (sv_updates sv)"
  by (auto simp: accept_update_def verdict_of_def keep_newest_def split: option.split)

interpretation server_store: versioned_store n_UUID n_Version sv_updates "\<lambda>_. True" "accept_update now" for now
  by unfold_locales (simp_all add: accept_update_keep)

definition updates_verified :: "('priv, 'pub) notif_lib \<Rightarrow> 'pub server \<Rightarrow> bool" where
  "updates_verified nlib sv \<longleftrightarrow>
     (\<forall>u n. sv_updates sv u = Some n \<longrightarrow> n_UUID n = u \<and> verifies nlib (sv_publicKey sv) n)"

lemma servePost_cases:
  obtains (bad_json) e where "decode body = Inl e" "servePostRequest nlib decode now body sv = (406, sv, None)"
  | (bad_signature) n where "decode body = Inr n" "\<not> verifies nlib (sv_publicKey sv) n"
      "servePostRequest nlib decode now body sv = (400, sv, None)"
  | (offered) n where "decode body = Inr n" "verifies nlib (sv_publicKey sv) n"
      "servePostRequest nlib decode now body sv =
        (case fst (accept_update now n sv) of
           Older \<Rightarrow> (409, snd (accept_update now n sv), None)
         | Duplicate \<Rightarrow> (201, snd (accept_update now n sv), None)
         | Accepted \<Rightarrow> (200, snd (accept_update now n sv), Some n))"
proof (cases "decode body")
  case (Inl e)
  then show thesis using bad_json by (simp add: servePostRequest_def)
next
  case (Inr n)
  have fst: "fst (Notification_Verify nlib (sv_publicKey sv) n) = n" by (rule Verify_fst)
  show thesis
  proof (cases "snd (Notification_Verify nlib (sv_publicKey sv) n)")
    case None
    with fst have "Notification_Verify nlib (sv_publicKey sv) n = (n, None)" by (metis prod.collapse)
    with Inr None show thesis
      by (intro offered) (auto simp: servePostRequest_def split: prod.split verdict.split)
  next
    case (Some e)
    with fst have "Notification_Verify nlib (sv_publicKey sv) n = (n, Some e)" by (metis prod.collapse)
    with Inr Some show thesis
      by (intro bad_signature) (auto simp: servePostRequest_def)
  qed
qed

lemma accept_update_frame [frame_simps]:
  "sv_publicKey (snd (accept_update now n sv)) = sv_publicKey sv"
  "sv_peers (snd (accept_update now n sv)) = sv_peers sv"
  by (simp_all add: accept_update_def Let_def split: option.split)

lemma servePost_server:
  assumes "servePostRequest nlib decode now body sv = (code, sv', job)"
  shows "sv' = sv \<or> (\<exists>n. decode body = Inr n \<and> verifies nlib (sv_publicKey sv) n \<and>
    sv' = snd (accept_update now n sv))"
  using assms
  by (cases rule: servePost_cases [of decode body nlib now sv]) (auto split: verdict.splits)

lemma servePost_updates:
  assumes "servePostRequest nlib decode now body sv = (code, sv', job)"
  shows "sv_updates sv' = (case decode body of
      Inr n \<Rightarrow> if verifies nlib (sv_publicKey sv) n then keep_newest n_UUID n_Version n (sv_updates sv)
               else sv_updates sv
    | Inl _ \<Rightarrow> sv_updates sv)"
  using assms
  by (cases rule: servePost_cases [of decode body nlib now sv])
    (auto simp: accept_update_keep split: verdict.splits)

text \<open>The server as a store fed by POST requests, each with the time it arrives at.\<close>

definition posted :: "(bytes \<Rightarrow> notification result) \<Rightarrow> int \<times> bytes \<Rightarrow> notification option" where
  "posted decode p = (case decode (snd p) of Inl _ \<Rightarrow> None | Inr n \<Rightarrow> Some n)"

definition post_step ::
  "('priv, 'pub) notif_lib \<Rightarrow> (bytes \<Rightarrow> notification result) \<Rightarrow> int \<times> bytes \<Rightarrow> 'pub server \<Rightarrow> 'pub server" where
  "post_step nlib decode p sv = fst (snd (servePostRequest nlib decode (fst p) (snd p) sv))"

lemma post_step_sel:
  "sv_publicKey (post_step nlib decode p sv) = sv_publicKey sv"
  "sv_updates (post_step nlib decode p sv) = (case posted decode p of None \<Rightarrow> sv_updates sv
    | Some n \<Rightarrow> if verifies nlib (sv_publicKey sv) n then keep_newest n_UUID n_Version n (sv_updates sv)
               else sv_updates sv)"
proof -
  obtain code sv' job where post: "servePostRequest nlib decode (fst p) (snd p) sv = (code, sv', job)"
    by (cases "servePostRequest nlib decode (fst p) (snd p) sv")
  then have sv': "post_step nlib decode p sv = sv'" by (simp add: post_step_def)
  show "sv_publicKey (post_step nlib decode p sv) = sv_publicKey sv"
    using servePost_server [OF post] unfolding sv' by (auto simp: accept_update_frame)
  show "sv_updates (post_step nlib decode p sv) = (case posted decode p of None \<Rightarrow> sv_updates sv
    | Some n \<Rightarrow> if verifies nlib (sv_publicKey sv) n then keep_newest n_UUID n_Version n (sv_updates sv)
               else sv_updates sv)"
    unfolding sv' using servePost_updates [OF post] by (simp add: posted_def split: sum.splits)
qed

interpretation server_feed: verified_store n_UUID n_Version sv_updates "\<lambda>_. True"
    "\<lambda>sv n. verifies nlib (sv_publicKey sv) n" "posted decode" "\<lambda>p sv sv'. sv' = post_step nlib decode p sv"
  for nlib decode
  by unfold_locales (simp_all add: post_step_sel)

lemma servePost_verified:
  assumes "updates_verified nlib sv" "servePostRequest nlib decode now body sv = (code, sv', job)"
  shows "updates_verified nlib sv'"
  using servePost_server [OF assms(2)]
proof
  assume "\<exists>n. decode body = Inr n \<and> verifies nlib (sv_publicKey sv) n \<and> sv' = snd (accept_update now n sv)"
  then obtain n where n: "verifies nlib (sv_publicKey sv) n" "sv' = snd (accept_update now n sv)" by blast
  have "sv_updates sv' u = Some m \<Longrightarrow> sv_updates sv u = Some m \<or> (m = n \<and> n_UUID n = u)" for u m
    using n(2) server_store.keep_newest_source [of n "sv_updates sv" u m] by (simp add: accept_update_keep)
  with n assms(1) show ?thesis
    by (fastforce simp: updates_verified_def accept_update_frame)
qed (use assms(1) in simp)

subsection \<open>Sessions\<close>

definition server_ok :: "'pub server \<Rightarrow> bool" where
  "server_ok sv \<longleftrightarrow> (\<forall>pid s. sv_peers sv pid = Some s \<longrightarrow> length s = 4 \<and> None \<notin> set s)"

lemma server_session_wf [simp]:
  "length (server_session peer xa tp) = 4" "None \<notin> set (server_session peer xa tp)"
  "server_session peer xa tp \<noteq> []" "server_session peer xa tp ! 0 = Some peer"
  by (simp_all add: server_session_def)

lemma server_okD:
  assumes "server_ok sv" "sv_peers sv pid = Some s"
  obtains a b c d where "s = [Some a, Some b, Some c, Some d]"
proof -
  have "length s = 4" "None \<notin> set s" using assms by (auto simp: server_ok_def)
  moreover then obtain w x y z where "s = [w, x, y, z]"
    by (auto simp: numeral_eq_Suc length_Suc_conv)
  ultimately show thesis
    using that by (cases w; cases x; cases y; cases z) auto
qed

text \<open>Agreement of two well-formed sessions at one position at least.\<close>

definition shares_endpoint :: "session \<Rightarrow> session \<Rightarrow> bool" where
  "shares_endpoint s t \<longleftrightarrow>
     (\<exists>i < min (length s) (length t). \<exists>a b. s ! i = Some a \<and> t ! i = Some b \<and> same_endpoint a b)"

lemma Session_Equal_4:
  "Session_Equal [Some a, Some b, Some c, Some d] [Some a', Some b', Some c', Some d'] =
     Some (\<not> same_endpoint a a' \<and> \<not> same_endpoint b b' \<and> \<not> same_endpoint c c' \<and> \<not> same_endpoint d d')"
  using Session_Equal_differ [of "[a, b, c, d]" "[a', b', c', d']"] by simp

lemma updateSessionTable_UDP:
  assumes "server_ok sv"
  shows "\<exists>b. server_updateSessionTable (UDPAddr peer) pid xa tp sv =
      Some (Inr b, if b then sv\<lparr>sv_peers := (sv_peers sv)(pid \<mapsto> server_session peer xa tp)\<rparr> else sv) \<and>
    (b \<longleftrightarrow> (case sv_peers sv pid of None \<Rightarrow> True
             | Some old \<Rightarrow> Session_Equal old (server_session peer xa tp) = Some False))"
proof (cases "sv_peers sv pid")
  case None
  then show ?thesis by (intro exI [of _ True]) (simp add: server_updateSessionTable_def Let_def)
next
  case (Some old)
  then obtain a b c d where old: "old = [Some a, Some b, Some c, Some d]"
    using server_okD [OF assms] by blast
  have "\<exists>r. Session_Equal old (server_session peer xa tp) = Some r"
    by (simp add: old server_session_def Session_Equal_4)
  with Some show ?thesis by (auto simp: server_updateSessionTable_def Let_def split: bool.split)
qed

lemma server_ok_update:
  "server_ok sv \<Longrightarrow> server_ok (sv\<lparr>sv_peers := (sv_peers sv)(pid \<mapsto> server_session peer xa tp)\<rparr>)"
  by (simp add: server_ok_def)

text \<open>No loop over well-formed sessions panics.\<close>

lemma notify_loop_ok:
  assumes "\<And>i s. peers i = Some s \<Longrightarrow> length s \<ge> 2"
  shows "notify_loop write conn raw peers err ids \<noteq> None"
proof (induction ids arbitrary: err)
  case (Cons i ids)
  show ?case
  proof (cases "peers i")
    case (Some s)
    with assms have "length s \<ge> 2" "s \<noteq> []" by fastforce+
    with Cons Some show ?thesis by (simp add: Let_def)
  qed (simp add: Cons)
qed simp

lemma new_peer_loop_ok:
  assumes "\<And>i s. peers i = Some s \<Longrightarrow> length s \<ge> 2" "length session \<ge> 2"
  shows "new_peer_loop write raw peers pid session ids \<noteq> None"
proof (induction ids)
  case (Cons i ids)
  show ?case
  proof (cases "peers i")
    case (Some s)
    with assms(1) have "length s \<ge> 2" "s \<noteq> []" by fastforce+
    with Cons Some assms(2) show ?thesis by simp
  qed (use Cons in simp)
qed simp

lemma server_ok_lengths:
  assumes "server_ok sv" "sv_peers sv i = Some s"
  shows "length s \<ge> 2"
  using assms by (auto elim: server_okD)

lemma sendUpdate_ok: "server_ok sv \<Longrightarrow> sendUpdateNotificationOverUDP lib nlib write ids n sv \<noteq> None"
  using notify_loop_ok [of "sv_peers sv"] server_ok_lengths [of sv]
  by (simp add: sendUpdateNotificationOverUDP_def split: sum.split)

lemma notify_rounds_ok:
  "\<forall>(sv, ids) \<in> set svs. server_ok sv \<Longrightarrow>
   \<exists>rounds. notify_rounds k lib nlib write n svs = Some rounds \<and> length rounds = min k (length svs)"
proof (induction k arbitrary: svs)
  case (Suc k)
  show ?case
  proof (cases svs)
    case (Cons s rest)
    obtain sv ids where s: "s = (sv, ids)" by (cases s)
    then obtain ps where "sendUpdateNotificationOverUDP lib nlib write ids n sv = Some ps"
      using sendUpdate_ok [of sv lib nlib "write" ids n] Suc.prems Cons by auto
    then show ?thesis using Suc.IH [of rest] Suc.prems Cons s by auto
  qed simp
qed simp

lemma advertiseNewPeer_ok: "server_ok sv \<Longrightarrow> advertiseNewPeer lib write partial ids pid sv \<noteq> None"
proof -
  assume ok: "server_ok sv"
  have "new_peer_loop write raw (sv_peers sv) pid s ids \<noteq> None" if "sv_peers sv pid = Some s" for raw s
    using server_ok_lengths [OF ok] that by (intro new_peer_loop_ok)
  moreover have "\<not> length s \<le> 1" if "sv_peers sv pid = Some s" for s
    using server_ok_lengths [OF ok that] by simp
  ultimately show ?thesis
    by (auto simp: advertiseNewPeer_def split: option.split sum.split)
qed

lemma advertiseToPeer_ok: "server_ok sv \<Longrightarrow> advertiseSessionTableToPeer lib write ids pid sv \<noteq> None"
  by (auto simp: advertiseSessionTableToPeer_def dest: server_ok_lengths split: option.split)

lemma advertiseSessionTable_ok: "server_ok sv \<Longrightarrow> advertiseSessionTable lib write ids ds sv \<noteq> None"
proof (induction ds)
  case (Cons d ds)
  then show ?case using advertiseToPeer_ok [of sv lib "write" ids d] by auto
qed simp

lemma sendBindingSuccess_ok: "server_ok sv \<Longrightarrow> sendBindingSuccess lib write pid req sv \<noteq> None"
proof (cases "sv_peers sv pid")
  case (Some s)
  assume "server_ok sv"
  then obtain a b c d where "s = [Some a, Some b, Some c, Some d]" using server_okD Some by blast
  with Some show ?thesis by (simp add: sendBindingSuccess_def split: sum.split option.split)
qed (simp add: sendBindingSuccess_def)

subsection \<open>One message\<close>

text \<open>A request the server takes: protected by the password, a binding request, with its three attributes.\<close>

definition binding_request ::
  "'m stun_lib \<Rightarrow> 'pub server \<Rightarrow> 'm \<Rightarrow> peer_id \<Rightarrow> xor_addr \<Rightarrow> torrent_ports \<Rightarrow> bool" where
  "binding_request lib sv req pid xa tp \<longleftrightarrow>
     validateMessage lib req None (sc_StunPassword (sv_cfg sv)) = None \<and>
     lib_type lib req = BindingRequest \<and> PeerID_GetFrom lib req = Inr pid \<and>
     lib_get_xor lib req = Inr xa \<and> TorrentPorts_GetFrom lib req = Some (Inr tp)"

text \<open>The server after the table has been updated.\<close>

definition registered :: "udp_addr \<Rightarrow> peer_id \<Rightarrow> xor_addr \<Rightarrow> torrent_ports \<Rightarrow> 'pub server \<Rightarrow> 'pub server" where
  "registered peer pid xa tp sv =
     sv\<lparr>sv_peers := (sv_peers sv)(pid \<mapsto> server_session peer xa tp)\<rparr>"

lemma registered_sel [simp]:
  "sv_peers (registered peer pid xa tp sv) = (sv_peers sv)(pid \<mapsto> server_session peer xa tp)"
  "sv_ID (registered peer pid xa tp sv) = sv_ID sv" "sv_cfg (registered peer pid xa tp sv) = sv_cfg sv"
  "sv_updates (registered peer pid xa tp sv) = sv_updates sv"
  "sv_udpConn (registered peer pid xa tp sv) = sv_udpConn sv"
  "server_ok sv \<Longrightarrow> server_ok (registered peer pid xa tp sv)"
  by (simp_all add: registered_def server_ok_update)

definition keeps_session :: "'pub server \<Rightarrow> peer_id \<Rightarrow> session \<Rightarrow> bool" where
  "keeps_session sv pid new \<longleftrightarrow> (\<exists>old. sv_peers sv pid = Some old \<and> Session_Equal old new = Some True)"

lemma update_cases:
  assumes "server_ok sv"
  shows "server_updateSessionTable (UDPAddr peer) pid xa tp sv =
    (if keeps_session sv pid (server_session peer xa tp) then Some (Inr False, sv)
     else Some (Inr True, registered peer pid xa tp sv))"
proof -
  obtain b where b: "server_updateSessionTable (UDPAddr peer) pid xa tp sv =
      Some (Inr b, if b then registered peer pid xa tp sv else sv)"
    and iff: "b \<longleftrightarrow> (case sv_peers sv pid of None \<Rightarrow> True
             | Some old \<Rightarrow> Session_Equal old (server_session peer xa tp) = Some False)"
    using updateSessionTable_UDP [OF assms, of peer pid xa tp] unfolding registered_def by blast
  have "b \<longleftrightarrow> \<not> keeps_session sv pid (server_session peer xa tp)"
  proof (cases "sv_peers sv pid")
    case (Some old)
    then obtain u v w x where "old = [Some u, Some v, Some w, Some x]" using server_okD [OF assms] by blast
    with Some iff show ?thesis
      by (simp add: keeps_session_def server_session_def Session_Equal_4)
  qed (simp add: iff keeps_session_def)
  with b show ?thesis by simp
qed

lemma update_other: "server_updateSessionTable (OtherAddr s) pid xa tp sv = Some (Inl (ErrMsg ''unknown addr''), sv)"
  by (simp add: server_updateSessionTable_def)

text \<open>What follows a request, step by step: the reply, then the two advertisements.\<close>

definition after_update ::
  "'m stun_lib \<Rightarrow> sock_write \<Rightarrow> bytes \<Rightarrow> peer_id list \<Rightarrow> peer_id \<Rightarrow> 'm \<Rightarrow> bool \<Rightarrow> 'pub server \<Rightarrow> 'pub msg_result" where
  "after_update lib write partial ids pid req updated sv1 =
     (case sendBindingSuccess lib write pid req sv1 of
        None \<Rightarrow> None
      | Some (Some e, ps) \<Rightarrow> Some (Some (ErrMsg ''failed sending binding success response''), sv1, ps)
      | Some (None, ps) \<Rightarrow>
          (if \<not> updated then Some (None, sv1, ps)
           else case advertiseNewPeer lib write partial ids pid sv1 of
             None \<Rightarrow> None
           | Some qs \<Rightarrow>
               map_option (\<lambda>rs. (None, sv1, ps @ qs @ rs))
                 (advertiseSessionTableToPeer lib write ids pid sv1)))"

lemma processMessage_request:
  assumes "server_ok sv" "binding_request lib sv req pid xa tp"
  shows "processMessage lib write partial ids (UDPAddr peer) req sv =
    (if keeps_session sv pid (server_session peer xa tp)
     then after_update lib write partial ids pid req False sv
     else after_update lib write partial ids pid req True (registered peer pid xa tp sv))"
  using assms
  by (simp add: binding_request_def processMessage_def registerPeer_def update_cases after_update_def)

lemma after_update_ok:
  "server_ok sv \<Longrightarrow> \<exists>err ps. after_update lib write partial ids pid req b sv = Some (err, sv, ps)"
  using sendBindingSuccess_ok [of sv lib "write" pid req] advertiseNewPeer_ok [of sv lib "write" partial ids pid]
    advertiseToPeer_ok [of sv lib "write" ids pid]
  by (auto simp: after_update_def split: option.split)

lemma processMessage_no_request:
  assumes "server_ok sv" "\<nexists>pid xa tp peer. addr = UDPAddr peer \<and> binding_request lib sv req pid xa tp"
    and "\<not> (validateMessage lib req None (sc_StunPassword (sv_cfg sv)) = None \<and>
      lib_type lib req = BindingRequest \<and> \<not> is_err (PeerID_GetFrom lib req) \<and>
      \<not> is_err (lib_get_xor lib req) \<and> TorrentPorts_GetFrom lib req = None)"
  shows "\<exists>e. processMessage lib write partial ids addr req sv = Some (Some e, sv, [])"
proof (cases "PeerID_GetFrom lib req")
  case Inl
  then show ?thesis by (auto simp: processMessage_def registerPeer_def split: option.split)
next
  case pid: (Inr pid)
  show ?thesis
  proof (cases "lib_get_xor lib req")
    case Inl
    with pid show ?thesis by (auto simp: processMessage_def registerPeer_def split: option.split)
  next
    case xa: (Inr xa)
    show ?thesis
    proof (cases "TorrentPorts_GetFrom lib req")
      case None
      with pid xa assms(3) show ?thesis by (auto simp: processMessage_def split: option.split)
    next
      case (Some r)
      show ?thesis
      proof (cases r)
        case Inl
        with pid xa Some show ?thesis
          by (auto simp: processMessage_def registerPeer_def split: option.split)
      next
        case (Inr tp)
        with assms(2) pid xa Some have "(\<exists>s. addr = OtherAddr s) \<or>
            validateMessage lib req None (sc_StunPassword (sv_cfg sv)) \<noteq> None \<or> lib_type lib req \<noteq> BindingRequest"
          unfolding binding_request_def by (metis net_addr.exhaust)
        with pid xa Some Inr show ?thesis
          by (auto simp: processMessage_def registerPeer_def update_other split: option.split)
      qed
    qed
  qed
qed

lemma processMessage_short_ports:
  assumes "validateMessage lib req None (sc_StunPassword (sv_cfg sv)) = None"
    "lib_type lib req = BindingRequest" "\<not> is_err (PeerID_GetFrom lib req)"
    "\<not> is_err (lib_get_xor lib req)" "TorrentPorts_GetFrom lib req = None"
  shows "processMessage lib write partial ids addr req sv = None"
  using assms by (auto simp: processMessage_def registerPeer_def not_is_err_iff)

text \<open>The one panic, and what a message can do to the server.\<close>

lemma processMessage_panic_iff:
  assumes "server_ok sv"
  shows "processMessage lib write partial ids addr req sv = None \<longleftrightarrow>
    validateMessage lib req None (sc_StunPassword (sv_cfg sv)) = None \<and>
    lib_type lib req = BindingRequest \<and> \<not> is_err (PeerID_GetFrom lib req) \<and>
    \<not> is_err (lib_get_xor lib req) \<and> TorrentPorts_GetFrom lib req = None"
    (is "?panic \<longleftrightarrow> ?short")
proof
  assume panic: ?panic
  show ?short
  proof (rule ccontr)
    assume no: "\<not> ?short"
    show False
    proof (cases "\<exists>pid xa tp peer. addr = UDPAddr peer \<and> binding_request lib sv req pid xa tp")
      case True
      then obtain pid xa tp peer where a: "addr = UDPAddr peer" "binding_request lib sv req pid xa tp" by blast
      have "processMessage lib write partial ids addr req sv \<noteq> None"
        using after_update_ok [OF assms, of lib "write" partial ids pid req False]
          after_update_ok [OF registered_sel(6) [OF assms], of lib "write" partial ids pid req True peer pid xa tp]
        by (auto simp: a(1) processMessage_request [OF assms a(2)])
      with panic show False by simp
    next
      case False
      with no panic processMessage_no_request [OF assms] show False by (metis option.distinct(1))
    qed
  qed
qed (simp add: processMessage_short_ports)

lemma processMessage_server:
  assumes "server_ok sv" "processMessage lib write partial ids addr req sv = Some (err, sv', ps)"
  shows "sv' = sv \<or> (\<exists>peer pid xa tp. addr = UDPAddr peer \<and> binding_request lib sv req pid xa tp \<and>
    sv' = registered peer pid xa tp sv)"
proof (cases "\<exists>pid xa tp peer. addr = UDPAddr peer \<and> binding_request lib sv req pid xa tp")
  case True
  then obtain pid xa tp peer where a: "addr = UDPAddr peer" "binding_request lib sv req pid xa tp" by blast
  have "sv' = sv \<or> sv' = registered peer pid xa tp sv"
    using assms(2) after_update_ok [OF assms(1), of lib "write" partial ids pid req False]
      after_update_ok [OF registered_sel(6) [OF assms(1)], of lib "write" partial ids pid req True peer pid xa tp]
    by (auto simp: a(1) processMessage_request [OF assms(1) a(2)] split: if_splits)
  with a show ?thesis by blast
next
  case False
  have "processMessage lib write partial ids addr req sv \<noteq> None" using assms(2) by simp
  then obtain e where "processMessage lib write partial ids addr req sv = Some (Some e, sv, [])"
    using processMessage_no_request [OF assms(1) False, of "write" partial ids]
    unfolding processMessage_panic_iff [OF assms(1)] by blast
  with assms(2) show ?thesis by simp
qed

lemma processMessage_server_ok:
  "server_ok sv \<Longrightarrow> processMessage lib write partial ids addr req sv = Some (err, sv', ps) \<Longrightarrow> server_ok sv'"
  using processMessage_server [of sv lib "write" partial ids addr req err sv' ps] registered_sel(6) by blast

text \<open>A request the server does not keep the old session for: the peer is registered and answered.\<close>

lemma reply_sent:
  assumes "sv_peers sv pid = Some (Some dest # r)" "bindingSuccessMessage lib sv req dest = Inr m"
    "write (lib_raw lib m) dest = None" "server_ok sv"
  shows "\<exists>ps. after_update lib write partial ids pid req b sv = Some (None, sv, (lib_raw lib m, dest) # ps)"
proof -
  have "sendBindingSuccess lib write pid req sv = Some (None, [(lib_raw lib m, dest)])"
    using assms by (simp add: sendBindingSuccess_def)
  then show ?thesis
    using advertiseNewPeer_ok [OF assms(4), of lib "write" partial ids pid]
      advertiseToPeer_ok [OF assms(4), of lib "write" ids pid]
    by (auto simp: after_update_def)
qed

lemma registration:
  assumes "server_ok sv" "binding_request lib sv req pid xa tp"
    and "\<not> keeps_session sv pid (server_session peer xa tp)"
    and "bindingSuccessMessage lib (registered peer pid xa tp sv) req peer = Inr m"
    and "write (lib_raw lib m) peer = None"
  shows "\<exists>ps. processMessage lib write partial ids (UDPAddr peer) req sv =
    Some (None, registered peer pid xa tp sv, (lib_raw lib m, peer) # ps)"
proof -
  have "sv_peers (registered peer pid xa tp sv) pid = Some (Some peer # tl (server_session peer xa tp))"
    by (simp add: server_session_def)
  then have "\<exists>ps. after_update lib write partial ids pid req True (registered peer pid xa tp sv) =
      Some (None, registered peer pid xa tp sv, (lib_raw lib m, peer) # ps)"
    using assms by (intro reply_sent) auto
  then show ?thesis
    using assms(3) by (simp add: processMessage_request [OF assms(1,2)])
qed

text \<open>
  A peer all of whose endpoints have changed is taken for unchanged: its old session stays, and the
  reply goes to the address it has left.
\<close>

lemma moved_peer:
  assumes "server_ok sv" "binding_request lib sv req pid xa tp"
    and "sv_peers sv pid = Some (map Some old)"
    and "list_all2 (\<lambda>a b. \<not> same_endpoint a b) old (map the (server_session peer xa tp))"
    and "bindingSuccessMessage lib sv req (hd old) = Inr m" "write (lib_raw lib m) (hd old) = None"
  shows "processMessage lib write partial ids (UDPAddr peer) req sv =
    Some (None, sv, [(lib_raw lib m, hd old)])"
proof -
  have "server_session peer xa tp = map Some (map the (server_session peer xa tp))"
    by (simp add: server_session_def)
  then have "Session_Equal (map Some old) (server_session peer xa tp) = Some True"
    using Session_Equal_differ [of old "map the (server_session peer xa tp)"] assms(4) by simp
  then have "keeps_session sv pid (server_session peer xa tp)"
    using assms(3) by (simp add: keeps_session_def)
  moreover have "old \<noteq> []" using assms(4) by (auto simp: server_session_def)
  then have "map Some old = Some (hd old) # map Some (tl old)" by (cases old) auto
  then have "sendBindingSuccess lib write pid req sv = Some (None, [(lib_raw lib m, hd old)])"
    using assms(3,5,6) by (simp add: sendBindingSuccess_def)
  ultimately show ?thesis
    by (simp add: processMessage_request [OF assms(1,2)] after_update_def)
qed

subsection \<open>The agent's request and the server's reply\<close>

lemma apply_three:
  "apply_all [f, g, h] m = Inr m3 \<longleftrightarrow> (\<exists>m1 m2. f m = Inr m1 \<and> g m1 = Inr m2 \<and> h m2 = Inr m3)"
  by (auto split: sum.splits)

text \<open>What the server reads in a request is what the agent's connection put there.\<close>

lemma request_understood:
  assumes laws: "stun_laws lib" and req: "bindingRequestMessage lib ov = Some (Inr req)"
    and sock: "overlay_sock ov = Some c" "ip_wf (IP (conn_laddr c))"
      "0 \<le> Port (conn_laddr c)" "Port (conn_laddr c) < 65536"
    and ports: "valid_ports (oc_torrentPorts (ov_Config ov))"
    and pwd: "oc_StunPassword (ov_Config ov) = sc_StunPassword (sv_cfg sv)"
  shows "\<exists>a. binding_request lib sv req (ov_ID ov) (a, Port (conn_laddr c)) (oc_torrentPorts (ov_Config ov)) \<and>
    ip_wf a \<and> ip_Equal a (IP (conn_laddr c))"
proof -
  let ?p = "oc_StunPassword (ov_Config ov)" and ?tp = "oc_torrentPorts (ov_Config ov)"
  obtain addr where addr: "resolve_literal (conn_laddr c) = Inr addr" "ip_wf (IP addr)"
      "Port addr = Port (conn_laddr c)" "ip_Equal (IP addr) (IP (conn_laddr c))"
    using resolve_literal_wf [OF sock(2)] resolve_literal_Equal [OF sock(2)] by blast
  let ?fs = "[lib_add_xor lib (IP addr, Port addr), TorrentPorts_AddTo lib ?tp, PeerID_AddTo lib (ov_ID ov)]"
  have "lib_build lib (lib_rand_tid lib # lib_set_type lib BindingRequest #
      ?fs @ [lib_add_integrity lib ?p, lib_add_fingerprint lib]) = Inr req"
    using req sock(1) addr(1) by (simp add: bindingRequestMessage_def)
  then obtain m0 m3 where m3: "apply_all ?fs m0 = Inr m3" and ty0: "lib_type lib m0 = BindingRequest"
    and empty: "\<And>t. is_err (lib_get lib m0 t)" and same: "same_content lib m3 req"
    and prot: "lib_check_integrity lib ?p req = None" "lib_check_fingerprint lib req = None"
    by (rule protected_build [OF laws _ header_lawsD(3) [OF laws]]) blast+
  obtain m1 where m1: "lib_add_xor lib (IP addr, Port addr) m0 = Inr m1"
    and m3_eq: "m3 = lib_add lib (lib_add lib m1 AttrEvenPort (ports_bytes ?tp)) AttrUsername (pid_bytes (ov_ID ov))"
    using m3 unfolding apply_three TorrentPorts_AddTo_def PeerID_AddTo_def by auto
  obtain a where a: "lib_get_xor lib m1 = Inr (a, Port addr)" "ip_wf a" "ip_Equal a (IP addr)"
    and m1_same: "lib_type lib m1 = lib_type lib m0" "lib_get lib m1 = lib_get lib m0"
    using header_lawsD(5) [OF laws addr(2) _ _ m1] addr(3) sock(3,4) by auto
  let ?m2 = "lib_add lib m1 AttrEvenPort (ports_bytes ?tp)"
  have "lib_get lib ?m2 AttrEvenPort = Inr (ports_bytes ?tp)"
    using attr_lawsD(2) [OF laws] empty m1_same(2) by simp
  then have "lib_get lib m3 AttrEvenPort = Inr (ports_bytes ?tp)"
    using attr_lawsD(3) [OF laws, of AttrEvenPort AttrUsername] by (simp add: m3_eq)
  then have "TorrentPorts_GetFrom lib m3 = Some (Inr ?tp)"
    using ports by (simp add: TorrentPorts_GetFrom_def ports_of_bytes_mod valid_ports_def)
  moreover have "is_err (lib_get lib ?m2 AttrUsername)"
    using attr_lawsD(3) [OF laws, of AttrUsername AttrEvenPort] empty m1_same(2) by simp
  then have "PeerID_GetFrom lib m3 = Inr (ov_ID ov)"
    using attr_lawsD(2) [OF laws] by (simp add: m3_eq PeerID_GetFrom_Inr)
  moreover have "lib_get_xor lib m3 = Inr (a, Port addr)" "lib_type lib m3 = BindingRequest"
    using attr_lawsD(4,5) [OF laws] a(1) m1_same(1) ty0 by (simp_all add: m3_eq)
  ultimately have parts: "TorrentPorts_GetFrom lib req = Some (Inr ?tp)" "PeerID_GetFrom lib req = Inr (ov_ID ov)"
      "lib_get_xor lib req = Inr (a, Port addr)" "lib_type lib req = BindingRequest"
    using same same_content_GetFrom [OF same] by (simp_all add: same_content_def)
  have "validateMessage lib req None ?p = None"
    by (rule validate_ok [OF laws parts(2) prot]) simp
  then have "binding_request lib sv req (ov_ID ov) (a, Port addr) ?tp"
    using parts pwd by (simp add: binding_request_def)
  moreover have "ip_Equal a (IP (conn_laddr c))"
    using ip_Equal_trans [OF a(2) addr(2) sock(2) a(3) addr(4)] .
  ultimately show ?thesis using a(2) addr(3) by auto
qed

text \<open>The agent accepts the reply; it learns the address the server sent it to.\<close>

lemma reply_understood:
  assumes laws: "stun_laws lib" and reply: "bindingSuccessMessage lib sv req dest = Inr m"
    and dest: "ip_wf (IP dest)" "0 \<le> Port dest" "Port dest < 65536"
    and pwd: "oc_StunPassword (ov_Config ov) = sc_StunPassword (sv_cfg sv)"
  shows "\<exists>a. good_reply lib ov m (a, Port dest) Map.empty \<and> ip_Equal a (IP dest)"
proof -
  let ?p = "sc_StunPassword (sv_cfg sv)"
  let ?fs = "[lib_add_xor lib (IP dest, Port dest), PeerID_AddTo lib (sv_ID sv), SessionTable_AddTo lib []]"
  have "lib_build lib (lib_set_tid lib (lib_tid lib req) # lib_set_type lib BindingSuccess #
      ?fs @ [lib_add_integrity lib ?p, lib_add_fingerprint lib]) = Inr m"
    using reply by (simp add: bindingSuccessMessage_def)
  then obtain m0 m3 where m3: "apply_all ?fs m0 = Inr m3" and ty0: "lib_type lib m0 = BindingSuccess"
    and empty: "\<And>t. is_err (lib_get lib m0 t)" and same: "same_content lib m3 m"
    and prot: "lib_check_integrity lib ?p m = None" "lib_check_fingerprint lib m = None"
    by (rule protected_build [OF laws _ header_lawsD(4) [OF laws]]) blast+
  obtain m1 where m1: "lib_add_xor lib (IP dest, Port dest) m0 = Inr m1"
    and table: "SessionTable_AddTo lib [] (lib_add lib m1 AttrUsername (pid_bytes (sv_ID sv))) = Inr m3"
    using m3 unfolding apply_three PeerID_AddTo_def by auto
  obtain a where a: "lib_get_xor lib m1 = Inr (a, Port dest)" "ip_wf a" "ip_Equal a (IP dest)"
    and m1_same: "lib_type lib m1 = lib_type lib m0" "lib_get lib m1 = lib_get lib m0"
    using header_lawsD(5) [OF laws dest m1] by auto
  let ?m2 = "lib_add lib m1 AttrUsername (pid_bytes (sv_ID sv))"
  have "is_err (lib_get lib ?m2 AttrData)"
    using attr_lawsD(3) [OF laws, of AttrData AttrUsername] empty m1_same(2) by simp
  then have st: "GetSessionTableFrom lib m3 = Inr Map.empty"
    using SessionTable_AddTo_GetFrom [OF laws _ table] by simp
  obtain d where m3_eq: "m3 = lib_add lib ?m2 AttrData d"
    using table by (auto simp: SessionTable_AddTo_def split: sum.splits)
  have "lib_get lib ?m2 AttrUsername = Inr (pid_bytes (sv_ID sv))"
    using attr_lawsD(2) [OF laws] empty m1_same(2) by simp
  then have "PeerID_GetFrom lib m3 = Inr (sv_ID sv)"
    using attr_lawsD(3) [OF laws, of AttrUsername AttrData] by (simp add: m3_eq PeerID_GetFrom_Inr)
  moreover have "lib_get_xor lib m3 = Inr (a, Port dest)" "lib_type lib m3 = BindingSuccess"
    using attr_lawsD(4,5) [OF laws] a(1) m1_same(1) ty0 by (simp_all add: m3_eq)
  ultimately have parts: "PeerID_GetFrom lib m = Inr (sv_ID sv)" "lib_get_xor lib m = Inr (a, Port dest)"
      "lib_type lib m = BindingSuccess" "GetSessionTableFrom lib m = Inr Map.empty"
    using st same same_content_GetFrom [OF same] by (simp_all add: same_content_def)
  have "validateMessage lib m (Some BindingSuccess) ?p = None"
    by (rule validate_ok [OF laws parts(1) prot]) (simp add: parts(3))
  then have "good_reply lib ov m (a, Port dest) Map.empty"
    using parts a(2) pwd by (simp add: good_reply_def)
  with a(3) show ?thesis by blast
qed

subsection \<open>The database file\<close>

definition updates_codec ::
  "((string \<rightharpoonup> notification) \<Rightarrow> bytes result) \<Rightarrow> (bytes \<Rightarrow> (string \<rightharpoonup> notification) result) \<Rightarrow> bool" where
  "updates_codec encode decode \<longleftrightarrow>
     (\<forall>m b. encode m = Inr b \<longrightarrow> decode b = Inr m) \<and> is_err (decode [])"

lemma save_load:
  assumes "updates_codec encode decode" "encode (sv_updates sv) = Inr data"
    and "sv_lastModified sv > sv_lastSaved sv"
  shows "saveUpdates encode None None (sv, db) = (sv\<lparr>sv_lastSaved := sv_lastModified sv\<rparr>, Some data)"
    "\<exists>t. loadUpdates decode None (Some data) sv0 = Inr t \<and> sv_updates t = sv_updates sv"
  using assms by (auto simp: saveUpdates_def loadUpdates_def updates_codec_def)

lemma save_nothing_new:
  "sv_lastModified sv \<le> sv_lastSaved sv \<Longrightarrow> saveUpdates encode openf wrote (sv, db) = (sv, db)"
  by (simp add: saveUpdates_def)

text \<open>A save that fails after the file has been truncated leaves a file a restart rejects.\<close>

lemma failed_save_blocks_restart:
  assumes "updates_codec encode decode" "encode (sv_updates sv) = Inr data"
    and "sv_lastModified sv > sv_lastSaved sv"
  shows "saveUpdates encode None (Some (e, 0)) (sv, db) = (sv, Some [])"
    "is_err (NewServer decode cfg (Inr a) (Inr i) (Inr k) None (Some []))"
  using assms by (auto simp: saveUpdates_def loadUpdates_def NewServer_def updates_codec_def is_err_def
      split: sum.splits)

subsection \<open>Sending an update over UDP\<close>

lemma notify_loop_stopped:
  assumes "server_ok sv"
  shows "notify_loop write conn raw (sv_peers sv) (Some e) ids = Some []"
proof (induction ids)
  case (Cons i ids)
  then show ?case
  proof (cases "sv_peers sv i")
    case (Some s)
    then obtain u v w x where "s = [Some u, Some v, Some w, Some x]" using server_okD [OF assms] by blast
    with Cons Some show ?thesis by simp
  qed simp
qed simp

definition peer_addrs :: "'pub server \<Rightarrow> peer_id list \<Rightarrow> udp_addr list" where
  "peer_addrs sv ids = map (\<lambda>i. the (the (sv_peers sv i) ! 0)) (filter (\<lambda>i. sv_peers sv i \<noteq> None) ids)"

lemma notify_loop_prefix:
  assumes "server_ok sv"
  shows "notify_loop write (Some c) raw (sv_peers sv) None ids =
    Some (map (\<lambda>a. (raw, a)) (takeWhile (\<lambda>a. write raw a = None) (peer_addrs sv ids)))"
proof (induction ids)
  case (Cons i ids)
  then show ?case
  proof (cases "sv_peers sv i")
    case (Some s)
    then obtain u v w x where s: "s = [Some u, Some v, Some w, Some x]" using server_okD [OF assms] by blast
    show ?thesis
    proof (cases "write raw u")
      case None
      with Cons Some s show ?thesis by (simp add: sock_send_def packet_of_def peer_addrs_def)
    next
      case (Some e)
      with \<open>sv_peers sv i = Some s\<close> s notify_loop_stopped [OF assms] show ?thesis
        by (simp add: sock_send_def peer_addrs_def)
    qed
  qed (simp add: peer_addrs_def)
qed (simp add: peer_addrs_def)

end
