(* ===== verification/Examples_Node.thy ===== *)
theory Examples_Node
  imports Examples Agent_Store Server_Safety
begin

section \<open>A reference signature scheme, a server and an agent\<close>

text \<open>
  An instance of the notification library whose two keys fit (a signature is the key followed by the
  hash), with a decoder that rejects everything; a server that knows one peer; an agent with the
  default configuration.  They model no code of the repository: the witnesses use them.
\<close>

definition ref_json :: "notification \<Rightarrow> bytes" where
  "ref_json n = map of_char (n_UUID n) @ [ucast (n_Version n)]"

definition ref_notif :: "(bytes, bytes) notif_lib" where
  "ref_notif = \<lparr>
     nl_json = (\<lambda>n. Inr (ref_json n)),
     nl_sha256 = (\<lambda>b. b),
     nl_sign = (\<lambda>key h. Inr (key @ h)),
     nl_verify = (\<lambda>key h s. if s = key @ h then None else Some (ErrMsg ''verification error'')),
     nl_bencode = (\<lambda>n. Inr (ref_json n)),
     nl_bdecode = (\<lambda>b n. (n, Some (ErrMsg ''bencode: syntax error''))),
     nl_build_info = (\<lambda>filename i. Inr (i\<lparr>ti_Name := filename\<rparr>)),
     nl_info_bytes = (\<lambda>i. Inr []) \<rparr>"

lemma ref_key_pair: "key_pair ref_notif key key"
  by (simp add: key_pair_def ref_notif_def)

definition ex_key :: bytes where
  "ex_key = [42]"

definition ex_notif :: "64 word \<Rightarrow> notification" where
  "ex_notif v = fst (Sign ref_notif ex_key (zero_notification\<lparr>n_UUID := UUIDShell, n_Version := v\<rparr>))"

lemma ex_notif_sel [simp]: "n_UUID (ex_notif v) = UUIDShell" "n_Version (ex_notif v) = v"
  by (simp_all add: ex_notif_def Sign_def ref_notif_def)

lemma ex_notif_verifies [simp]: "verifies ref_notif ex_key (ex_notif v)"
proof -
  have "snd (Sign ref_notif ex_key (zero_notification\<lparr>n_UUID := UUIDShell, n_Version := v\<rparr>)) = None"
    by (simp add: Sign_def ref_notif_def)
  then show ?thesis
    unfolding ex_notif_def by (rule Sign_verifies [OF ref_key_pair])
qed

lemma ref_bencode: "nl_bencode ref_notif n = Inr (ref_json n)" and ref_json_length: "length (ref_json n) = Suc (length (n_UUID n))"
  by (simp_all add: ref_notif_def ref_json_def)

lemma ref_metainfo: "\<exists>mi. torrentMetainfo ref_notif n = Inr mi"
  by (simp add: torrentMetainfo_def ref_notif_def)

subsection \<open>The server\<close>

definition ex_node :: "bytes server" where
  "ex_node = \<lparr>sv_Addr = ex_server, sv_ID = ex_pid2, sv_peers = Map.empty, sv_cfg = DefaultServerConfig,
     sv_udpConn = Some 5, sv_publicKey = ex_key, sv_updates = Map.empty, sv_lastModified = 1, sv_lastSaved = 0\<rparr>"

lemma ex_node_sel [simp]:
  "sv_peers ex_node = Map.empty" "sv_updates ex_node = Map.empty" "sv_publicKey ex_node = ex_key"
  "sv_cfg ex_node = DefaultServerConfig" "sv_lastSaved ex_node < sv_lastModified ex_node" "server_ok ex_node"
  "sv_ID ex_node = ex_pid2" "sv_udpConn ex_node = Some 5"
  by (simp_all add: ex_node_def server_ok_def)

lemma ex_password: "oc_StunPassword ex_cfg = sc_StunPassword DefaultServerConfig"
  by (simp add: ex_cfg_def default_overlay_config_def DefaultServerConfig_def)

lemma ref_success: "ip_wf (IP dest) \<Longrightarrow> \<exists>m. bindingSuccessMessage ref_stun sv req dest = Inr m"
  using ref_norm_wf [of "IP dest"]
  by (auto simp: bindingSuccessMessage_def ref_stun_def PeerID_AddTo_def SessionTable_AddTo_def)

lemma ex_external_wf: "ip_wf (IP ex_external)" "0 \<le> Port ex_external" "Port ex_external < 65536"
  by (simp_all add: ex_external_def ip_wf_def)

lemma ex_sock_wf: "ip_wf (IP (conn_laddr ex_sock))" "0 \<le> Port (conn_laddr ex_sock)" "Port (conn_laddr ex_sock) < 65536"
  by (simp_all add: ex_sock_def ex_local_def ip_wf_def)

text \<open>A binding request as a message of the reference library, with any text for the ports.\<close>

definition ex_request_from :: "peer_id \<Rightarrow> bytes \<Rightarrow> ref_msg" where
  "ex_request_from pid ports = RefMsg BindingRequest [] [(AttrUsername, pid_bytes pid), (AttrEvenPort, ports)]
     (Some (IP ex_local, Port ex_local)) (Some defaultStunPassword) True"

lemma ex_request_from_valid:
  "validateMessage ref_stun (ex_request_from pid ports) None defaultStunPassword = None"
  "lib_type ref_stun (ex_request_from pid ports) = BindingRequest"
  "PeerID_GetFrom ref_stun (ex_request_from pid ports) = Inr pid"
  "lib_get_xor ref_stun (ex_request_from pid ports) = Inr (IP ex_local, Port ex_local)"
  "lib_get ref_stun (ex_request_from pid ports) AttrEvenPort = Inr ports"
  by (simp_all add: validateMessage_None_iff PeerID_GetFrom_Inr ref_stun_def ex_request_from_def ref_get_def
      ref_get_xor_def ex_local_def ip_wf_def)

lemma ex_binding_request:
  "ports_of_bytes ports = Some tp \<Longrightarrow> sc_StunPassword (sv_cfg sv) = defaultStunPassword \<Longrightarrow>
   binding_request ref_stun sv (ex_request_from pid ports) pid (IP ex_local, Port ex_local) tp"
  by (simp add: binding_request_def ex_request_from_valid TorrentPorts_GetFrom_def)

text \<open>The ports 5 and 6 as an attribute.\<close>

definition ex_ports :: bytes where
  "ex_ports = ports_bytes (5, 6)"

lemma ex_ports: "ports_of_bytes ex_ports = Some (5, 6)"
  by (simp add: ex_ports_def ports_of_bytes_mod)

lemma default_server_password: "sc_StunPassword DefaultServerConfig = defaultStunPassword"
  by (simp add: DefaultServerConfig_def)

subsection \<open>The agent\<close>

definition ex_agent :: "bytes agent" where
  "ex_agent = \<lparr>ag_Config = DefaultConfig (Inr ''/root''), ag_Overlay = None, ag_PublicKey = ex_key,
     ag_updates = Map.empty, ag_heap = Map.empty, ag_next = 0, ag_dataDir = ''/data/update'',
     ag_metadataDir = ''/data/notification'', ag_disk = Map.empty, ag_buf = ex_notif 1,
     ag_bufs = Map.empty, ag_log = []\<rparr>"

lemma ex_agent_sel [simp]:
  "ag_updates ex_agent = Map.empty" "ag_heap ex_agent = Map.empty" "ag_PublicKey ex_agent = ex_key"
  "ag_Overlay ex_agent = None" "ag_buf ex_agent = ex_notif 1" "ag_log ex_agent = []" "ag_next ex_agent = 0"
  "ag_dataDir ex_agent = ''/data/update''" "ag_Config ex_agent = DefaultConfig (Inr ''/root'')"
  by (simp_all add: ex_agent_def)

lemma ex_agent_init: "agent_init ex_agent"
  by (simp add: agent_init_def)

lemma ex_agent_ok [simp]: "agent_ok ref_notif ex_agent"
  by (rule agent_init_ok [OF ex_agent_init])

lemma ex_agent_wf [simp]: "heap_wf ex_agent"
  using ex_agent_ok by (simp add: agent_ok_def del: ex_agent_ok)

lemma ex_agent_no_locks [simp]: "no_locks ex_agent"
  by (simp add: no_locks_def)

text \<open>The same agent with version 1 of an update running, torrent 7.\<close>

definition ex_update :: update where
  "ex_update = blank_update\<lparr>u_Notification := ex_notif 1, u_torrent := Some 7\<rparr>"

definition ex_busy :: "bytes agent" where
  "ex_busy = ex_agent\<lparr>ag_updates := [UUIDShell \<mapsto> 0], ag_heap := [0 \<mapsto> ex_update], ag_next := 1\<rparr>"

lemma ex_update_sel [simp]:
  "u_Notification ex_update = ex_notif 1" "u_torrent ex_update = Some 7" "\<not> u_locked ex_update"
  "\<not> u_Stopped ex_update" "\<not> u_Sent ex_update" "u_DeployFails ex_update = 0"
  by (simp_all add: ex_update_def blank_update_def)

lemma ex_busy_sel [simp]:
  "ag_updates ex_busy = [UUIDShell \<mapsto> 0]" "ag_heap ex_busy = [0 \<mapsto> ex_update]" "ag_PublicKey ex_busy = ex_key"
  "ag_Overlay ex_busy = None" "ag_log ex_busy = []" "ag_next ex_busy = 1"
  by (simp_all add: ex_busy_def)

lemma ex_busy_wf [simp]: "heap_wf ex_busy"
  by (simp add: heap_wf_def)

lemma ex_busy_no_locks [simp]: "no_locks ex_busy"
  by (simp add: no_locks_def)

lemma ex_busy_ok [simp]: "agent_ok ref_notif ex_busy"
  by (simp add: agent_ok_def all_verified_def)

definition ex_update_env :: update_env where
  "ex_update_env = \<lparr>ue_add = Inr 8, ue_rm_data = None, ue_rm_meta = None\<rparr>"

text \<open>An encoding of one update only.\<close>

definition ex_one_json :: "update \<Rightarrow> update_json" where
  "ex_one_json v = \<lparr>uj_encode = (\<lambda>u. if u\<lparr>u_torrent := None, u_locked := False\<rparr> = v\<lparr>u_torrent := None, u_locked := False\<rparr>
       then Inr [1] else Inl ErrNotReady),
     uj_decode = (\<lambda>b u0. Inr (v\<lparr>u_torrent := u_torrent u0, u_locked := u_locked u0\<rparr>))\<rparr>"

lemma same_exported:
  "u\<lparr>u_torrent := None, u_locked := False\<rparr> = v\<lparr>u_torrent := None, u_locked := False\<rparr> \<Longrightarrow>
   v\<lparr>u_torrent := t, u_locked := l\<rparr> = u\<lparr>u_torrent := t, u_locked := l\<rparr>" for u v :: update
  by (cases u; cases v) simp

lemma ex_one_json_laws: "update_json_laws (ex_one_json v)"
  unfolding update_json_laws_def
proof (intro allI impI)
  fix u b u0
  assume "uj_encode (ex_one_json v) u = Inr b"
  then have "u\<lparr>u_torrent := None, u_locked := False\<rparr> = v\<lparr>u_torrent := None, u_locked := False\<rparr>"
    by (simp add: ex_one_json_def split: if_splits)
  from same_exported [OF this]
  show "uj_decode (ex_one_json v) b u0 = Inr (u\<lparr>u_torrent := u_torrent u0, u_locked := u_locked u0\<rparr>)"
    by (simp add: ex_one_json_def)
qed

end
