(* ===== verification/Server_Run.thy ===== *)
theory Server_Run
  imports Server_Safety
begin

section \<open>The running server (\<open>serveUDP\<close>, \<open>udpWorker\<close>, timers, HTTP)\<close>

text \<open>
  \<open>serveUDP\<close> puts decoded datagrams into a channel of 100 jobs; three workers take them; timers save
  the database and advertise the table; HTTP requests arrive at any time.  A worker takes and releases
  the server's lock several times for one request, so its work is split where the lock is free:
  updating the table, replying, announcing the new peer, sending it the table.  The last one reads the
  table without a lock.  \<open>racy\<close> says whether the Go runtime may notice that one goroutine ranges over
  the map of peers while another writes to it, which ends the process.
\<close>

subsection \<open>State and steps\<close>

datatype 'm phase =
    Waiting
  | Job net_addr 'm
  | Reply peer_id 'm bool
  | Announce peer_id
  | SendTable peer_id

record ('m, 'pub) node =
  nd_server :: "'pub server"
  nd_jobs :: "(net_addr \<times> 'm) list"
  nd_workers :: "'m phase list"
  nd_db :: "bytes option"

datatype ('m, 'pub) node_config = Up "('m, 'pub) node" | Down

text \<open>The part of a request up to the update of the table: the peer, and whether it is to be announced.\<close>

definition register_phase ::
  "'m stun_lib \<Rightarrow> net_addr \<Rightarrow> 'm \<Rightarrow> 'pub server \<Rightarrow> ((peer_id \<times> bool) result \<times> 'pub server) may_panic" where
  "register_phase lib addr req sv =
     (case validateMessage lib req None (sc_StunPassword (sv_cfg sv)) of
        Some e \<Rightarrow> Some (Inl (ErrMsg ''Invalid message''), sv)
      | None \<Rightarrow>
          (if lib_type lib req \<noteq> BindingRequest then Some (Inl (ErrMsg ''message type is not STUN binding''), sv)
           else case PeerID_GetFrom lib req of
             Inl e \<Rightarrow> Some (Inl (ErrMsg ''Failed to read peer ID''), sv)
           | Inr pid \<Rightarrow> (case lib_get_xor lib req of
             Inl e \<Rightarrow> Some (Inl (ErrMsg ''failed getting peer internal address''), sv)
           | Inr xa \<Rightarrow> (case TorrentPorts_GetFrom lib req of
             None \<Rightarrow> None
           | Some (Inl e) \<Rightarrow> Some (Inl (ErrMsg ''failed getting torrent-ports''), sv)
           | Some (Inr tp) \<Rightarrow> (case server_updateSessionTable addr pid xa tp sv of
             None \<Rightarrow> None
           | Some (Inl e, sv1) \<Rightarrow> Some (Inl (ErrMsg ''failed evaluating peer session''), sv1)
           | Some (Inr updated, sv1) \<Rightarrow> Some (Inr (pid, updated), sv1))))))"

text \<open>Run without interruption, the phases are \<open>processMessage\<close>.\<close>

lemma processMessage_phases:
  "processMessage lib write partial ids addr req sv =
    (case register_phase lib addr req sv of
       None \<Rightarrow> None
     | Some (Inl e, sv1) \<Rightarrow> Some (Some e, sv1, [])
     | Some (Inr (pid, updated), sv1) \<Rightarrow> after_update lib write partial ids pid req updated sv1)"
  by (simp add: processMessage_def registerPeer_def register_phase_def after_update_def
      split: option.split sum.split prod.split)

definition jobs_cap :: nat where
  "jobs_cap = 100"

definition set_worker :: "nat \<Rightarrow> 'm phase \<Rightarrow> ('m, 'pub) node \<Rightarrow> ('m, 'pub) node" where
  "set_worker i p n = n\<lparr>nd_workers := (nd_workers n)[i := p]\<rparr>"

abbreviation worker :: "('m, 'pub) node \<Rightarrow> nat \<Rightarrow> 'm phase \<Rightarrow> bool" where
  "worker n i p \<equiv> i < length (nd_workers n) \<and> nd_workers n ! i = p"

inductive nstep ::
  "'m stun_lib \<Rightarrow> ('priv, 'pub) notif_lib \<Rightarrow> bool \<Rightarrow> ('m, 'pub) node_config \<Rightarrow> ('m, 'pub) node_config \<Rightarrow> bool"
  for lib :: "'m stun_lib" and nlib :: "('priv, 'pub) notif_lib" and racy :: bool where
  receive: "receive_job lib datagram = Some req \<Longrightarrow> length (nd_jobs n) < jobs_cap \<Longrightarrow>
    nstep lib nlib racy (Up n) (Up (n\<lparr>nd_jobs := nd_jobs n @ [(addr, req)]\<rparr>))"
| take_job: "worker n i Waiting \<Longrightarrow> nd_jobs n = (addr, req) # js \<Longrightarrow>
    nstep lib nlib racy (Up n) (Up (set_worker i (Job addr req) (n\<lparr>nd_jobs := js\<rparr>)))"
| register_panic: "worker n i (Job addr req) \<Longrightarrow> register_phase lib addr req (nd_server n) = None \<Longrightarrow>
    nstep lib nlib racy (Up n) Down"
| register_error: "worker n i (Job addr req) \<Longrightarrow> register_phase lib addr req (nd_server n) = Some (Inl e, sv) \<Longrightarrow>
    nstep lib nlib racy (Up n) (Up (set_worker i Waiting (n\<lparr>nd_server := sv\<rparr>)))"
| register_ok: "worker n i (Job addr req) \<Longrightarrow>
    register_phase lib addr req (nd_server n) = Some (Inr (pid, updated), sv) \<Longrightarrow>
    nstep lib nlib racy (Up n) (Up (set_worker i (Reply pid req updated) (n\<lparr>nd_server := sv\<rparr>)))"
| reply_panic: "worker n i (Reply pid req updated) \<Longrightarrow> sendBindingSuccess lib write pid req (nd_server n) = None \<Longrightarrow>
    nstep lib nlib racy (Up n) Down"
| reply: "worker n i (Reply pid req updated) \<Longrightarrow> sendBindingSuccess lib write pid req (nd_server n) = Some (err, ps) \<Longrightarrow>
    nstep lib nlib racy (Up n) (Up (set_worker i (if err = None \<and> updated then Announce pid else Waiting) n))"
| announce_panic: "worker n i (Announce pid) \<Longrightarrow> advertiseNewPeer lib write partial ids pid (nd_server n) = None \<Longrightarrow>
    nstep lib nlib racy (Up n) Down"
| announce: "worker n i (Announce pid) \<Longrightarrow> advertiseNewPeer lib write partial ids pid (nd_server n) = Some ps \<Longrightarrow>
    nstep lib nlib racy (Up n) (Up (set_worker i (SendTable pid) n))"
| table_panic: "worker n i (SendTable pid) \<Longrightarrow> advertiseSessionTableToPeer lib write ids pid (nd_server n) = None \<Longrightarrow>
    nstep lib nlib racy (Up n) Down"
| table: "worker n i (SendTable pid) \<Longrightarrow> advertiseSessionTableToPeer lib write ids pid (nd_server n) = Some ps \<Longrightarrow>
    nstep lib nlib racy (Up n) (Up (set_worker i Waiting n))"
| race: "racy \<Longrightarrow> worker n i (SendTable pid) \<Longrightarrow> worker n j (Job addr req) \<Longrightarrow>
    register_phase lib addr req (nd_server n) = Some (Inr (pid', True), sv) \<Longrightarrow> nstep lib nlib racy (Up n) Down"
| http: "serveHTTPRequest nlib decode encode now meth body (nd_server n) = (rep, sv, job) \<Longrightarrow>
    nstep lib nlib racy (Up n) (Up (n\<lparr>nd_server := sv\<rparr>))"
| notify_panic: "sendUpdateNotificationOverUDP lib nlib write ids notif (nd_server n) = None \<Longrightarrow>
    nstep lib nlib racy (Up n) Down"
| save: "saveUpdates encode openf wrote (nd_server n, nd_db n) = (sv, db) \<Longrightarrow>
    nstep lib nlib racy (Up n) (Up (n\<lparr>nd_server := sv, nd_db := db\<rparr>))"
| tick_panic: "advertiseSessionTable lib write ids ds (nd_server n) = None \<Longrightarrow> nstep lib nlib racy (Up n) Down"

inductive_cases nstep_UpE [consumes 1, case_names receive take_job register_panic register_error register_ok reply_panic
    reply announce_panic announce table_panic table race http notify_panic save tick_panic]: "nstep lib nlib racy (Up n) c"
inductive_cases nstep_DownE: "nstep lib nlib racy Down c"

text \<open>\<open>NewServer\<close>, then \<open>serveUDP\<close> with its socket, three idle workers and an empty channel.\<close>

definition node_init :: "('priv, 'pub) notif_lib \<Rightarrow> ('m, 'pub) node_config \<Rightarrow> bool" where
  "node_init nlib c \<longleftrightarrow>
     (\<exists>decode cfg addr pid pub openf db sv sock.
        NewServer decode cfg (Inr addr) (Inr pid) (Inr pub) openf db = Inr sv \<and> updates_verified nlib sv \<and>
        c = Up \<lparr>nd_server = sv\<lparr>sv_udpConn := Some sock\<rparr>, nd_jobs = [],
          nd_workers = replicate 3 Waiting, nd_db = db\<rparr>)"

subsection \<open>The invariant\<close>

fun phase_ok :: "'pub server \<Rightarrow> 'm phase \<Rightarrow> bool" where
  "phase_ok sv (Reply pid req updated) \<longleftrightarrow> sv_peers sv pid \<noteq> None"
| "phase_ok sv (Announce pid) \<longleftrightarrow> sv_peers sv pid \<noteq> None"
| "phase_ok sv (SendTable pid) \<longleftrightarrow> sv_peers sv pid \<noteq> None"
| "phase_ok sv _ \<longleftrightarrow> True"

definition node_ok :: "('priv, 'pub) notif_lib \<Rightarrow> ('m, 'pub) node \<Rightarrow> bool" where
  "node_ok nlib n \<longleftrightarrow> server_ok (nd_server n) \<and> updates_verified nlib (nd_server n) \<and>
     length (nd_jobs n) \<le> jobs_cap \<and> (\<forall>p \<in> set (nd_workers n). phase_ok (nd_server n) p)"

text \<open>A request that makes a worker panic: valid, but with a port attribute of less than eight bytes.\<close>

definition short_request :: "'m stun_lib \<Rightarrow> 'pub server \<Rightarrow> 'm \<Rightarrow> bool" where
  "short_request lib sv req \<longleftrightarrow>
     validateMessage lib req None (sc_StunPassword (sv_cfg sv)) = None \<and>
     lib_type lib req = BindingRequest \<and> \<not> is_err (PeerID_GetFrom lib req) \<and>
     \<not> is_err (lib_get_xor lib req) \<and> TorrentPorts_GetFrom lib req = None"

lemma phase_ok_mono:
  assumes "phase_ok sv p" "\<And>pid. sv_peers sv pid \<noteq> None \<Longrightarrow> sv_peers sv' pid \<noteq> None"
  shows "phase_ok sv' p"
  using assms by (cases p) auto

lemma register_phase_panic:
  assumes "server_ok sv" "register_phase lib addr req sv = None"
  shows "short_request lib sv req"
proof -
  have "processMessage lib (\<lambda>_ _. None) [] [] addr req sv = None"
    by (simp add: processMessage_phases assms(2))
  then show ?thesis
    unfolding processMessage_panic_iff [OF assms(1)] short_request_def .
qed

text \<open>What the first phase can do to the server: register the peer, or nothing.\<close>

lemma register_phase_Some:
  assumes "server_ok sv" "register_phase lib addr req sv = Some (r, sv')"
  shows "(sv' = sv \<and> (is_err r \<or> (\<exists>pid. r = Inr (pid, False) \<and> sv_peers sv pid \<noteq> None))) \<or>
    (\<exists>peer pid xa tp. r = Inr (pid, True) \<and> sv' = registered peer pid xa tp sv)"
proof (cases addr)
  case (OtherAddr t)
  then show ?thesis
    using assms(2)
    by (auto simp: register_phase_def update_other split: option.splits sum.splits prod.splits if_splits)
next
  case (UDPAddr peer)
  then show ?thesis
    using assms(2)
    by (auto simp: register_phase_def update_cases [OF assms(1)] keeps_session_def
        simp del: split_paired_Ex split_paired_All
        split: option.splits sum.splits prod.splits if_splits, blast+)
qed

lemma phase_ok_registered:
  "phase_ok sv p \<Longrightarrow> phase_ok (registered peer pid xa tp sv) p"
  by (erule phase_ok_mono) simp

lemma node_ok_init: "node_init nlib c \<Longrightarrow> \<exists>n. c = Up n \<and> node_ok nlib n"
proof -
  assume "node_init nlib c"
  then obtain decode cfg addr pid pub openf db sv sock where
    new: "NewServer decode cfg (Inr addr) (Inr pid) (Inr pub) openf db = Inr sv"
    and ver: "updates_verified nlib sv"
    and c: "c = Up \<lparr>nd_server = sv\<lparr>sv_udpConn := Some sock\<rparr>, nd_jobs = [],
          nd_workers = replicate 3 Waiting, nd_db = db\<rparr>"
    unfolding node_init_def by blast
  have "sv_peers sv = Map.empty"
    using new by (auto simp: NewServer_def loadUpdates_def Let_def split: sum.splits option.splits)
  then show ?thesis
    using ver by (simp add: c node_ok_def server_ok_def updates_verified_def)
qed

lemma node_ok_set_worker:
  "node_ok nlib n \<Longrightarrow> phase_ok (nd_server n) p \<Longrightarrow> node_ok nlib (set_worker i p n)"
  using set_update_subset_insert [of "nd_workers n" i p]
  by (auto simp: node_ok_def set_worker_def)

lemma node_ok_workerD: "node_ok nlib n \<Longrightarrow> worker n i p \<Longrightarrow> phase_ok (nd_server n) p"
  by (auto simp: node_ok_def)

text \<open>A server that has not changed its peers, and whose updates verify, is fine.\<close>

lemma node_ok_server:
  assumes "node_ok nlib n" "sv_peers sv = sv_peers (nd_server n)" "updates_verified nlib sv"
  shows "node_ok nlib (n\<lparr>nd_server := sv\<rparr>)"
proof -
  have "phase_ok sv p" if "p \<in> set (nd_workers n)" for p
  proof -
    have "phase_ok (nd_server n) p" using assms(1) that by (simp add: node_ok_def)
    then show ?thesis by (rule phase_ok_mono) (simp add: assms(2))
  qed
  then show ?thesis using assms by (simp add: node_ok_def server_ok_def)
qed

lemma node_ok_registered:
  assumes "node_ok nlib n"
  shows "node_ok nlib (n\<lparr>nd_server := registered peer pid xa tp (nd_server n)\<rparr>)"
proof -
  have "updates_verified nlib (registered peer pid xa tp (nd_server n)) = updates_verified nlib (nd_server n)"
    by (simp add: updates_verified_def registered_def)
  moreover have "\<forall>p \<in> set (nd_workers n). phase_ok (registered peer pid xa tp (nd_server n)) p"
    using assms phase_ok_registered unfolding node_ok_def by blast
  ultimately show ?thesis using assms by (simp add: node_ok_def)
qed

lemma http_ok:
  assumes "node_ok nlib n" "serveHTTPRequest nlib decode encode now meth body (nd_server n) = (rep, sv, job)"
  shows "node_ok nlib (n\<lparr>nd_server := sv\<rparr>)"
proof -
  have "sv = nd_server n \<or> (\<exists>code job. servePostRequest nlib decode now body (nd_server n) = (code, sv, job))"
    using assms(2) by (auto simp: serveHTTPRequest_def split: if_splits prod.splits)
  then show ?thesis
  proof
    assume "\<exists>code job. servePostRequest nlib decode now body (nd_server n) = (code, sv, job)"
    then obtain code job where post: "servePostRequest nlib decode now body (nd_server n) = (code, sv, job)" by blast
    have "sv_peers sv = sv_peers (nd_server n)"
      using servePost_server [OF post] by (auto simp: accept_update_frame)
    moreover have "updates_verified nlib sv"
      using servePost_verified [OF _ post] assms(1) by (simp add: node_ok_def)
    ultimately show ?thesis by (rule node_ok_server [OF assms(1)])
  qed (use assms(1) in simp)
qed

lemma save_ok:
  assumes "node_ok nlib n" "saveUpdates encode openf wrote (nd_server n, nd_db n) = (sv, db)"
  shows "node_ok nlib (n\<lparr>nd_server := sv, nd_db := db\<rparr>)"
proof -
  have "sv_peers sv = sv_peers (nd_server n)" "updates_verified nlib sv = updates_verified nlib (nd_server n)"
    using assms(2) by (auto simp: saveUpdates_def updates_verified_def Let_def split: if_splits option.splits sum.splits prod.splits)
  then have "node_ok nlib (n\<lparr>nd_server := sv\<rparr>)"
    using assms(1) by (intro node_ok_server) (auto simp: node_ok_def)
  then show ?thesis by (simp add: node_ok_def)
qed

text \<open>The first phase of a worker, when it does not panic.\<close>

lemma register_phase_ok:
  assumes ok: "node_ok nlib n" and phase: "register_phase lib addr req (nd_server n) = Some (res, sv)"
  shows "case res of Inl e \<Rightarrow> sv = nd_server n
    | Inr (pid, updated) \<Rightarrow> node_ok nlib (n\<lparr>nd_server := sv\<rparr>) \<and> sv_peers sv pid \<noteq> None"
proof (cases res)
  case (Inl e)
  then show ?thesis using phase register_phase_Some [of "nd_server n" lib addr req "Inl e" sv] ok by (auto simp: node_ok_def)
next
  case (Inr r)
  obtain pid updated where r: "r = (pid, updated)" by (cases r)
  then consider "sv = nd_server n" "sv_peers sv pid \<noteq> None"
    | peer xa tp where "sv = registered peer pid xa tp (nd_server n)"
    using phase Inr register_phase_Some [of "nd_server n" lib addr req "Inr (pid, updated)" sv] ok by (auto simp: node_ok_def)
  then have "node_ok nlib (n\<lparr>nd_server := sv\<rparr>) \<and> sv_peers sv pid \<noteq> None"
    using ok node_ok_registered by cases auto
  then show ?thesis using Inr r by simp
qed

text \<open>A node that is fine stays fine as long as it is up.\<close>

lemma nstep_up:
  assumes ok: "node_ok nlib n" and step: "nstep lib nlib racy (Up n) (Up m)"
  shows "node_ok nlib m"
  using step
proof (cases rule: nstep_UpE)
  case (receive datagram req addr)
  then show ?thesis using ok by (simp add: node_ok_def)
next
  case (take_job i addr req js)
  then have "node_ok nlib (n\<lparr>nd_jobs := js\<rparr>)" using ok by (simp add: node_ok_def)
  then show ?thesis
    using take_job node_ok_set_worker [of nlib "n\<lparr>nd_jobs := js\<rparr>" "Job addr req" i] by auto
next
  case (register_error i addr req e sv)
  then show ?thesis
    using register_phase_ok [OF ok, of lib addr req "Inl e" sv] ok node_ok_set_worker [of nlib "n\<lparr>nd_server := sv\<rparr>" Waiting i] by simp
next
  case (register_ok i addr req pid updated sv)
  then show ?thesis
    using register_phase_ok [OF ok, of lib addr req "Inr (pid, updated)" sv] node_ok_set_worker [of nlib "n\<lparr>nd_server := sv\<rparr>" "Reply pid req updated" i]
    by simp
next
  case (reply i pid req updated "write" err ps)
  then have "phase_ok (nd_server n) (Announce pid :: 'm phase)"
    using node_ok_workerD [OF ok, of i "Reply pid req updated"] by simp
  then show ?thesis using reply node_ok_set_worker [OF ok] by auto
next
  case (announce i pid "write" partial ids ps)
  then show ?thesis
    using node_ok_workerD [OF ok, of i "Announce pid"] node_ok_set_worker [OF ok, of "SendTable pid" i] by simp
next
  case (table i pid "write" ids ps)
  then show ?thesis using node_ok_set_worker [OF ok, of Waiting i] by simp
next
  case (http decode encode now meth body rep sv job)
  then show ?thesis using http_ok [OF ok] by blast
next
  case (save encode openf wrote sv db)
  then show ?thesis using save_ok [OF ok] by blast
qed simp_all

text \<open>It goes down for one of two reasons.\<close>

lemma nstep_down:
  assumes ok: "node_ok nlib n" and step: "nstep lib nlib racy (Up n) Down"
  shows "racy \<or> (\<exists>i addr req. worker n i (Job addr req) \<and> short_request lib (nd_server n) req)"
proof -
  have sok: "server_ok (nd_server n)" using ok by (simp add: node_ok_def)
  show ?thesis
    using step
  proof (cases rule: nstep_UpE)
    case (register_panic i addr req)
    then show ?thesis using register_phase_panic [of "nd_server n" lib addr req] ok by (auto simp: node_ok_def)
  qed (simp_all add: sendBindingSuccess_ok [OF sok] advertiseNewPeer_ok [OF sok] advertiseToPeer_ok [OF sok]
      sendUpdate_ok [OF sok] advertiseSessionTable_ok [OF sok])
qed

lemma nstep_ok:
  assumes "node_ok nlib n" "nstep lib nlib racy (Up n) c"
  shows "(\<exists>m. c = Up m \<and> node_ok nlib m) \<or>
    (c = Down \<and> (racy \<or> (\<exists>i addr req. worker n i (Job addr req) \<and> short_request lib (nd_server n) req)))"
  using assms nstep_up [OF assms(1)] nstep_down [OF assms(1)] by (cases c) auto

text \<open>Every configuration that is up is fine; the locale's invariant says nothing of one that is down.\<close>

fun config_node_ok :: "('priv, 'pub) notif_lib \<Rightarrow> ('m, 'pub) node_config \<Rightarrow> bool" where
  "config_node_ok nlib (Up n) \<longleftrightarrow> node_ok nlib n"
| "config_node_ok nlib Down \<longleftrightarrow> True"

lemma nstep_config_ok: "config_node_ok nlib c \<Longrightarrow> nstep lib nlib racy c c' \<Longrightarrow> config_node_ok nlib c'"
proof (cases c)
  case (Up n)
  assume "config_node_ok nlib c" "nstep lib nlib racy c c'"
  then show ?thesis using Up nstep_ok [of nlib n lib racy c'] by auto
qed (auto elim: nstep_DownE)

interpretation node_sys: invariant_system "node_init nlib" "nstep lib nlib racy" "config_node_ok nlib" for lib nlib racy
  by unfold_locales (auto dest: node_ok_init intro: nstep_config_ok)

end
