(* ===== verification/Exec_Every.thy ===== *)
theory Exec_Every
  imports Server
begin

section \<open>Periodic execution (\<open>ExecEvery\<close>)\<close>

text \<open>
  \<open>ExecEvery\<close> calls a function at every tick of a ticker until it is told to quit.  The server saves
  its database and advertises its table this way, the overlay sends its keep-alive packets.  A period
  is a number of seconds times \<open>time.Second\<close> in 64 bits; \<open>time.NewTicker\<close> panics unless it is positive.
\<close>

datatype select_case = Tick | Quit

text \<open>The goroutine's loop over the cases its \<open>select\<close> takes: the state left, and whether it has returned.\<close>

fun exec_loop :: "('s \<Rightarrow> 's) \<Rightarrow> select_case list \<Rightarrow> 's \<Rightarrow> 's \<times> bool" where
  "exec_loop f [] s = (s, False)"
| "exec_loop f (Tick # es) s = exec_loop f es (f s)"
| "exec_loop f (Quit # es) s = (s, True)"

definition ExecEvery :: "int \<Rightarrow> ('s \<Rightarrow> 's) \<Rightarrow> select_case list \<Rightarrow> 's \<Rightarrow> ('s \<times> bool) may_panic" where
  "ExecEvery t f es s = (if t \<le> 0 then None else Some (exec_loop f es s))"

text \<open>\<open>time.Duration(t) * time.Second\<close>.\<close>

definition seconds :: "int \<Rightarrow> int" where
  "seconds t = sint (word_of_int (t * second) :: 64 word)"

text \<open>The end of \<open>NewOverlayConn\<close>: the keep-alive packet and its ticker.\<close>

definition start_keepalive ::
  "'m stun_lib \<Rightarrow> ('m \<Rightarrow> 's \<Rightarrow> 's) \<Rightarrow> select_case list \<Rightarrow> overlay \<Rightarrow> 's \<Rightarrow> ('s \<times> bool) result may_panic" where
  "start_keepalive lib send es ov s =
     (case keepAliveMessage lib ov of
        Inl e \<Rightarrow> Some (Inl e)
      | Inr msg \<Rightarrow> map_option Inr (ExecEvery (seconds (oc_ChannelLifespan (ov_Config ov))) (send msg) es s))"

text \<open>The two tickers of \<open>serveUDP\<close>.\<close>

definition serve_tickers ::
  "('s \<Rightarrow> 's) \<Rightarrow> ('s \<Rightarrow> 's) \<Rightarrow> server_config \<Rightarrow> select_case list \<Rightarrow> select_case list \<Rightarrow> 's \<Rightarrow> 's may_panic" where
  "serve_tickers advertise snapshot cfg es1 es2 s =
     (case ExecEvery (seconds (sc_SessionAdvertiseTime cfg)) advertise es1 s of
        None \<Rightarrow> None
      | Some (s1, _) \<Rightarrow> map_option fst (ExecEvery (seconds (sc_SnapshotTime cfg)) snapshot es2 s1))"

subsection \<open>Facts\<close>

lemma exec_loop_ticks:
  "exec_loop f es s = ((f ^^ length (takeWhile (\<lambda>e. e = Tick) es)) s, Quit \<in> set es)"
proof (induction es arbitrary: s)
  case (Cons e es)
  then show ?case by (cases e) (simp_all add: funpow_swap1)
qed simp

lemma ExecEvery_panic: "ExecEvery t f es s = None \<longleftrightarrow> t \<le> 0"
  by (simp add: ExecEvery_def)

lemma seconds_small:
  assumes "0 < t" "t < 9223372037"
  shows "seconds t = t * second"
proof -
  have "t * second \<le> 9223372036 * second" using assms(2) by simp
  then have "signed_take_bit 63 (t * second) = t * second"
    using assms(1) by (intro signed_take_bit_int_eq_self) simp_all
  moreover have "seconds t = signed_take_bit 63 (t * second)"
    unfolding seconds_def sint_sbintrunc' by simp
  ultimately show ?thesis by simp
qed

lemma serve_tickers_panic:
  "serve_tickers adv snap cfg es1 es2 s = None \<longleftrightarrow>
     seconds (sc_SessionAdvertiseTime cfg) \<le> 0 \<or> seconds (sc_SnapshotTime cfg) \<le> 0"
  by (auto simp: serve_tickers_def ExecEvery_def split: option.splits prod.splits)

end
