(* ===== verification/Props_Server.thy ===== *)
theory Props_Server
  imports Examples_Node Server_Run Exec_Every
begin

section \<open>Properties of the server\<close>

text \<open>
  The claims about \<open>server.go\<close> and the notifications it stores (\<open>notification.go\<close>), each with a concrete
  instance where it has hypotheses.
\<close>

subsection \<open>The running server\<close>








text \<open>C37. The table is sent to a new peer without the server's lock: with two requests of unknown peers in the
  channel and two idle workers, one worker can be ranging over the map of peers when the other one
  writes to it, which the Go runtime may answer by ending the process.\<close>

theorem unlocked_table_race:
  assumes ok: "server_ok (nd_server n)" and idle: "worker n i Waiting" "worker n j Waiting" "i \<noteq> j"
    and jobs: "nd_jobs n = [(UDPAddr a1, r1), (UDPAddr a2, r2)]"
    and r1: "binding_request lib (nd_server n) r1 pid1 x1 t1" "sv_peers (nd_server n) pid1 = None"
    and r2: "binding_request lib (nd_server n) r2 pid2 x2 t2" "sv_peers (nd_server n) pid2 = None" "pid1 \<noteq> pid2"
    and reply: "bindingSuccessMessage lib (nd_server n) r1 a1 = Inr m"
  shows "(nstep lib nlib True)\<^sup>*\<^sup>* (Up n) Down"
proof -
  let ?sv = "nd_server n" let ?sv1 = "registered a1 pid1 x1 t1 ?sv"
  have new: "register_phase lib (UDPAddr a) r sv = Some (Inr (pid, True), registered a pid x t sv)"
    if "server_ok sv" "binding_request lib sv r pid x t" "sv_peers sv pid = None" for sv a r pid x t
    using that by (simp add: register_phase_def binding_request_def update_cases keeps_session_def)
  define n1 where "n1 = set_worker i (Job (UDPAddr a1) r1) (n\<lparr>nd_jobs := [(UDPAddr a2, r2)]\<rparr>)"
  define n2 where "n2 = set_worker j (Job (UDPAddr a2) r2) (n1\<lparr>nd_jobs := []\<rparr>)"
  define n3 where "n3 = set_worker i (Reply pid1 r1 True) (n2\<lparr>nd_server := ?sv1\<rparr>)"
  define n4 where "n4 = set_worker i (Announce pid1) n3"
  define n5 where "n5 = set_worker i (SendTable pid1) n4"
  note defs = n5_def n4_def n3_def n2_def n1_def set_worker_def
  have s1: "nstep lib nlib True (Up n) (Up n1)"
    unfolding n1_def by (rule nstep.take_job [OF idle(1) jobs])
  have s2: "nstep lib nlib True (Up n1) (Up n2)"
    unfolding n2_def by (rule nstep.take_job) (use idle in \<open>simp_all add: defs\<close>)
  have s3: "nstep lib nlib True (Up n2) (Up n3)"
    unfolding n3_def by (rule nstep.register_ok) (use idle new [OF ok r1] in \<open>simp_all add: defs\<close>)
  have sent: "sendBindingSuccess lib (\<lambda>_ _. None) pid1 r1 ?sv1 = Some (None, [(lib_raw lib m, a1)])"
    using reply by (simp add: sendBindingSuccess_def server_session_def bindingSuccessMessage_def)
  have "nstep lib nlib True (Up n3) (Up (set_worker i (if None = (None :: go_error option) \<and> True then Announce pid1 else Waiting) n3))"
    by (rule nstep.reply [where req = r1 and ps = "[(lib_raw lib m, a1)]"])
      (use idle sent in \<open>simp_all add: defs\<close>)
  then have s4: "nstep lib nlib True (Up n3) (Up n4)" by (simp add: n4_def)
  obtain ps where ps: "advertiseNewPeer lib (\<lambda>_ _. None) [] [] pid1 ?sv1 = Some ps"
    using advertiseNewPeer_ok [OF registered_sel(6) [OF ok]] by blast
  have s5: "nstep lib nlib True (Up n4) (Up n5)"
    unfolding n5_def by (rule nstep.announce) (use idle ps in \<open>simp_all add: defs\<close>)
  have "binding_request lib ?sv1 r2 pid2 x2 t2" "sv_peers ?sv1 pid2 = None"
    using r2 by (simp_all add: binding_request_def)
  then have "nstep lib nlib True (Up n5) Down"
    using idle new [of ?sv1 r2 pid2 x2 t2 a2] registered_sel(6) [OF ok]
    by (intro nstep.race [where i = i and j = j]) (simp_all add: defs)
  with s1 s2 s3 s4 s5 show ?thesis
    by (meson converse_rtranclp_into_rtranclp r_into_rtranclp)
qed

definition ex_queue :: "(ref_msg, bytes) node" where
  "ex_queue = \<lparr>nd_server = ex_node,
     nd_jobs = [(UDPAddr ex_external, ex_request_from ex_pid ex_ports), (UDPAddr ex_external, ex_request_from ex_pid2 ex_ports)],
     nd_workers = [Waiting, Waiting, Waiting], nd_db = None\<rparr>"

lemma unlocked_table_race_witness: "(nstep ref_stun ref_notif True)\<^sup>*\<^sup>* (Up ex_queue) Down"
proof -
  obtain m where m: "bindingSuccessMessage ref_stun ex_node (ex_request_from ex_pid ex_ports) ex_external = Inr m"
    using ref_success ex_external_wf(1) by blast
  have req: "binding_request ref_stun ex_node (ex_request_from pid ex_ports) pid (IP ex_local, Port ex_local) (5, 6)" for pid
    by (rule ex_binding_request [OF ex_ports]) (simp add: default_server_password)
  show ?thesis
    by (rule unlocked_table_race [of ex_queue 0 1 ex_external _ ex_external _ ref_stun ex_pid _ _ ex_pid2 _ _ m])
      (use req [of ex_pid] req [of ex_pid2] m ex_pids in \<open>simp_all add: ex_queue_def\<close>)
qed

subsection \<open>Requests of peers\<close>

text \<open>C20. A message changes the server in one way only, and only when it is a valid binding request that came over
  UDP: the peer's session becomes its external address, the internal address it claims, and its two
  torrent addresses; the server's other fields stay.\<close>

theorem message_effect:
  assumes "server_ok sv" "processMessage lib write partial ids addr req sv = Some (err, sv', ps)" "sv' \<noteq> sv"
  shows "\<exists>peer pid xa tp. addr = UDPAddr peer \<and> binding_request lib sv req pid xa tp \<and>
    sv' = sv\<lparr>sv_peers := (sv_peers sv)(pid \<mapsto>
      [Some peer, Some \<lparr>IP = fst xa, Port = snd xa, Zone = []\<rparr>,
       Some \<lparr>IP = IP peer, Port = fst tp, Zone = []\<rparr>, Some \<lparr>IP = fst xa, Port = snd tp, Zone = []\<rparr>])\<rparr>"
  using processMessage_server [OF assms(1,2)] assms(3) unfolding registered_def server_session_def by blast

definition ex_registered :: "bytes server" where
  "ex_registered = registered ex_external ex_pid (IP ex_local, Port ex_local) (5, 6) ex_node"

lemma ex_registers:
  "\<exists>ps. processMessage ref_stun (\<lambda>_ _. None) [] [] (UDPAddr ex_external) (ex_request_from ex_pid ex_ports) ex_node =
    Some (None, ex_registered, ps)"
proof -
  obtain m where m: "bindingSuccessMessage ref_stun ex_registered (ex_request_from ex_pid ex_ports) ex_external = Inr m"
    using ref_success ex_external_wf(1) by blast
  have req: "binding_request ref_stun ex_node (ex_request_from ex_pid ex_ports) ex_pid (IP ex_local, Port ex_local) (5, 6)"
    by (rule ex_binding_request [OF ex_ports]) (simp add: default_server_password)
  have new: "\<not> keeps_session ex_node ex_pid s" for s by (simp add: keeps_session_def)
  show ?thesis
    unfolding ex_registered_def
    using registration [OF ex_node_sel(6) req new m [unfolded ex_registered_def], of "\<lambda>_ _. None" "[]" "[]", OF refl]
    by blast
qed

lemma message_effect_witness:
  "\<exists>peer pid xa tp. binding_request ref_stun ex_node (ex_request_from ex_pid ex_ports) pid xa tp \<and>
    sv_peers ex_registered pid = Some [Some peer, Some \<lparr>IP = fst xa, Port = snd xa, Zone = []\<rparr>,
       Some \<lparr>IP = IP peer, Port = fst tp, Zone = []\<rparr>, Some \<lparr>IP = fst xa, Port = snd tp, Zone = []\<rparr>]"
proof -
  have "sv_peers ex_registered ex_pid \<noteq> sv_peers ex_node ex_pid" by (simp add: ex_registered_def)
  then have ne: "ex_registered \<noteq> ex_node" by metis
  obtain ps where ps: "processMessage ref_stun (\<lambda>_ _. None) [] [] (UDPAddr ex_external) (ex_request_from ex_pid ex_ports) ex_node =
    Some (None, ex_registered, ps)" using ex_registers by blast
  from message_effect [OF ex_node_sel(6) ps ne] obtain peer pid xa tp where
    req: "binding_request ref_stun ex_node (ex_request_from ex_pid ex_ports) pid xa tp"
    and sv: "ex_registered = ex_node\<lparr>sv_peers := (sv_peers ex_node)(pid \<mapsto>
      [Some peer, Some \<lparr>IP = fst xa, Port = snd xa, Zone = []\<rparr>,
       Some \<lparr>IP = IP peer, Port = fst tp, Zone = []\<rparr>, Some \<lparr>IP = fst xa, Port = snd tp, Zone = []\<rparr>])\<rparr>" by blast
  have "sv_peers ex_registered pid = Some [Some peer, Some \<lparr>IP = fst xa, Port = snd xa, Zone = []\<rparr>,
       Some \<lparr>IP = IP peer, Port = fst tp, Zone = []\<rparr>, Some \<lparr>IP = fst xa, Port = snd tp, Zone = []\<rparr>]"
    unfolding sv by simp
  with req show ?thesis by blast
qed

text \<open>C26. A peer that has moved is not found again: when all four endpoints of its session have changed (the NAT
  and the local network), the server takes the new session for the old one, keeps the old one, and
  sends its reply to the address the peer has left.\<close>

theorem moved_peer_lost:
  assumes "server_ok sv" "binding_request lib sv req pid xa tp" "sv_peers sv pid = Some (map Some old)"
    and "list_all2 (\<lambda>a b. \<not> same_endpoint a b) old (map the (server_session peer xa tp))"
    and "bindingSuccessMessage lib sv req (hd old) = Inr m" "write (lib_raw lib m) (hd old) = None"
  shows "processMessage lib write partial ids (UDPAddr peer) req sv = Some (None, sv, [(lib_raw lib m, hd old)])"
  by (rule moved_peer) (use assms in blast)+

definition ex_old :: "udp_addr list" where
  "ex_old = map the (server_session \<lparr>IP = [203, 0, 113, 9], Port = 1, Zone = []\<rparr> ([172, 16, 0, 2], 2) (3, 4))"

definition ex_known :: "bytes server" where
  "ex_known = ex_node\<lparr>sv_peers := [ex_pid \<mapsto> map Some ex_old]\<rparr>"

lemma moved_peer_lost_witness:
  "\<exists>raw. processMessage ref_stun (\<lambda>_ _. None) [] [] (UDPAddr ex_external) (ex_request_from ex_pid ex_ports) ex_known =
    Some (None, ex_known, [(raw, \<lparr>IP = [203, 0, 113, 9], Port = 1, Zone = []\<rparr>)])"
proof -
  have hd: "hd ex_old = \<lparr>IP = [203, 0, 113, 9], Port = 1, Zone = []\<rparr>"
    by (simp add: ex_old_def server_session_def)
  obtain m where m: "bindingSuccessMessage ref_stun ex_known (ex_request_from ex_pid ex_ports) (hd ex_old) = Inr m"
    using ref_success [of "hd ex_old"] by (auto simp: hd ip_wf_def)
  have "binding_request ref_stun ex_known (ex_request_from ex_pid ex_ports) ex_pid (IP ex_local, Port ex_local) (5, 6)"
    by (rule ex_binding_request [OF ex_ports]) (simp add: ex_known_def default_server_password)
  moreover have "list_all2 (\<lambda>a b. \<not> same_endpoint a b) ex_old
      (map the (server_session ex_external (IP ex_local, Port ex_local) (5, 6)))"
    by (simp add: ex_old_def server_session_def same_endpoint_def ex_local_def ex_external_def)
  moreover have "server_ok ex_known" "sv_peers ex_known ex_pid = Some (map Some ex_old)"
    by (simp_all add: ex_known_def server_ok_def ex_old_def server_session_def)
  ultimately have "processMessage ref_stun (\<lambda>_ _. None) [] [] (UDPAddr ex_external) (ex_request_from ex_pid ex_ports) ex_known =
      Some (None, ex_known, [(lib_raw ref_stun m, hd ex_old)])"
    using moved_peer_lost [of ex_known ref_stun "ex_request_from ex_pid ex_ports" ex_pid _ _ ex_old ex_external m
        "\<lambda>_ _. None" "[]" "[]"] m by blast
  then show ?thesis by (auto simp: hd)
qed

subsection \<open>Updates\<close>


text \<open>C28. Saving and loading the database round-trip: after a save without faults, when the updates had changed, a
  server started from the file holds the same updates, and a second save writes nothing.\<close>

theorem database_round_trip:
  assumes "updates_codec encode decode" "encode (sv_updates sv) = Inr data" "sv_lastModified sv > sv_lastSaved sv"
  shows "\<exists>sv1. saveUpdates encode None None (sv, db) = (sv1, Some data) \<and>
    saveUpdates encode openf wrote (sv1, Some data) = (sv1, Some data) \<and>
    (\<exists>sv2. NewServer decode cfg (Inr addr) (Inr pid) (Inr pub) None (Some data) = Inr sv2 \<and>
       sv_updates sv2 = sv_updates sv)"
  using save_load [OF assms] save_nothing_new [of "sv\<lparr>sv_lastSaved := sv_lastModified sv\<rparr>" encode openf wrote "Some data"]
    assms(1,2)
  by (auto simp: NewServer_def loadUpdates_def updates_codec_def)

text \<open>An encoding of the empty table only.\<close>

definition ref_encode :: "(string \<rightharpoonup> notification) \<Rightarrow> bytes result" where
  "ref_encode m = (if dom m = {} then Inr [123, 125] else Inl ErrNotReady)"

definition ref_decode :: "bytes \<Rightarrow> (string \<rightharpoonup> notification) result" where
  "ref_decode b = (if b = [123, 125] then Inr Map.empty else Inl ErrNotReady)"

lemma ref_codec: "updates_codec ref_encode ref_decode"
  by (simp add: updates_codec_def ref_encode_def ref_decode_def)

lemma database_round_trip_witness:
  "\<exists>sv1 sv2. saveUpdates ref_encode None None (ex_node, None) = (sv1, Some [123, 125]) \<and>
    NewServer ref_decode DefaultServerConfig (Inr ex_server) (Inr ex_pid2) (Inr ex_key) None (Some [123, 125]) = Inr sv2 \<and>
    sv_updates sv2 = Map.empty"
  using database_round_trip [OF ref_codec, of ex_node "[123, 125]" None None None DefaultServerConfig ex_server ex_pid2 ex_key]
  by (auto simp: ref_encode_def)

text \<open>A save that fails to write after the file has been truncated loses the stored updates, and the server does
  not start again from what is left, as the decoder rejects an empty file.\<close>

lemma failed_save_loses_database:
  assumes "updates_codec encode decode" "encode (sv_updates sv) = Inr data" "sv_lastModified sv > sv_lastSaved sv"
  shows "saveUpdates encode None (Some (e, 0)) (sv, db) = (sv, Some []) \<and>
    is_err (NewServer decode cfg (Inr a) (Inr i) (Inr k) None (Some []))"
  by (intro conjI failed_save_blocks_restart [OF assms])

lemma failed_save_loses_database_example:
  "saveUpdates ref_encode None (Some (ErrSys 28, 0)) (ex_node, Some [123, 125]) = (ex_node, Some [])"
  by (rule failed_save_loses_database [where data = "[123, 125]", OF ref_codec, THEN conjunct1])
    (simp_all add: ref_encode_def)

text \<open>The server sends an update to the registered peers' first addresses in the order of the range, and stops at
  the first peer it fails to write to: the peers after it are not told.\<close>

lemma notify_stops_at_failure:
  assumes "server_ok sv" "nl_bencode nlib n = Inr w" "notificationMessage lib sv w = Inr m" "sv_udpConn sv = Some c"
  shows "sendUpdateNotificationOverUDP lib nlib write ids n sv =
    Some (map (\<lambda>a. (lib_raw lib m, a)) (takeWhile (\<lambda>a. write (lib_raw lib m) a = None) (peer_addrs sv ids)))"
  using notify_loop_prefix [OF assms(1)] assms(2-4) by (simp add: sendUpdateNotificationOverUDP_def)

lemma notify_stops_at_failure_example:
  "\<exists>raw. sendUpdateNotificationOverUDP ref_stun ref_notif (\<lambda>_ _. None) [ex_pid] (ex_notif 1) ex_known =
    Some [(raw, hd ex_old)]"
proof -
  obtain m where m: "notificationMessage ref_stun ex_known (ref_json (ex_notif 1)) = Inr m"
    by (simp add: notificationMessage_def ref_stun_def PeerMessage_AddTo_def PeerID_AddTo_def)
  have "server_ok ex_known" "peer_addrs ex_known [ex_pid] = [hd ex_old]" "sv_udpConn ex_known = Some 5"
    by (simp_all add: ex_known_def server_ok_def peer_addrs_def ex_old_def server_session_def)
  then show ?thesis
    using notify_stops_at_failure [OF _ ref_bencode m, of 5 "\<lambda>_ _. None" "[ex_pid]"] by simp
qed

subsection \<open>Notifications and timers\<close>

text \<open>C29. A notification that is built and signed verifies under the public key that belongs to the private key, and
  carries the UUID, the version and the tracker it was built for, its name made of UUID, version and
  file name.\<close>

theorem new_notification_verifies:
  assumes "key_pair lib key pub" "NewNotification lib now filename uuid ver tracker pl key = Inr n"
  shows "verifies lib pub n \<and> n_UUID n = uuid \<and> n_Version n = ver \<and> n_Announce n = tracker \<and>
    (\<exists>info. nl_build_info lib filename \<lparr>ti_Name = [], ti_PieceLength = pl, ti_rest = []\<rparr> = Inr info \<and>
       ti_Name (n_Info n) = uuid @ ''-v'' @ nat_dec (unat ver) @ ''-'' @ ti_Name info)"
  using NewNotification_Inr [OF assms(2)] assms(1) by auto

lemma new_notification_verifies_witness:
  "\<exists>n. NewNotification ref_notif 5 ''fw.sh'' UUIDShell 3 DefaultTracker DefaultPieceLength ex_key = Inr n \<and>
    verifies ref_notif ex_key n \<and> n_Version n = 3"
proof -
  obtain n where n: "NewNotification ref_notif 5 ''fw.sh'' UUIDShell 3 DefaultTracker DefaultPieceLength ex_key = Inr n"
    by (simp add: NewNotification_def Sign_def ref_notif_def Let_def)
  with new_notification_verifies [OF ref_key_pair n] show ?thesis by blast
qed

text \<open>The server started from its command line never panics on a ticker while the two periods are below
  9223372037 seconds; from there on the product with \<open>time.Second\<close> wraps around and may be negative,
  and then it does.\<close>

lemma server_tickers:
  assumes "fl_advertise_session fl < 9223372037" "fl_snapshot_time fl < 9223372037"
  shows "serve_tickers adv snap (serverCmd_config fl) es1 es2 s \<noteq> None"
proof -
  have "seconds (sc_SessionAdvertiseTime (serverCmd_config fl)) > 0" "seconds (sc_SnapshotTime (serverCmd_config fl)) > 0"
    using serverCmd_config_periods [of fl] assms
    by (auto simp: seconds_small serverCmd_config_def Let_def DefaultServerConfig_def)
  then show ?thesis by (simp add: serve_tickers_panic)
qed

lemma server_tickers_example:
  "serve_tickers id id (serverCmd_config (server_flag_defaults (Inr ''/root''))) [Tick] [] (0::int) \<noteq> None"
  by (rule server_tickers) (simp_all add: server_flag_defaults_def)

end
