(* ===== verification/Props_Agent.thy ===== *)
theory Props_Agent
  imports Examples_Node
begin

section \<open>Properties of the agent\<close>

text \<open>
  The claims about \<open>agent.go\<close>, \<open>update.go\<close> and \<open>api.go\<close>, each with a concrete instance where it has
  hypotheses.
\<close>

definition ex_deploy :: deploy_env where
  "ex_deploy = \<lparr>de_stat = (\<lambda>_. Inr False), de_sh = (\<lambda>_. Some (ErrSys 1)), de_zip = (\<lambda>_. Inr []), de_temp = ''/tmp''\<rparr>"

text \<open>An encoding of one update only.\<close>

definition ex_done :: update where
  "ex_done = ex_update\<lparr>u_Deployed := 1700000000 * second\<rparr>"

definition ex_json1 :: update_json where
  "ex_json1 = ex_one_json ex_done"

lemma ex_json1_laws: "update_json_laws ex_json1"
  by (simp add: ex_json1_def ex_one_json_laws)

definition ex_monitor :: monitor_env where
  "ex_monitor = \<lparr>me_now = 0, me_missing = 0, me_files = [], me_deploy = ex_deploy, me_write = (\<lambda>_. None),
     me_order = [], me_open = None, me_wrote = None\<rparr>"







text \<open>C14. A newer version replaces an older one: it runs with the torrent it was given, under the same UUID; the
  older one is stopped, its torrent dropped, its data and metadata removed, in this order, before the
  new torrent is added and the monitor spawned.\<close>

theorem newer_replaces_older:
  assumes "heap_wf ag" "no_locks ag" "verifies nlib (ag_PublicKey ag) n"
    and "ag_updates ag (n_UUID n) = Some old" "ag_heap ag old = Some v" "n_Version (u_Notification v) < n_Version n"
    and "torrentMetainfo nlib n = Inr mi" "ue_add env = Inr h"
  shows "\<exists>ag' r u w.
    offer_notification nlib env n ag = Done None ag' \<and>
    ag_updates ag' (n_UUID n) = Some r \<and> ag_heap ag' r = Some u \<and> u_Notification u = n \<and>
    u_torrent u = Some h \<and> \<not> u_Stopped u \<and> \<not> u_locked u \<and>
    ag_heap ag' old = Some w \<and> u_Stopped w \<and> u_torrent w = None \<and>
    ag_log ag' = ag_log ag @ (case u_torrent v of None \<Rightarrow> [] | Some g \<Rightarrow> [DropTorrent g]) @
      [RemoveAll (path_Join (ag_dataDir ag) (ti_Name (n_Info (u_Notification v)))),
       RemoveAll (MetadataFilename (u_Notification v) ag), AddTorrent mi, SpawnMonitor r]"
  by (rule newer_replaces [OF assms])

lemma newer_replaces_older_witness:
  "\<exists>ag' r u. offer_notification ref_notif ex_update_env (ex_notif 2) ex_busy = Done None ag' \<and>
    ag_updates ag' UUIDShell = Some r \<and> ag_heap ag' r = Some u \<and> n_Version (u_Notification u) = 2 \<and> u_torrent u = Some 8"
proof -
  obtain mi where mi: "torrentMetainfo ref_notif (ex_notif 2) = Inr mi" using ref_metainfo by blast
  have "n_Version (u_Notification ex_update) < n_Version (ex_notif 2)" by simp
  from newer_replaces_older [OF ex_busy_wf ex_busy_no_locks _ _ _ this mi, of 0 ex_update_env 8] show ?thesis
    by (fastforce simp: ex_update_env_def)
qed

text \<open>C35. When the torrent client refuses the torrent of a new update, the update stays in the map, stopped and
  without torrent, and nothing monitors it; the same notification is refused from then on as already
  there, whatever the client would answer.\<close>

theorem refused_torrent_blocks_update:
  assumes "heap_wf ag" "no_locks ag" "verifies nlib (ag_PublicKey ag) n" "ag_updates ag (n_UUID n) = None"
    and "torrentMetainfo nlib n = Inr mi" "ue_add env = Inl e"
  shows "\<exists>ag' r u. offer_notification nlib env n ag = Done (Some (ErrMsg ''failed adding torrent'')) ag' \<and>
    ag_updates ag' (n_UUID n) = Some r \<and> ag_heap ag' r = Some u \<and> u_torrent u = None \<and> u_Stopped u \<and>
    ag_log ag' = ag_log ag \<and>
    (\<forall>env'. offer_notification nlib env' n ag' = Done (Some ErrUpdateIsAlreadyExist) (snd (NewUpdate n ag')))"
proof -
  have "verdict_of n_UUID n_Version n (agent_content ag) = Accepted"
    using assms(4) by (simp add: verdict_of_def agent_content_def)
  from failed_start_blocks [OF assms(1-3) this assms(4-6)] show ?thesis .
qed

lemma refused_torrent_blocks_update_witness:
  "\<exists>ag'. offer_notification ref_notif (ex_update_env\<lparr>ue_add := Inl (ErrSys 28)\<rparr>) (ex_notif 1) ex_agent =
      Done (Some (ErrMsg ''failed adding torrent'')) ag' \<and>
    offer_notification ref_notif ex_update_env (ex_notif 1) ag' = Done (Some ErrUpdateIsAlreadyExist) (snd (NewUpdate (ex_notif 1) ag'))"
proof -
  obtain mi where mi: "torrentMetainfo ref_notif (ex_notif 1) = Inr mi" using ref_metainfo by blast
  from refused_torrent_blocks_update [OF ex_agent_wf ex_agent_no_locks _ _ mi, of "ex_update_env\<lparr>ue_add := Inl (ErrSys 28)\<rparr>"]
  show ?thesis by fastforce
qed

text \<open>The monitor of a stopped update ends without releasing the update's lock: when its turn comes between
  \<open>Stop\<close> and \<open>Delete\<close>, the goroutine that replaces or deletes the update waits for ever.\<close>

lemma monitor_keeps_lock:
  assumes "ag_heap ag r = Some u" "\<not> u_locked u"
  shows "\<exists>ag1 ag2. Update_Stop r ag = Done () ag1 \<and>
    monitor_step lib nlib js menv toSave r ag1 = Done False ag2 \<and> Update_Delete env r ag2 = Blocked ag2"
  by (rule stop_monitor_delete [OF assms])

lemma monitor_keeps_lock_example:
  "\<exists>ag1 ag2. Update_Stop 0 ex_busy = Done () ag1 \<and>
    monitor_step ref_stun ref_notif ex_json1 ex_monitor True 0 ag1 = Done False ag2 \<and> Update_Delete ex_update_env 0 ag2 = Blocked ag2"
  by (rule monitor_keeps_lock [of _ _ ex_update]) simp_all

text \<open>C31. A shell update whose deployment fails each time is tried six times and never again: of any sequence of turns
  that deploy, the first six run the files' scripts, the seventh and all later ones run nothing.\<close>

theorem deployment_tried_six_times:
  assumes "\<forall>(env, now, files) \<in> set ts. fst (deploy_files (shell_deploy env) dir files) \<noteq> None"
    and "n_UUID (u_Notification u) = UUIDShell" "u_DeployFails u = 0"
  shows "deploy_turns dir ts u =
    map (\<lambda>(env, now, files). snd (deploy_files (shell_deploy env) dir files)) (take 6 ts) @ replicate (length ts - 6) []"
  using deploy_turns_failing [OF assms(1,2), of 6] assms(3) by (simp add: DeployFailsLimit_def)

lemma ex_deploy_fails: "fst (deploy_files (shell_deploy ex_deploy) dir [f]) \<noteq> None"
proof -
  have "fst (shell_deploy ex_deploy p) \<noteq> None" for p
    by (simp add: shell_deploy_def ex_deploy_def deployFile_def deployZip_def Unzip_def deployDir_def Let_def split: prod.split)
  then show ?thesis by (cases "shell_deploy ex_deploy (path_Join dir f)") (auto split: option.split, metis fst_conv)
qed

lemma deployment_tried_six_times_witness:
  "drop 6 (deploy_turns ''/data'' (replicate 10 (ex_deploy, 5, [''fw.sh''])) ex_update) = [[], [], [], []]"
proof -
  have "deploy_turns ''/data'' (replicate 10 (ex_deploy, 5, [''fw.sh''])) ex_update =
    map (\<lambda>(env, now, files). snd (deploy_files (shell_deploy env) ''/data'' files)) (take 6 (replicate 10 (ex_deploy, 5 :: int, [''fw.sh''])))
      @ replicate (length (replicate 10 (ex_deploy, 5 :: int, [''fw.sh''])) - 6) []"
    by (rule deployment_tried_six_times) (use ex_deploy_fails in auto)
  then show ?thesis by (simp add: numeral_eq_Suc)
qed

text \<open>A message that does not decode is not ignored: \<open>readOverlay\<close> goes on with what the buffer holds, so garbage
  from a peer brings back the last gossiped update after it has been deleted.\<close>

lemma garbage_restores_update:
  assumes "agent_ok nlib ag" "no_locks ag" "nl_bdecode nlib b (ag_buf ag) = (ag_buf ag, Some e)"
    and "verifies nlib (ag_PublicKey ag) (ag_buf ag)" "ag_updates ag (n_UUID (ag_buf ag)) = None"
  shows "\<exists>err ag'. handle_message nlib envs b ag = Done err ag' \<and>
    agent_content ag' (n_UUID (ag_buf ag)) = Some (ag_buf ag)"
  by (rule garbage_restores_deleted [OF assms])

lemma garbage_restores_update_example:
  "\<exists>err ag'. handle_message ref_notif (\<lambda>_. ex_update_env) [1, 2, 3] ex_agent = Done err ag' \<and>
    agent_content ag' UUIDShell = Some (ex_notif 1)"
proof -
  have "nl_bdecode ref_notif [1, 2, 3] (ag_buf ex_agent) = (ag_buf ex_agent, Some (ErrMsg ''bencode: syntax error''))"
    by (simp add: ref_notif_def)
  from garbage_restores_update [OF ex_agent_ok ex_agent_no_locks this, of "\<lambda>_. ex_update_env"] show ?thesis by simp
qed

text \<open>C30. A POST to the agent's REST interface whose source file has been copied is answered by the state of the
  map: 401 when it does not verify, 406 when a newer version is there, 208 when the same is, 500 when
  the torrent cannot be made or added, and 200 otherwise.\<close>

theorem post_update_status:
  assumes "agent_ok nlib ag" "no_locks ag" "decode_update js body blank_update = Inr u"
    and "pe_stat env (u_Source u) = None" "pe_copy env = None"
  shows "\<exists>ag'. requestPostUpdate nlib js env body ag =
      Done (if \<not> verifies nlib (ag_PublicKey ag) (u_Notification u) then 401
            else case verdict_of n_UUID n_Version (u_Notification u) (agent_content ag) of
              Older \<Rightarrow> 406 | Duplicate \<Rightarrow> 208
            | Accepted \<Rightarrow> if is_err (torrentMetainfo nlib (u_Notification u)) \<or> is_err (ue_add (pe_start env))
                          then 500 else 200, NoBody) ag'"
  by (rule post_status [OF assms])

definition ex_json :: update_json where
  "ex_json = \<lparr>uj_encode = (\<lambda>_. Inr [1]), uj_decode = (\<lambda>_ _. Inr (blank_update\<lparr>u_Notification := ex_notif 1\<rparr>))\<rparr>"

definition ex_api :: api_env where
  "ex_api = \<lparr>pe_stat = (\<lambda>_. None), pe_copy = None, pe_start = ex_update_env, pe_write = (\<lambda>_. None),
     pe_order = [], pe_uuids = [], pe_nodes = []\<rparr>"

lemma post_update_status_witness:
  "\<exists>ag'. requestPostUpdate ref_notif ex_json ex_api [1] ex_agent = Done (200, NoBody) ag'"
proof -
  have dec: "decode_update ex_json [1] blank_update = Inr (blank_update\<lparr>u_Notification := ex_notif 1\<rparr>)"
    by (simp add: decode_update_def ex_json_def blank_update_def)
  obtain mi where "torrentMetainfo ref_notif (ex_notif 1) = Inr mi" using ref_metainfo by blast
  then show ?thesis
    using post_update_status [OF ex_agent_ok ex_agent_no_locks dec, of ex_api]
    by (simp add: ex_api_def ex_update_env_def verdict_of_def agent_content_def)
qed

text \<open>C36. Unpacking an archive into a directory writes inside the directory as long as no name has a \<open>..\<close> element, but a
  name can leave it: with as many \<open>..\<close> elements as the directory is deep, an entry is written to any path
  of the archive's choice.\<close>

theorem unzip_inside_or_out:
  assumes "\<forall>e \<in> set dir. plain_elem e"
  shows "((\<forall>f \<in> set fs. ze_Name f \<noteq> [] \<and> ''..'' \<notin> set (split_path (ze_Name f))) \<longrightarrow>
      (\<forall>p \<in> written (snd (Unzip (Inr fs) (root_path dir))). \<exists>es. p = root_path (dir @ es))) \<and>
    ((\<forall>e \<in> set out. plain_elem e) \<and> out \<noteq> [] \<and> no_faults f \<and> \<not> ze_IsDir f \<and>
      ze_Name f = join_path (replicate (length dir) ''..'' @ out) \<longrightarrow>
      root_path out \<in> written (snd (Unzip (Inr [f]) (root_path dir))))"
proof (intro conjI impI ballI)
  fix p assume names: "\<forall>f \<in> set fs. ze_Name f \<noteq> [] \<and> ''..'' \<notin> set (split_path (ze_Name f))"
    and "p \<in> written (snd (Unzip (Inr fs) (root_path dir)))"
  then obtain f where "f \<in> set fs" "p = path_Join (root_path dir) (ze_Name f)"
    using unzip_loop_written [of "root_path dir" fs "[]" "[]"] by (auto simp: Unzip_def written_def)
  then show "\<exists>es. p = root_path (dir @ es)"
    using names path_Join_inside [OF _ assms, of "ze_Name f"] by blast
next
  assume "(\<forall>e \<in> set out. plain_elem e) \<and> out \<noteq> [] \<and> no_faults f \<and> \<not> ze_IsDir f \<and>
    ze_Name f = join_path (replicate (length dir) ''..'' @ out)"
  then show "root_path out \<in> written (snd (Unzip (Inr [f]) (root_path dir)))"
    using path_Join_escape [OF assms, of out] by (auto simp: Unzip_def no_faults_def written_def Let_def)
qed

definition ex_entry :: "string \<Rightarrow> zip_entry" where
  "ex_entry name = \<lparr>ze_Name = name, ze_IsDir = False, ze_Content = [1], ze_open = None, ze_mkdir = None,
     ze_create = None, ze_copy = None\<rparr>"

lemma unzip_inside_or_out_witness:
  "root_path [''etc'', ''passwd''] \<in>
    written (snd (Unzip (Inr [ex_entry (join_path (replicate 2 ''..'' @ [''etc'', ''passwd'']))]) (root_path [''tmp'', ''u''])))"
  using unzip_inside_or_out [of "[''tmp'', ''u'']" "[]" "[''etc'', ''passwd'']" "ex_entry (join_path (replicate 2 ''..'' @ [''etc'', ''passwd'']))"]
  by (simp add: plain_elem_def no_faults_def ex_entry_def numeral_2_eq_2)

text \<open>While the overlay is not ready the agent falls back on the server: starting from a zero counter the gossip loop
  sleeps as many seconds as the interval says, and in the next turn it polls.\<close>

lemma gossip_polls_server:
  assumes "\<not> overlay_ready ag" "0 \<le> cf_ReadTCPInterval (ag_Config ag)"
  shows "gossip_turns (Suc (nat (cf_ReadTCPInterval (ag_Config ag)))) ag 0 =
    replicate (nat (cf_ReadTCPInterval (ag_Config ag))) GossipSleep @ [GossipReadTCP]"
  by (rule gossip_waits [OF assms(1), of "nat (cf_ReadTCPInterval (ag_Config ag))"]) (use assms(2) in simp_all)

lemma gossip_polls_server_example:
  "gossip_turns (Suc 60) ex_agent 0 = replicate 60 GossipSleep @ [GossipReadTCP]"
  using gossip_polls_server [of ex_agent]
  by (simp add: overlay_ready_def DefaultConfig_def del: gossip_turns.simps replicate.simps)

text \<open>C27. What \<open>Save\<close> writes, a restart loads: the file named after the UUID and the version holds an update that
  loads with all its exported fields, without torrent and unlocked, and an update that had been deployed
  is not deployed again by the monitor once it is complete.\<close>

theorem metadata_round_trip:
  assumes "update_json_laws js" "ag_heap ag r = Some u" "Update_Save js None None r ag = Done None ag'"
    and "\<not> not_deployed u" "me_missing env \<le> 0"
  shows "\<exists>b v. ag_disk ag' (MetadataFilename (u_Notification u) ag) = Some b \<and>
    LoadUpdateFromFile js (Inr b) = Inr v \<and> v = u\<lparr>u_torrent := None, u_locked := False\<rparr> \<and>
    monitor_progress env h ts v ag = (v\<lparr>u_Missing := me_missing env\<rparr>, ts, [])"
proof -
  obtain b where b: "ag_disk ag' (MetadataFilename (u_Notification u) ag) = Some b"
    "LoadUpdateFromFile js (Inr b) = Inr (u\<lparr>u_torrent := None, u_locked := False\<rparr>)"
    using save_then_load [OF assms(1-3)] by blast
  have "\<not> not_deployed (u\<lparr>u_torrent := None, u_locked := False\<rparr>)" using assms(4) by (simp add: not_deployed_def)
  from deployed_not_again [OF this assms(5)] b show ?thesis by blast
qed

lemma metadata_round_trip_witness:
  "\<exists>ag' b v. Update_Save ex_json1 None None 0 (ex_busy\<lparr>ag_heap := [0 \<mapsto> ex_done]\<rparr>) = Done None ag' \<and>
    LoadUpdateFromFile ex_json1 (Inr b) = Inr v \<and> v = ex_done\<lparr>u_torrent := None, u_locked := False\<rparr>"
proof -
  let ?ag = "ex_busy\<lparr>ag_heap := [0 \<mapsto> ex_done]\<rparr>"
  obtain ag' where ag': "Update_Save ex_json1 None None 0 ?ag = Done None ag'"
    by (simp add: Update_Save_def ex_json1_def ex_one_json_def ex_done_def Let_def)
  have "\<not> not_deployed ex_done" by (simp add: ex_done_def not_deployed_def)
  then show ?thesis
    using metadata_round_trip [OF ex_json1_laws _ ag', of ex_done ex_monitor] ag' by (auto simp: ex_monitor_def)
qed

end
