(* ===== verification/Agent_Threads.thy ===== *)
theory Agent_Threads
  imports Agent_Run
begin

section \<open>The goroutines of the agent\<close>

text \<open>
  \<open>Agent_Run\<close> takes each method of the agent as one step.  Here the goroutines that start, delete and
  monitor updates are interleaved: a goroutine is where it stands (\<open>goroutine\<close>), and it runs from one
  release of a lock to the next.  Every whole method is one of the interleavings, and what holds for all
  of them holds whatever the scheduler does: the invariant, that starting updates cannot deadlock, what
  the map contains in the end.
\<close>

subsection \<open>Where a goroutine stands\<close>

text \<open>
  \<open>Start*\<close>: in \<open>Update.Start\<close>, of the object and of the one it replaces; \<open>Delete*\<close>: in
  \<open>requestDeleteUpdate\<close>; \<open>Monitor*\<close>: before a turn of \<open>Update.monitor\<close>, before its \<open>Save\<close>, in its \<open>Save\<close>
  with the file open and the update locked by another goroutine.
\<close>

datatype goroutine =
    StartLock nat
  | StartAdd nat
  | StartStop nat nat
  | StartDelete nat nat
  | StartActivate nat
  | DeleteMap string
  | DeleteStop nat
  | DeleteFiles nat
  | MonitorTurn nat bool
  | MonitorSave nat
  | MonitorWrite nat

record goroutine_env =
  te_start :: update_env
  te_monitor :: monitor_env
  te_linked :: bool      \<comment> \<open>the file that \<open>Save\<close> opened still has its name\<close>

text \<open>
  What a goroutine does next: the goroutines that stand in its place, itself included, and the agent;
  \<open>Blocked\<close> when it has to wait for a lock.
\<close>

fun goroutine_run ::
  "'m stun_lib \<Rightarrow> ('priv, 'pub) notif_lib \<Rightarrow> update_json \<Rightarrow> goroutine_env \<Rightarrow> goroutine \<Rightarrow> 'pub agent
     \<Rightarrow> (goroutine list, 'pub agent) outcome" where
  "goroutine_run lib nlib js env (StartLock r) ag =
     locking r ag (\<lambda>u.
       case Update_Verify nlib (ag_PublicKey ag) u of
         Some e \<Rightarrow> Done [] ag
       | None \<Rightarrow> Done [StartAdd r] (set_locked True r ag))"
| "goroutine_run lib nlib js env (StartAdd r) ag =
     (case addUpdate r ag of
        (Inl e, ag1) \<Rightarrow> Done [] (set_locked False r ag1)
      | (Inr None, ag1) \<Rightarrow> Done [StartActivate r] ag1
      | (Inr (Some old), ag1) \<Rightarrow> Done [StartStop r old] ag1)"
| "goroutine_run lib nlib js env (StartStop r old) ag =
     bind_outcome (Update_Stop old ag) (\<lambda>_ ag1. Done [StartDelete r old] ag1)"
| "goroutine_run lib nlib js env (StartDelete r old) ag =
     bind_outcome (Update_Delete (te_start env) old ag) (\<lambda>_ ag1. Done [StartActivate r] ag1)"
| "goroutine_run lib nlib js env (StartActivate r) ag =
     (case ag_heap ag r of
        None \<Rightarrow> Panicked
      | Some u \<Rightarrow>
          bind_outcome (activate nlib (te_start env) r u ag) (\<lambda>err ag1.
            Done (if err = None then [MonitorTurn r True] else []) ag1))"
| "goroutine_run lib nlib js env (DeleteMap uuid) ag =
     (case deleteUpdate uuid ag of
        (None, ag1) \<Rightarrow> Done [] ag1
      | (Some r, ag1) \<Rightarrow> Done [DeleteStop r] ag1)"
| "goroutine_run lib nlib js env (DeleteStop r) ag =
     bind_outcome (Update_Stop r ag) (\<lambda>_ ag1. Done [DeleteFiles r] ag1)"
| "goroutine_run lib nlib js env (DeleteFiles r) ag =
     bind_outcome (Update_Delete (te_start env) r ag) (\<lambda>_ ag1. Done [] ag1)"
| "goroutine_run lib nlib js env (MonitorTurn r toSave) ag =
     bind_outcome (monitor_turn lib nlib (te_monitor env) toSave r ag) (\<lambda>res ag1.
       Done (case res of None \<Rightarrow> [] | Some save \<Rightarrow> [if save then MonitorSave r else MonitorTurn r False]) ag1)"
| "goroutine_run lib nlib js env (MonitorSave r) ag =
     (case Update_Save js (me_open (te_monitor env)) (me_wrote (te_monitor env)) r ag of
        Done _ ag1 \<Rightarrow> Done [MonitorTurn r False] ag1
      | Blocked ag1 \<Rightarrow> Done [MonitorWrite r] ag1
      | Panicked \<Rightarrow> Panicked)"
| "goroutine_run lib nlib js env (MonitorWrite r) ag =
     locking r ag (\<lambda>u.
       if te_linked env
       then (case Update_Save js None (me_wrote (te_monitor env)) r ag of
               Done _ ag1 \<Rightarrow> Done [MonitorTurn r False] ag1
             | Blocked ag1 \<Rightarrow> Blocked ag
             | Panicked \<Rightarrow> Panicked)
       else Done [MonitorTurn r False] ag)"

text \<open>The agent with its goroutines.\<close>

type_synonym 'pub threads = "'pub agent \<times> goroutine multiset"

inductive tstep ::
  "'m stun_lib \<Rightarrow> ('priv, 'pub) notif_lib \<Rightarrow> update_json \<Rightarrow> 'pub threads \<Rightarrow> 'pub threads \<Rightarrow> bool"
  for lib :: "'m stun_lib" and nlib :: "('priv, 'pub) notif_lib" and js :: update_json where
  run: "goroutine_run lib nlib js env t ag = Done new ag' \<Longrightarrow>
    tstep lib nlib js (ag, add_mset t ts) (ag', mset new + ts)"

text \<open>
  What happens from outside: an update to start (made by \<open>NewUpdate\<close> or read from JSON, so with a free
  lock and without a torrent), a request to delete, events of the overlay.
\<close>

inductive cstep ::
  "'m stun_lib \<Rightarrow> ('priv, 'pub) notif_lib \<Rightarrow> update_json \<Rightarrow> 'pub threads \<Rightarrow> 'pub threads \<Rightarrow> bool"
  for lib :: "'m stun_lib" and nlib :: "('priv, 'pub) notif_lib" and js :: update_json where
  goroutine: "tstep lib nlib js c c' \<Longrightarrow> cstep lib nlib js c c'"
| offer: "u_torrent u = None \<Longrightarrow> \<not> u_locked u \<Longrightarrow> new_object u ag = (r, ag') \<Longrightarrow>
    cstep lib nlib js (ag, ts) (ag', add_mset (StartLock r) ts)"
| request: "cstep lib nlib js (ag, ts) (ag, add_mset (DeleteMap uuid) ts)"
| overlay: "cstep lib nlib js (ag, ts) (ag\<lparr>ag_Overlay := ov\<rparr>, ts)"

subsection \<open>The invariant\<close>

text \<open>The update a goroutine is starting, and the one whose lock it holds between two of its steps.\<close>

fun starts :: "goroutine \<Rightarrow> nat option" where
  "starts (StartLock r) = Some r"
| "starts (StartAdd r) = Some r"
| "starts (StartStop r old) = Some r"
| "starts (StartDelete r old) = Some r"
| "starts (StartActivate r) = Some r"
| "starts t = None"

fun holds :: "goroutine \<Rightarrow> nat option" where
  "holds (StartLock r) = None"
| "holds t = starts t"

definition live :: "'pub agent \<Rightarrow> nat \<Rightarrow> bool" where
  "live ag r \<longleftrightarrow> ag_heap ag r \<noteq> None"

definition held :: "('priv, 'pub) notif_lib \<Rightarrow> 'pub agent \<Rightarrow> nat \<Rightarrow> bool" where
  "held nlib ag r \<longleftrightarrow>
     (\<exists>u. ag_heap ag r = Some u \<and> u_locked u \<and> verifies nlib (ag_PublicKey ag) (u_Notification u))"

definition older :: "'pub agent \<Rightarrow> nat \<Rightarrow> nat \<Rightarrow> bool" where
  "older ag old r \<longleftrightarrow>
     (\<exists>v u. ag_heap ag old = Some v \<and> ag_heap ag r = Some u \<and>
        n_Version (u_Notification v) < n_Version (u_Notification u))"

fun goroutine_ok :: "('priv, 'pub) notif_lib \<Rightarrow> 'pub agent \<Rightarrow> goroutine \<Rightarrow> bool" where
  "goroutine_ok nlib ag (StartLock r) \<longleftrightarrow> live ag r"
| "goroutine_ok nlib ag (StartAdd r) \<longleftrightarrow> held nlib ag r"
| "goroutine_ok nlib ag (StartStop r old) \<longleftrightarrow> held nlib ag r \<and> older ag old r"
| "goroutine_ok nlib ag (StartDelete r old) \<longleftrightarrow> held nlib ag r \<and> older ag old r"
| "goroutine_ok nlib ag (StartActivate r) \<longleftrightarrow> held nlib ag r"
| "goroutine_ok nlib ag (DeleteMap uuid) \<longleftrightarrow> True"
| "goroutine_ok nlib ag (DeleteStop r) \<longleftrightarrow> live ag r"
| "goroutine_ok nlib ag (DeleteFiles r) \<longleftrightarrow> live ag r"
| "goroutine_ok nlib ag (MonitorTurn r s) \<longleftrightarrow> live ag r"
| "goroutine_ok nlib ag (MonitorSave r) \<longleftrightarrow> live ag r"
| "goroutine_ok nlib ag (MonitorWrite r) \<longleftrightarrow> live ag r"

definition starters :: "nat \<Rightarrow> goroutine multiset \<Rightarrow> nat" where
  "starters r ts = size (filter_mset (\<lambda>t. starts t = Some r) ts)"

lemma starters_simps [simp]:
  "starters r {#} = 0"
  "starters r (add_mset t ts) = (if starts t = Some r then 1 else 0) + starters r ts"
  "starters r (ts + ts') = starters r ts + starters r ts'"
  by (simp_all add: starters_def)

definition threads_ok :: "('priv, 'pub) notif_lib \<Rightarrow> 'pub threads \<Rightarrow> bool" where
  "threads_ok nlib c \<longleftrightarrow>
     agent_ok nlib (fst c) \<and> (\<forall>t \<in># snd c. goroutine_ok nlib (fst c) t) \<and> (\<forall>r. starters r (snd c) \<le> 1)"

text \<open>
  What a step leaves to the others: notifications, and everything of the objects whose lock the goroutine
  would have to take first.
\<close>

definition guarded :: "nat option \<Rightarrow> 'pub agent \<Rightarrow> 'pub agent \<Rightarrow> bool" where
  "guarded own ag ag' \<longleftrightarrow> ag_PublicKey ag' = ag_PublicKey ag \<and>
     (\<forall>x u. ag_heap ag x = Some u \<longrightarrow>
        (\<exists>u'. ag_heap ag' x = Some u' \<and> u_Notification u' = u_Notification u \<and>
           (u_locked u \<and> own \<noteq> Some x \<longrightarrow> u' = u)))"

lemma guarded_refl [simp]: "guarded own ag ag"
  by (simp add: guarded_def)

lemma guarded_cong:
  "ag_heap ag' = ag_heap ag \<Longrightarrow> ag_PublicKey ag' = ag_PublicKey ag \<Longrightarrow> guarded own ag ag'"
  by (simp add: guarded_def)

lemma guarded_set_update:
  "ag_heap ag r = Some u \<Longrightarrow> u_Notification u' = u_Notification u \<Longrightarrow> \<not> u_locked u \<or> own = Some r \<Longrightarrow>
   guarded own ag (emit acts (set_update r u' ag))"
  by (auto simp: guarded_def)

lemmas guarded_set_update' = guarded_set_update [where acts = "[]", unfolded emit_Nil]

lemma guarded_heap:
  "guarded own ag ag' \<Longrightarrow> ag_heap ag x = Some u \<Longrightarrow>
   \<exists>u'. ag_heap ag' x = Some u' \<and> u_Notification u' = u_Notification u"
  unfolding guarded_def by blast

lemma guarded_live: "guarded own ag ag' \<Longrightarrow> live ag r \<Longrightarrow> live ag' r"
  by (auto simp: live_def dest: guarded_heap)

lemma guarded_older:
  assumes "guarded own ag ag'" "older ag old r"
  shows "older ag' old r"
proof -
  obtain v u where vu: "ag_heap ag old = Some v" "ag_heap ag r = Some u"
      "n_Version (u_Notification v) < n_Version (u_Notification u)"
    using assms(2) by (auto simp: older_def)
  from guarded_heap [OF assms(1) vu(1)] guarded_heap [OF assms(1) vu(2)] vu(3) show ?thesis
    by (auto simp: older_def)
qed

lemma guarded_held: "guarded own ag ag' \<Longrightarrow> own \<noteq> Some r \<Longrightarrow> held nlib ag r \<Longrightarrow> held nlib ag' r"
  by (fastforce simp: held_def guarded_def)

lemma guarded_goroutine_ok:
  "guarded own ag ag' \<Longrightarrow> goroutine_ok nlib ag t \<Longrightarrow> holds t = None \<or> holds t \<noteq> own \<Longrightarrow> goroutine_ok nlib ag' t"
  by (cases t) (auto intro: guarded_live guarded_older guarded_held)

subsection \<open>One step keeps the invariant\<close>

lemma locking_Done:
  "locking r ag f = Done x s \<longleftrightarrow> (\<exists>u. ag_heap ag r = Some u \<and> \<not> u_locked u \<and> f u = Done x s)"
  by (auto simp: locking_def split: option.splits)

lemma guarded_Stop:
  assumes "Update_Stop r ag = Done x ag'"
  shows "guarded own ag ag'"
proof -
  have "final_state (Update_Stop r ag) = Some ag'" using assms by simp
  then show ?thesis
  proof (cases rule: Stop_cases)
    case (2 u acts)
    then show ?thesis using guarded_set_update [OF 2(1)] by simp
  qed simp
qed

lemma Delete_Done_sel:
  assumes "Update_Delete env r ag = Done x ag'"
  shows "ag_heap ag' = ag_heap ag" "ag_updates ag' = ag_updates ag" "ag_PublicKey ag' = ag_PublicKey ag"
    "ag_next ag' = ag_next ag"
  using assms by (auto simp: Update_Delete_def locking_Done Let_def split: option.splits if_splits)

lemma guarded_Delete: "Update_Delete env r ag = Done x ag' \<Longrightarrow> guarded own ag ag'"
  by (simp add: guarded_cong Delete_Done_sel)

text \<open>A turn of a monitor, under the lock.\<close>

lemma monitor_send_locked:
  "monitor_send lib nlib env ts u ag = Some (u1, s1, acts) \<Longrightarrow> u_locked u1 = u_locked u"
  by (auto simp: monitor_send_def split: option.splits if_splits prod.splits)

lemma monitor_turn_Done:
  assumes "monitor_turn lib nlib env toSave r ag = Done res ag'"
  obtains u u' acts where "ag_heap ag r = Some u" "\<not> u_locked u" "u_Notification u' = u_Notification u"
    "u_torrent u' = u_torrent u" "u_locked u' \<longleftrightarrow> res = None" "ag' = emit acts (set_update r u' ag)"
proof -
  obtain u where u: "ag_heap ag r = Some u" "\<not> u_locked u"
    using assms by (auto simp: monitor_turn_def locking_Done)
  show thesis
  proof (cases "u_Stopped u \<or> u_torrent u = None")
    case True
    then have "ag' = set_update r (u\<lparr>u_locked := True\<rparr>) ag" "res = None"
      using assms u by (auto simp: monitor_turn_def locking_def set_locked_Some split: if_splits)
    then show thesis using that [OF u, of "u\<lparr>u_locked := True\<rparr>" "[]"] by simp
  next
    case False
    then obtain h where h: "u_torrent u = Some h" "\<not> u_Stopped u" by auto
    then obtain u1 s1 acts1 where send: "monitor_send lib nlib env toSave u ag = Some (u1, s1, acts1)"
      using assms u by (cases "monitor_send lib nlib env toSave u ag") (auto simp: monitor_turn_def locking_def)
    obtain u2 s2 acts2 where prog: "monitor_progress env h s1 u1 ag = (u2, s2, acts2)"
      by (cases "monitor_progress env h s1 u1 ag") auto
    have "res = Some s2" "ag' = emit (acts1 @ acts2) (set_update r u2 ag)"
      using assms u h by (auto simp: monitor_turn_def locking_def send prog)
    moreover have "u_Notification u2 = u_Notification u" "u_torrent u2 = u_torrent u" "u_locked u2 = u_locked u"
      using monitor_progress_frame [of env h s1 u1 ag]
        monitor_send_frame [OF send] monitor_send_locked [OF send] by (simp_all add: prog)
    ultimately show thesis using that [OF u, of u2 "acts1 @ acts2"] u(2) by simp
  qed
qed

text \<open>What a goroutine leaves behind, itself in its new place.\<close>

definition step_ok :: "('priv, 'pub) notif_lib \<Rightarrow> goroutine \<Rightarrow> 'pub agent \<Rightarrow> goroutine list \<Rightarrow> 'pub agent \<Rightarrow> bool" where
  "step_ok nlib t ag new ag' \<longleftrightarrow>
     agent_ok nlib ag' \<and> guarded (holds t) ag ag' \<and> (\<forall>t' \<in> set new. goroutine_ok nlib ag' t') \<and>
     (\<forall>r. starters r (mset new) \<le> (if starts t = Some r then 1 else 0))"

lemma step_okI:
  assumes "agent_ok nlib ag'" "guarded (holds t) ag ag'" "new = [] \<or> (\<exists>t'. new = [t'] \<and> goroutine_ok nlib ag' t' \<and>
    (starts t' = None \<or> starts t' = starts t))"
  shows "step_ok nlib t ag new ag'"
  using assms by (auto simp: step_ok_def)

lemma step_StartLock:
  assumes "agent_ok nlib ag" "goroutine_run lib nlib js env (StartLock r) ag = Done new ag'"
  shows "step_ok nlib (StartLock r) ag new ag'"
proof -
  obtain u where u: "ag_heap ag r = Some u" "\<not> u_locked u"
    using assms(2) by (auto simp: locking_Done)
  show ?thesis
  proof (cases "verifies nlib (ag_PublicKey ag) (u_Notification u)")
    case True
    then have "new = [StartAdd r]" "ag' = set_update r (u\<lparr>u_locked := True\<rparr>) ag"
      using assms(2) u by (auto simp: locking_def set_locked_Some iffD2 [OF Update_Verify_None True])
    moreover have "agent_ok nlib (set_update r (u\<lparr>u_locked := True\<rparr>) ag)"
      by (rule agent_ok_set_update [OF assms(1) u(1)]) simp_all
    ultimately show ?thesis
      using u True by (intro step_okI) (auto simp: held_def intro!: guarded_set_update')
  next
    case False
    then have "new = []" "ag' = ag" using assms(2) u by (auto simp: locking_def Update_Verify_Some)
    then show ?thesis using assms(1) by (intro step_okI) simp_all
  qed
qed

lemma step_StartAdd:
  assumes "agent_ok nlib ag" "held nlib ag r" "goroutine_run lib nlib js env (StartAdd r) ag = Done new ag'"
  shows "step_ok nlib (StartAdd r) ag new ag'"
proof -
  obtain u where u: "ag_heap ag r = Some u" "u_locked u" "verifies nlib (ag_PublicKey ag) (u_Notification u)"
    using assms(2) by (auto simp: held_def)
  let ?n = "u_Notification u"
  let ?stored = "ag\<lparr>ag_updates := (ag_updates ag)(n_UUID ?n \<mapsto> r)\<rparr>"
  have wf: "heap_wf ag" using assms(1) by (simp add: agent_ok_def)
  note add = addUpdate_verdict [OF wf u(1)]
  show ?thesis
  proof (cases "verdict_of n_UUID n_Version ?n (agent_content ag) = Accepted")
    case False
    then have "new = []" "ag' = set_update r (u\<lparr>u_locked := False\<rparr>) ag"
      using assms(3) u(1)
      by (cases "verdict_of n_UUID n_Version ?n (agent_content ag)"; simp add: add set_locked_Some)+
    moreover have "agent_ok nlib (set_update r (u\<lparr>u_locked := False\<rparr>) ag)"
      by (rule agent_ok_set_update [OF assms(1) u(1)]) simp_all
    ultimately show ?thesis using u(1) by (intro step_okI) (auto intro!: guarded_set_update')
  next
    case accepted: True
    have ok: "agent_ok nlib ?stored" by (rule agent_ok_store [OF assms(1) u(1,3)])
    have held: "held nlib ?stored r" using u by (simp add: held_def)
    have guarded: "guarded (Some r) ag ?stored" by (rule guarded_cong) simp_all
    show ?thesis
    proof (cases "ag_updates ag (n_UUID ?n)")
      case None
      then have "new = [StartActivate r]" "ag' = ?stored" using assms(3) accepted by (simp_all add: add)
      then show ?thesis using ok held guarded by (intro step_okI) simp_all
    next
      case (Some old)
      then obtain v where v: "ag_heap ag old = Some v" "n_UUID (u_Notification v) = n_UUID ?n"
        using heap_wf_lookup [OF wf] by blast
      have "n_Version (u_Notification v) < n_Version ?n"
        using accepted v Some by (auto simp: verdict_of_def agent_content_def split: if_splits)
      then have "older ?stored old r" using u(1) v(1) by (simp add: older_def)
      moreover have "new = [StartStop r old]" "ag' = ?stored"
        using assms(3) accepted Some by (simp_all add: add)
      ultimately show ?thesis using ok held guarded by (intro step_okI) simp_all
    qed
  qed
qed

lemma step_Stop:
  assumes "agent_ok nlib ag" "Update_Stop old ag = Done x ag'" "goroutine_ok nlib ag t"
    and "new = [t']" "starts t' = starts t" "\<And>a. goroutine_ok nlib a t \<Longrightarrow> goroutine_ok nlib a t'"
  shows "step_ok nlib t ag new ag'"
proof -
  have "final_state (Update_Stop old ag) = Some ag'" using assms(2) by simp
  then have "agent_ok nlib ag'" using agent_ok_Stop [OF assms(1)] by blast
  moreover have "guarded None ag ag'" by (rule guarded_Stop [OF assms(2)])
  then have "goroutine_ok nlib ag' t" using assms(3) by (cases "holds t") (auto intro: guarded_goroutine_ok)
  ultimately show ?thesis
    using assms(4-6) guarded_Stop [OF assms(2)] by (intro step_okI) simp_all
qed

lemma step_Delete:
  assumes "agent_ok nlib ag" "Update_Delete env old ag = Done x ag'" "goroutine_ok nlib ag t"
    and "new = [] \<or> (\<exists>t'. new = [t'] \<and> starts t' = starts t \<and> (\<forall>a. goroutine_ok nlib a t \<longrightarrow> goroutine_ok nlib a t'))"
  shows "step_ok nlib t ag new ag'"
proof -
  have "final_state (Update_Delete env old ag) = Some ag'" using assms(2) by simp
  then have "agent_ok nlib ag'" using agent_ok_Delete [OF assms(1)] by blast
  moreover have "guarded None ag ag'" by (rule guarded_Delete [OF assms(2)])
  then have "goroutine_ok nlib ag' t" using assms(3) by (cases "holds t") (auto intro: guarded_goroutine_ok)
  ultimately show ?thesis
    using assms(4) guarded_Delete [OF assms(2)] by (intro step_okI) auto
qed

lemma step_StartActivate:
  assumes "agent_ok nlib ag" "held nlib ag r" "goroutine_run lib nlib js env (StartActivate r) ag = Done new ag'"
  shows "step_ok nlib (StartActivate r) ag new ag'"
proof -
  obtain u where u: "ag_heap ag r = Some u" "u_locked u" "verifies nlib (ag_PublicKey ag) (u_Notification u)"
    using assms(2) by (auto simp: held_def)
  obtain err where act: "activate nlib (te_start env) r u ag = Done err ag'"
    and new: "new = (if err = None then [MonitorTurn r True] else [])"
    using assms(3) u(1) by (auto simp: bind_outcome_Done)
  have "agent_ok nlib ag'"
    using activate_final [OF assms(1) u(1) refl u(3), of "te_start env" ag'] act by simp
  moreover have "guarded (Some r) ag ag'"
    using act u(1) by (auto simp: activate_def set_locked_Some split: sum.splits
        intro!: guarded_set_update guarded_set_update')
  moreover have "live ag' r" using guarded_live [OF calculation(2)] u(1) by (simp add: live_def)
  ultimately show ?thesis by (intro step_okI) (simp_all add: new)
qed

lemma step_DeleteMap:
  assumes "agent_ok nlib ag" "goroutine_run lib nlib js env (DeleteMap uuid) ag = Done new ag'"
  shows "step_ok nlib (DeleteMap uuid) ag new ag'"
proof -
  let ?removed = "ag\<lparr>ag_updates := (ag_updates ag)(uuid := None)\<rparr>"
  have ag': "ag' = ?removed" and new: "new = [] \<or> (\<exists>r. ag_updates ag uuid = Some r \<and> new = [DeleteStop r])"
    using assms(2) by (auto simp: deleteUpdate_def split: option.splits)
  have "live ag' r" if "ag_updates ag uuid = Some r" for r
    using assms(1) heap_wf_lookup [OF _ that] by (auto simp: agent_ok_def live_def ag')
  with new agent_ok_remove [OF assms(1), of uuid] show ?thesis
    by (intro step_okI) (auto simp: ag' intro!: guarded_cong)
qed

lemma step_MonitorTurn:
  assumes "agent_ok nlib ag" "goroutine_run lib nlib js env (MonitorTurn r s) ag = Done new ag'"
  shows "step_ok nlib (MonitorTurn r s) ag new ag'"
proof -
  obtain res where turn: "monitor_turn lib nlib (te_monitor env) s r ag = Done res ag'"
    and new: "new = (case res of None \<Rightarrow> [] | Some save \<Rightarrow> [if save then MonitorSave r else MonitorTurn r False])"
    using assms(2) by (auto simp: bind_outcome_Done)
  from turn show ?thesis
  proof (cases rule: monitor_turn_Done)
    case (1 u u' acts)
    have "agent_ok nlib (set_update r u' ag)"
      by (rule agent_ok_set_update [OF assms(1) 1(1,3)]) (simp add: 1(4))
    moreover have "guarded None ag ag'" unfolding 1(6) using 1 by (intro guarded_set_update) simp_all
    moreover have "live ag' r" by (simp add: live_def 1(6))
    ultimately show ?thesis using 1(6) by (intro step_okI) (auto simp: new split: option.split)
  qed
qed

lemma Save_guarded:
  assumes "agent_ok nlib ag" "final_state (Update_Save js openf wrote r ag) = Some ag'"
  shows "agent_ok nlib ag' \<and> guarded own ag ag'"
  using assms(1) Save_final [OF assms(2)] agent_ok_cong [of ag' ag nlib] by (simp add: guarded_cong)

lemma step_MonitorSave:
  assumes "agent_ok nlib ag" "live ag r" "goroutine_run lib nlib js env (MonitorSave r) ag = Done new ag'"
  shows "step_ok nlib (MonitorSave r) ag new ag'"
proof -
  let ?save = "Update_Save js (me_open (te_monitor env)) (me_wrote (te_monitor env)) r ag"
  have "final_state ?save = Some ag'" and new: "new = [MonitorTurn r False] \<or> new = [MonitorWrite r]"
    using assms(3) by (auto split: outcome.splits)
  from Save_guarded [OF assms(1) this(1)] have step: "agent_ok nlib ag'" "guarded None ag ag'" by blast+
  moreover have "live ag' r" by (rule guarded_live [OF step(2) assms(2)])
  ultimately show ?thesis using new by (intro step_okI) auto
qed

lemma step_MonitorWrite:
  assumes "agent_ok nlib ag" "live ag r" "goroutine_run lib nlib js env (MonitorWrite r) ag = Done new ag'"
  shows "step_ok nlib (MonitorWrite r) ag new ag'"
proof -
  let ?save = "Update_Save js None (me_wrote (te_monitor env)) r ag"
  have "ag' = ag \<or> final_state ?save = Some ag'" and new: "new = [MonitorTurn r False]"
    using assms(3) by (auto simp: locking_Done split: outcome.splits if_splits)
  with Save_guarded [OF assms(1)] assms(1) have step: "agent_ok nlib ag'" "guarded None ag ag'" by fastforce+
  moreover have "live ag' r" by (rule guarded_live [OF step(2) assms(2)])
  ultimately show ?thesis using new by (intro step_okI) auto
qed

lemma goroutine_run_ok:
  assumes "agent_ok nlib ag" "goroutine_ok nlib ag t" "goroutine_run lib nlib js env t ag = Done new ag'"
  shows "step_ok nlib t ag new ag'"
proof (cases t)
  case (StartStop r old)
  then obtain x where "Update_Stop old ag = Done x ag'" "new = [StartDelete r old]"
    using assms(3) by (auto simp: bind_outcome_Done)
  then show ?thesis using step_Stop [OF assms(1) _ assms(2)] StartStop by simp
next
  case (StartDelete r old)
  then obtain x where "Update_Delete (te_start env) old ag = Done x ag'" "new = [StartActivate r]"
    using assms(3) by (auto simp: bind_outcome_Done)
  then show ?thesis using step_Delete [OF assms(1) _ assms(2)] StartDelete by simp
next
  case (DeleteStop r)
  then obtain x where "Update_Stop r ag = Done x ag'" "new = [DeleteFiles r]"
    using assms(3) by (auto simp: bind_outcome_Done)
  then show ?thesis using step_Stop [OF assms(1) _ assms(2)] DeleteStop by simp
next
  case (DeleteFiles r)
  then obtain x where "Update_Delete (te_start env) r ag = Done x ag'" "new = []"
    using assms(3) by (auto simp: bind_outcome_Done)
  then show ?thesis using step_Delete [OF assms(1) _ assms(2)] by simp
qed (use assms step_StartLock step_StartAdd step_StartActivate step_DeleteMap step_MonitorTurn
    step_MonitorSave step_MonitorWrite in fastforce)+

subsection \<open>Whatever the scheduler does\<close>

lemma holds_starts: "holds t = Some r \<Longrightarrow> starts t = Some r"
  by (cases t) simp_all

lemma starts_live: "goroutine_ok nlib ag t \<Longrightarrow> starts t = Some r \<Longrightarrow> live ag r"
  by (cases t) (auto simp: held_def live_def)

lemma starters_pos: "t \<in># ts \<Longrightarrow> starts t = Some r \<Longrightarrow> 1 \<le> starters r ts"
  by (auto simp: starters_def dest!: multi_member_split)

lemma starters_none: "(\<And>t. t \<in># ts \<Longrightarrow> starts t \<noteq> Some r) \<Longrightarrow> starters r ts = 0"
  by (induction ts) auto

text \<open>The goroutine that runs and another one never hold the same lock.\<close>

lemma holders_differ:
  assumes "starters r (add_mset t ts) \<le> 1" "t2 \<in># ts" "holds t = Some r"
  shows "holds t2 \<noteq> Some r"
  using assms starters_pos [OF assms(2), of r] holds_starts [of t r] holds_starts [of t2 r] by auto

lemma others_ok:
  assumes "guarded (holds t) ag ag'" "\<forall>t2 \<in># ts. goroutine_ok nlib ag t2" "\<forall>r. starters r (add_mset t ts) \<le> 1"
  shows "\<forall>t2 \<in># ts. goroutine_ok nlib ag' t2"
proof
  fix t2 assume t2: "t2 \<in># ts"
  have "holds t2 = None \<or> holds t2 \<noteq> holds t"
    using assms(3) holders_differ [OF _ t2, of _ t] by (cases "holds t2") (metis option.distinct(1), metis)
  then show "goroutine_ok nlib ag' t2" using assms(1,2) t2 guarded_goroutine_ok by blast
qed

lemma tstep_ok:
  assumes "threads_ok nlib c" "tstep lib nlib js c c'"
  shows "threads_ok nlib c'"
  using assms(2)
proof (cases rule: tstep.cases)
  case (run env t ag new ag' ts)
  have ok: "agent_ok nlib ag" "goroutine_ok nlib ag t" "\<forall>t2 \<in># ts. goroutine_ok nlib ag t2"
      "\<forall>r. starters r (add_mset t ts) \<le> 1"
    using assms(1) by (simp_all add: threads_ok_def run(1))
  have step: "step_ok nlib t ag new ag'" by (rule goroutine_run_ok [OF ok(1,2) run(3)])
  have "\<forall>t2 \<in># ts. goroutine_ok nlib ag' t2"
    using others_ok [OF _ ok(3,4)] step by (simp add: step_ok_def)
  moreover have "starters r (mset new + ts) \<le> 1" for r
  proof -
    have "starters r (mset new) \<le> (if starts t = Some r then 1 else 0)" using step by (simp add: step_ok_def)
    moreover have "(if starts t = Some r then 1 else 0) + starters r ts \<le> 1" using ok(4) by simp
    ultimately show ?thesis by simp
  qed
  ultimately show ?thesis using step by (auto simp: threads_ok_def step_ok_def run(2))
qed

lemma tsteps_ok: "(tstep lib nlib js)\<^sup>*\<^sup>* c c' \<Longrightarrow> threads_ok nlib c \<Longrightarrow> threads_ok nlib c'"
  by (induction rule: rtranclp_induct) (auto intro: tstep_ok)

lemma cstep_ok:
  assumes "threads_ok nlib c" "cstep lib nlib js c c'"
  shows "threads_ok nlib c'"
  using assms(2)
proof (cases rule: cstep.cases)
  case goroutine
  then show ?thesis using tstep_ok assms(1) by blast
next
  case (offer u ag r ag' ts)
  note new = new_object_sel [OF offer(5)]
  have ok: "agent_ok nlib ag" "\<forall>t \<in># ts. goroutine_ok nlib ag t" "\<forall>x. starters x ts \<le> 1"
    using assms(1) by (simp_all add: threads_ok_def offer(1))
  have fresh: "ag_heap ag r = None"
    using ok(1) new(1) unfolding agent_ok_def heap_wf_def by (metis less_irrefl not_Some_eq)
  then have "guarded None ag ag'" using new(2,5) by (auto simp: guarded_def)
  then have "\<forall>t \<in># ts. goroutine_ok nlib ag' t" using ok(2) guarded_goroutine_ok by (metis option.exhaust)
  moreover have "starts t \<noteq> Some r" if "t \<in># ts" for t
    using starts_live [of nlib ag t r] ok(2) fresh that by (auto simp: live_def)
  then have "starters r ts = 0" by (rule starters_none)
  moreover have "agent_ok nlib ag'" using agent_ok_new_object [OF ok(1) offer(3)] offer(5) by simp
  moreover have "live ag' r" using new(2) by (simp add: live_def)
  ultimately show ?thesis using ok(3) by (auto simp: threads_ok_def offer(2))
next
  case (request ag ts uuid)
  then show ?thesis using assms(1) by (simp add: threads_ok_def)
next
  case (overlay ag ts ov)
  have "guarded None ag (ag\<lparr>ag_Overlay := ov\<rparr>)" by (rule guarded_cong) simp_all
  moreover have "\<forall>t \<in># ts. goroutine_ok nlib ag t" using assms(1) by (simp add: threads_ok_def overlay(1))
  ultimately have "\<forall>t \<in># ts. goroutine_ok nlib (ag\<lparr>ag_Overlay := ov\<rparr>) t"
    using guarded_goroutine_ok by (metis option.exhaust)
  then show ?thesis
    using assms(1) agent_ok_cong [of "ag\<lparr>ag_Overlay := ov\<rparr>" ag nlib] by (simp add: threads_ok_def overlay)
qed

definition threads_init :: "'pub threads \<Rightarrow> bool" where
  "threads_init c \<longleftrightarrow> agent_init (fst c) \<and> snd c = {#}"

interpretation agent_threads: invariant_system threads_init "cstep lib nlib js" "threads_ok nlib" for lib nlib js
  by unfold_locales (simp add: threads_init_def threads_ok_def agent_init_ok, rule cstep_ok)

end
