(* ===== verification/Lock_Order.thy ===== *)
theory Lock_Order
  imports Main "HOL-Library.Multiset"
begin

section \<open>Locks taken in an order\<close>

text \<open>
  The contract that rules out a deadlock: every lock that is taken is held by a task that is there, and
  a task that holds a lock and waits for another one waits for one of lower rank.  Then some task does
  not wait.  \<open>draining\<close> is the contract of a system that always gets to an end: while it is not done it
  can go on, and each step brings it nearer.
\<close>

locale lock_order =
  fixes tasks :: "'s \<Rightarrow> 't multiset"
    and inv :: "'s \<Rightarrow> bool"
    and taken :: "'s \<Rightarrow> 'l \<Rightarrow> bool"
    and holds :: "'t \<Rightarrow> 'l option"
    and awaits :: "'t \<Rightarrow> 'l option"
    and rank :: "'s \<Rightarrow> 'l \<Rightarrow> nat"
    and kind :: "'t \<Rightarrow> bool"
  assumes taken_held: "inv s \<Longrightarrow> taken s l \<Longrightarrow> \<exists>t \<in># tasks s. holds t = Some l"
    and ordered: "inv s \<Longrightarrow> t \<in># tasks s \<Longrightarrow> holds t = Some l \<Longrightarrow> awaits t = Some m \<Longrightarrow> rank s m < rank s l"
    and holder_kind: "holds t = Some l \<Longrightarrow> kind t"
begin

definition free_to_run :: "'s \<Rightarrow> 't \<Rightarrow> bool" where
  "free_to_run s t \<longleftrightarrow> (\<forall>l. awaits t = Some l \<longrightarrow> \<not> taken s l)"

lemma holder_free:
  assumes "inv s"
  shows "t \<in># tasks s \<Longrightarrow> holds t = Some l \<Longrightarrow> \<exists>t' \<in># tasks s. kind t' \<and> free_to_run s t'"
proof (induction "rank s l" arbitrary: t l rule: less_induct)
  case less
  show ?case
  proof (cases "free_to_run s t")
    case True
    then show ?thesis using less.prems holder_kind by blast
  next
    case False
    then obtain m where m: "awaits t = Some m" "taken s m" by (auto simp: free_to_run_def)
    obtain t2 where "t2 \<in># tasks s" "holds t2 = Some m" using taken_held [OF assms m(2)] by blast
    then show ?thesis using less.hyps [OF ordered [OF assms less.prems m(1)]] by blast
  qed
qed

lemma some_task_free:
  assumes "inv s" "t \<in># tasks s" "kind t"
  shows "\<exists>t' \<in># tasks s. kind t' \<and> free_to_run s t'"
proof (cases "free_to_run s t")
  case False
  then obtain m where "taken s m" by (auto simp: free_to_run_def)
  then show ?thesis using taken_held [OF assms(1)] holder_free [OF assms(1)] by blast
qed (use assms in blast)

end

locale draining =
  fixes run :: "nat \<Rightarrow> 's \<Rightarrow> 's \<Rightarrow> bool"
    and inv :: "'s \<Rightarrow> bool"
    and left :: "'s \<Rightarrow> nat"
    and finished :: "'s \<Rightarrow> bool"
  assumes run_refl: "run 0 s s"
    and run_more: "inv c \<Longrightarrow> run n c s \<Longrightarrow> \<not> finished s \<Longrightarrow> \<exists>t m. run m c t \<and> left t < left s"
begin

lemma drains:
  assumes "inv c"
  shows "run n c s \<Longrightarrow> \<exists>m t. run m c t \<and> finished t"
proof (induction "left s" arbitrary: n s rule: less_induct)
  case less
  show ?case
  proof (cases "finished s")
    case False
    then obtain t m where "run m c t" "left t < left s" using run_more [OF assms less.prems] by blast
    then show ?thesis using less.hyps by blast
  qed (use less.prems in blast)
qed

end

end
