(* ===== verification/Agent_Schedule.thy ===== *)
theory Agent_Schedule
  imports Agent_Threads Lock_Order
begin

section \<open>Schedules of the agent's goroutines\<close>

text \<open>
  What holds for every order in which the scheduler runs the goroutines: those that start or delete an
  update wait only for goroutines that start an older one, so they never wait for each other in a
  circle and all of them return; and the map ends with the newest of what was started, whatever the
  order.  A whole method is one of the schedules.  The exception is a monitor that ends: it keeps its
  lock (\<open>delete_waits_forever\<close> of \<open>Props_Threads\<close>), so schedules are taken up to that point.
\<close>

subsection \<open>Schedules\<close>

text \<open>The goroutines that end: those of \<open>Start\<close> and of a request to delete; \<open>todo\<close> counts their steps.\<close>

fun todo :: "goroutine \<Rightarrow> nat" where
  "todo (StartLock r) = 5"
| "todo (StartAdd r) = 4"
| "todo (StartStop r old) = 3"
| "todo (StartDelete r old) = 2"
| "todo (StartActivate r) = 1"
| "todo (DeleteMap uuid) = 3"
| "todo (DeleteStop r) = 2"
| "todo (DeleteFiles r) = 1"
| "todo (MonitorTurn r s) = 0"
| "todo (MonitorSave r) = 0"
| "todo (MonitorWrite r) = 0"

definition short_lived :: "goroutine \<Rightarrow> bool" where
  "short_lived t \<longleftrightarrow> 0 < todo t"

definition total_todo :: "goroutine multiset \<Rightarrow> nat" where
  "total_todo ts = sum_mset (image_mset todo ts)"

lemma total_todo_simps [simp]:
  "total_todo {#} = 0" "total_todo (add_mset t ts) = todo t + total_todo ts"
  "total_todo (ts + ts') = total_todo ts + total_todo ts'"
  by (simp_all add: total_todo_def)

text \<open>\<open>schedule n c c'\<close>: from \<open>c\<close> to \<open>c'\<close> in any order, with \<open>n\<close> steps of the first kind and no monitor that ends.\<close>

inductive schedule ::
  "'m stun_lib \<Rightarrow> ('priv, 'pub) notif_lib \<Rightarrow> update_json \<Rightarrow> nat \<Rightarrow> 'pub threads \<Rightarrow> 'pub threads \<Rightarrow> bool"
  for lib :: "'m stun_lib" and nlib :: "('priv, 'pub) notif_lib" and js :: update_json where
  start: "schedule lib nlib js 0 c c"
| work: "schedule lib nlib js n c (ag, add_mset t ts) \<Longrightarrow> short_lived t \<Longrightarrow>
    goroutine_run lib nlib js env t ag = Done new ag' \<Longrightarrow> schedule lib nlib js (Suc n) c (ag', mset new + ts)"
| monitor: "schedule lib nlib js n c (ag, add_mset t ts) \<Longrightarrow> \<not> short_lived t \<Longrightarrow> new \<noteq> [] \<Longrightarrow>
    goroutine_run lib nlib js env t ag = Done new ag' \<Longrightarrow> schedule lib nlib js n c (ag', mset new + ts)"

lemma schedule_tsteps: "schedule lib nlib js n c c' \<Longrightarrow> (tstep lib nlib js)\<^sup>*\<^sup>* c c'"
  by (induction rule: schedule.induct) (auto intro: tstep.run rtranclp.rtrancl_into_rtrancl)

lemma schedule_ok: "schedule lib nlib js n c c' \<Longrightarrow> threads_ok nlib c \<Longrightarrow> threads_ok nlib c'"
  by (induction rule: schedule.induct) (auto intro: tstep_ok tstep.run)

lemma todo_decreases:
  "goroutine_run lib nlib js env t ag = Done new ag' \<Longrightarrow> short_lived t \<Longrightarrow> total_todo (mset new) < todo t"
  by (cases t) (auto simp: short_lived_def bind_outcome_Done locking_Done split: option.splits prod.splits sum.splits)

lemma monitor_todo:
  assumes "goroutine_run lib nlib js env t ag = Done new ag'" "\<not> short_lived t"
  shows "total_todo (mset new) = 0"
proof (cases t)
  case (MonitorTurn r s)
  then show ?thesis using assms(1) by (auto simp: bind_outcome_Done split: option.split)
next
  case (MonitorSave r)
  then show ?thesis using assms(1) by (auto split: outcome.splits)
next
  case (MonitorWrite r)
  then have "new = [MonitorTurn r False]"
    using assms(1) by (auto simp: locking_Done split: outcome.splits if_splits)
  then show ?thesis by simp
qed (use assms(2) in \<open>simp_all add: short_lived_def\<close>)

lemma monitor_next:
  assumes "goroutine_run lib nlib js env t ag = Done new ag'" "\<not> short_lived t" "t' \<in> set new"
  shows "\<not> short_lived t'"
  using monitor_todo [OF assms(1,2)] assms(3) by (auto simp: total_todo_def short_lived_def)

lemma schedule_bound: "schedule lib nlib js n c c' \<Longrightarrow> n + total_todo (snd c') \<le> total_todo (snd c)"
proof (induction rule: schedule.induct)
  case (work n c ag t ts env new ag')
  then show ?case using todo_decreases [OF work.hyps(3,2)] by simp
next
  case (monitor n c ag t ts new env ag')
  then show ?case using monitor_todo [OF monitor.hyps(4,2)] by simp
qed simp

subsection \<open>No deadlock\<close>

text \<open>The lock a goroutine needs for its next step.\<close>

fun awaits :: "goroutine \<Rightarrow> nat option" where
  "awaits (StartLock r) = Some r"
| "awaits (StartStop r old) = Some old"
| "awaits (StartDelete r old) = Some old"
| "awaits (DeleteStop r) = Some r"
| "awaits (DeleteFiles r) = Some r"
| "awaits (MonitorTurn r s) = Some r"
| "awaits (MonitorWrite r) = Some r"
| "awaits t = None"

definition locked :: "'pub agent \<Rightarrow> nat \<Rightarrow> bool" where
  "locked ag r \<longleftrightarrow> (\<exists>u. ag_heap ag r = Some u \<and> u_locked u)"

text \<open>Every lock that is taken is held by a goroutine that is there.\<close>

definition locks_held :: "'pub threads \<Rightarrow> bool" where
  "locks_held c \<longleftrightarrow> (\<forall>r. locked (fst c) r \<longrightarrow> (\<exists>t \<in># snd c. holds t = Some r))"

definition runnable :: "'m stun_lib \<Rightarrow> ('priv, 'pub) notif_lib \<Rightarrow> update_json \<Rightarrow> 'pub agent \<Rightarrow> goroutine \<Rightarrow> bool" where
  "runnable lib nlib js ag t \<longleftrightarrow> (\<forall>env. \<exists>new ag'. goroutine_run lib nlib js env t ag = Done new ag')"

lemma locking_runs:
  "live ag r \<Longrightarrow> \<not> locked ag r \<Longrightarrow> (\<And>u. ag_heap ag r = Some u \<Longrightarrow> \<exists>x s. f u = Done x s) \<Longrightarrow>
   \<exists>x s. locking r ag f = Done x s"
  by (auto simp: live_def locked_def locking_def)

lemma Stop_runs: "live ag r \<Longrightarrow> \<not> locked ag r \<Longrightarrow> \<exists>ag'. Update_Stop r ag = Done () ag'"
  using Stop_Done [of ag r] by (auto simp: live_def locked_def)

lemma Delete_runs: "live ag r \<Longrightarrow> \<not> locked ag r \<Longrightarrow> \<exists>err ag'. Update_Delete env r ag = Done err ag'"
  unfolding Update_Delete_def by (rule locking_runs) (auto simp: Let_def split: option.split)

lemma older_live: "older ag old r \<Longrightarrow> live ag old"
  by (auto simp: older_def live_def)

lemma short_lived_runnable:
  assumes "goroutine_ok nlib ag t" "short_lived t" "\<And>x. awaits t = Some x \<Longrightarrow> \<not> locked ag x"
  shows "runnable lib nlib js ag t"
  unfolding runnable_def
proof
  fix env
  show "\<exists>new ag'. goroutine_run lib nlib js env t ag = Done new ag'"
  proof (cases t)
    case (StartLock r)
    with assms(1,3) show ?thesis
      by (auto intro!: locking_runs split: option.split)
  next
    case (StartAdd r)
    then show ?thesis by (auto split: prod.split sum.split option.split)
  next
    case (StartStop r old)
    with assms(1) have "live ag old" by (auto dest: older_live)
    with StartStop assms(3) obtain ag' where "Update_Stop old ag = Done () ag'"
      using Stop_runs [of ag old] by auto
    with StartStop show ?thesis by simp
  next
    case (StartDelete r old)
    with assms(1) have "live ag old" by (auto dest: older_live)
    with StartDelete assms(3) obtain err ag' where "Update_Delete (te_start env) old ag = Done err ag'"
      using Delete_runs [of ag old "te_start env"] by auto
    with StartDelete show ?thesis by simp
  next
    case (StartActivate r)
    with assms(1) show ?thesis by (auto simp: held_def activate_def split: sum.split)
  next
    case (DeleteMap uuid)
    then show ?thesis by (auto split: prod.split option.split)
  next
    case (DeleteStop r)
    with assms(1,3) obtain ag' where "Update_Stop r ag = Done () ag'"
      using Stop_runs [of ag r] by auto
    with DeleteStop show ?thesis by simp
  next
    case (DeleteFiles r)
    with assms(1,3) obtain err ag' where "Update_Delete (te_start env) r ag = Done err ag'"
      using Delete_runs [of ag r "te_start env"] by auto
    with DeleteFiles show ?thesis by simp
  qed (use assms(2) in \<open>simp_all add: short_lived_def\<close>)
qed

text \<open>A goroutine that waits waits for one that starts an older update; so one of them can run.\<close>

lemma holder_short_lived: "holds t = Some r \<Longrightarrow> short_lived t"
  by (cases t) (simp_all add: short_lived_def)

lemma holder_waits:
  "goroutine_ok nlib ag t \<Longrightarrow> holds t = Some r \<Longrightarrow> awaits t = Some x \<Longrightarrow> older ag x r"
  by (cases t) simp_all

definition version_rank :: "'pub threads \<Rightarrow> nat \<Rightarrow> nat" where
  "version_rank c r =
     (case ag_heap (fst c) r of None \<Rightarrow> 0 | Some u \<Rightarrow> unat (n_Version (u_Notification u)))"

lemma older_rank: "older (fst c) x r \<Longrightarrow> version_rank c x < version_rank c r"
  by (auto simp: older_def version_rank_def word_less_nat_alt)

lemma holder_waits_older:
  assumes "threads_ok nlib c" "t \<in># snd c" "holds t = Some r" "awaits t = Some x"
  shows "version_rank c x < version_rank c r"
proof -
  have "goroutine_ok nlib (fst c) t" using assms(1,2) by (simp add: threads_ok_def)
  from holder_waits [OF this assms(3,4)] show ?thesis by (rule older_rank)
qed

interpretation agent_locks: lock_order snd "\<lambda>c. threads_ok nlib c \<and> locks_held c" "\<lambda>c. locked (fst c)"
    holds awaits version_rank short_lived
  for nlib
  by unfold_locales (auto simp: locks_held_def intro: holder_waits_older holder_short_lived)

lemma short_lived_progress:
  assumes "threads_ok nlib (ag, ts)" "locks_held (ag, ts)" "t \<in># ts" "short_lived t"
  shows "\<exists>t' \<in># ts. short_lived t' \<and> runnable lib nlib js ag t'"
proof -
  obtain t' where t': "t' \<in># ts" "short_lived t'" "agent_locks.free_to_run (ag, ts) t'"
    using agent_locks.some_task_free [of nlib "(ag, ts)" t] assms by auto
  moreover have "goroutine_ok nlib ag t'" using assms(1) t'(1) by (simp add: threads_ok_def)
  ultimately show ?thesis
    using short_lived_runnable [of nlib ag t'] by (auto simp: agent_locks.free_to_run_def)
qed

subsection \<open>Which locks a step leaves taken\<close>

lemma locked_set_update:
  "locked (emit acts (set_update r u ag)) x \<longleftrightarrow> (if x = r then u_locked u else locked ag x)"
  by (auto simp: locked_def)

lemma locked_heap: "ag_heap ag' = ag_heap ag \<Longrightarrow> locked ag' x = locked ag x"
  by (simp add: locked_def)

lemma Stop_locked:
  assumes "Update_Stop r ag = Done x ag'"
  shows "locked ag' y = locked ag y"
proof -
  have "final_state (Update_Stop r ag) = Some ag'" using assms by simp
  then show ?thesis
    by (cases rule: Stop_cases) (auto simp: locked_def)
qed

lemma Delete_locked: "Update_Delete env r ag = Done x ag' \<Longrightarrow> locked ag' y = locked ag y"
  by (rule locked_heap) (rule Delete_Done_sel(1))

lemma activate_locked:
  assumes "activate nlib env r u ag = Done err ag'" "ag_heap ag r = Some v"
  shows "locked ag' y \<longleftrightarrow> y \<noteq> r \<and> locked ag y"
  using assms by (auto simp: activate_def set_locked_Some locked_def split: sum.splits if_splits)

lemma addUpdate_heap: "addUpdate r ag = (res, ag') \<Longrightarrow> ag_heap ag' = ag_heap ag"
  by (auto simp: addUpdate_def Let_def split: option.splits if_splits)

lemma Save_locked: "final_state (Update_Save js openf wrote r ag) = Some ag' \<Longrightarrow> locked ag' y = locked ag y"
  by (rule locked_heap) (rule Save_final(1))

text \<open>A turn of a monitor that goes on leaves the locks as they are, and so do its saves.\<close>

lemma monitor_turn_locked:
  assumes "monitor_turn lib nlib env s r ag = Done (Some save) ag'"
  shows "locked ag' x \<longrightarrow> x \<noteq> r \<and> locked ag x"
  using assms by (cases rule: monitor_turn_Done) (auto simp: locked_set_update split: if_splits)

lemma monitor_write_locked:
  assumes "goroutine_run lib nlib js env t ag = Done new ag'" "t = MonitorSave r \<or> t = MonitorWrite r"
  shows "locked ag' x = locked ag x"
proof -
  have "ag' = ag \<or> (\<exists>openf wrote. final_state (Update_Save js openf wrote r ag) = Some ag')"
    using assms(2)
  proof
    assume "t = MonitorSave r"
    with assms(1) have "final_state (Update_Save js (me_open (te_monitor env)) (me_wrote (te_monitor env)) r ag) = Some ag'"
      by (auto split: outcome.splits)
    then show ?thesis by blast
  next
    assume "t = MonitorWrite r"
    with assms(1) have "ag' = ag \<or> final_state (Update_Save js None (me_wrote (te_monitor env)) r ag) = Some ag'"
      by (auto simp: locking_Done split: outcome.splits if_splits)
    then show ?thesis by blast
  qed
  then show ?thesis using Save_locked by blast
qed

text \<open>After a step of a goroutine that does not end as a monitor, a lock is its own or was taken before.\<close>

lemma step_locked:
  assumes "goroutine_ok nlib ag t" "goroutine_run lib nlib js env t ag = Done new ag'" "short_lived t \<or> new \<noteq> []"
    and "locked ag' x"
  shows "(\<exists>t' \<in> set new. holds t' = Some x) \<or> (holds t \<noteq> Some x \<and> locked ag x)"
proof (cases t)
  case (StartLock r)
  then show ?thesis
    using assms(2,4) by (auto simp: locking_Done set_locked_Some locked_def split: option.splits if_splits)
next
  case (StartAdd r)
  obtain res ag1 where add: "addUpdate r ag = (res, ag1)" by (cases "addUpdate r ag")
  obtain u where "ag_heap ag1 r = Some u" using assms(1) StartAdd addUpdate_heap [OF add] by (auto simp: held_def)
  then show ?thesis
    using assms(2,4) StartAdd addUpdate_heap [OF add]
    by (auto simp: add set_locked_Some locked_def split: sum.splits option.splits if_splits)
next
  case (StartActivate r)
  then obtain u where u: "ag_heap ag r = Some u" using assms(1) by (auto simp: held_def)
  with StartActivate assms(2,4) show ?thesis by (auto simp: bind_outcome_Done activate_locked [OF _ u])
next
  case (DeleteMap uuid)
  then show ?thesis using assms(2,4) by (auto simp: deleteUpdate_def locked_def split: option.splits)
next
  case (MonitorTurn r s)
  then obtain save where turn: "monitor_turn lib nlib (te_monitor env) s r ag = Done (Some save) ag'"
    using assms(2,3) by (auto simp: bind_outcome_Done short_lived_def split: option.splits)
  from monitor_turn_locked [OF this, of x] show ?thesis using assms(4) MonitorTurn by simp
next
  case (MonitorSave r)
  with monitor_write_locked [OF assms(2)] assms(4) show ?thesis by simp
next
  case (MonitorWrite r)
  with monitor_write_locked [OF assms(2)] assms(4) show ?thesis by simp
next
  case (StartStop r old)
  then show ?thesis using assms(2,4) Stop_locked by (fastforce simp: bind_outcome_Done)
next
  case (StartDelete r old)
  then show ?thesis using assms(2,4) Delete_locked by (fastforce simp: bind_outcome_Done)
next
  case (DeleteStop r)
  then show ?thesis using assms(2,4) Stop_locked by (fastforce simp: bind_outcome_Done)
next
  case (DeleteFiles r)
  then show ?thesis using assms(2,4) Delete_locked by (fastforce simp: bind_outcome_Done)
qed

lemma locks_held_step:
  assumes "threads_ok nlib (ag, add_mset t ts)" "locks_held (ag, add_mset t ts)"
    and "goroutine_run lib nlib js env t ag = Done new ag'" "short_lived t \<or> new \<noteq> []"
  shows "locks_held (ag', mset new + ts)"
  unfolding locks_held_def
proof (intro allI impI)
  fix x assume "locked (fst (ag', mset new + ts)) x"
  then have x: "locked ag' x" by simp
  have "goroutine_ok nlib ag t" using assms(1) by (simp add: threads_ok_def)
  from step_locked [OF this assms(3,4) x]
  show "\<exists>t2 \<in># snd (ag', mset new + ts). holds t2 = Some x"
    using assms(2) by (auto simp: locks_held_def)
qed

lemma schedule_locks:
  "schedule lib nlib js n c c' \<Longrightarrow> threads_ok nlib c \<Longrightarrow> locks_held c \<Longrightarrow> locks_held c'"
proof (induction rule: schedule.induct)
  case (work n c ag t ts env new ag')
  have "threads_ok nlib (ag, add_mset t ts)" by (rule schedule_ok [OF work.hyps(1) work.prems(1)])
  then show ?case using locks_held_step work by blast
next
  case (monitor n c ag t ts new env ag')
  have "threads_ok nlib (ag, add_mset t ts)" by (rule schedule_ok [OF monitor.hyps(1) monitor.prems(1)])
  then show ?case using locks_held_step monitor by blast
qed

lemma schedule_progress:
  assumes "threads_ok nlib c" "locks_held c" "schedule lib nlib js n c (ag, ts)" "t \<in># ts" "short_lived t"
  shows "\<exists>t' \<in># ts. short_lived t' \<and> runnable lib nlib js ag t'"
  using short_lived_progress [OF schedule_ok [OF assms(3,1)] schedule_locks [OF assms(3,1,2)] assms(4,5)] .

text \<open>Running them alone ends with none of them left.\<close>

lemma schedule_more:
  assumes "threads_ok nlib c \<and> locks_held c" "schedule lib nlib js n c s" "\<not> (\<forall>t \<in># snd s. \<not> short_lived t)"
  shows "\<exists>s' m. schedule lib nlib js m c s' \<and> total_todo (snd s') < total_todo (snd s)"
proof -
  obtain ag ts where s: "s = (ag, ts)" by (cases s)
  obtain t where t: "t \<in># ts" "short_lived t" "runnable lib nlib js ag t"
    using schedule_progress [of nlib c lib js n ag ts] assms by (auto simp: s)
  then obtain rest where ts: "ts = add_mset t rest" by (blast dest: multi_member_split)
  obtain env :: goroutine_env and new ag' where run: "goroutine_run lib nlib js env t ag = Done new ag'"
    using t(3) unfolding runnable_def by blast
  have "schedule lib nlib js (Suc n) c (ag', mset new + rest)"
    using schedule.work [OF _ t(2) run] assms(2) by (simp add: s ts)
  moreover have "total_todo (mset new + rest) < total_todo (snd s)"
    using todo_decreases [OF run t(2)] by (simp add: s ts)
  ultimately show ?thesis by (metis snd_conv)
qed

interpretation agent_schedules: draining "schedule lib nlib js" "\<lambda>c. threads_ok nlib c \<and> locks_held c"
    "\<lambda>c. total_todo (snd c)" "\<lambda>c. \<forall>t \<in># snd c. \<not> short_lived t"
  for lib nlib js
  by unfold_locales (rule schedule.start, rule schedule_more)

lemma schedule_completes:
  assumes "threads_ok nlib c" "locks_held c" "schedule lib nlib js n c (ag, ts)"
  shows "\<exists>m ag' ts'. schedule lib nlib js m c (ag', ts') \<and> (\<forall>t \<in># ts'. \<not> short_lived t)"
  using agent_schedules.drains [OF conjI [OF assms(1,2)] assms(3)] by auto

subsection \<open>What the map contains in the end\<close>

text \<open>The updates that goroutines are about to put into the map, of those that verify.\<close>

fun offered :: "goroutine \<Rightarrow> nat option" where
  "offered (StartLock r) = Some r"
| "offered (StartAdd r) = Some r"
| "offered t = None"

definition offering :: "('priv, 'pub) notif_lib \<Rightarrow> 'pub agent \<Rightarrow> goroutine multiset \<Rightarrow> notification set" where
  "offering nlib ag ts =
     {n. verifies nlib (ag_PublicKey ag) n \<and>
         (\<exists>t \<in># ts. \<exists>r u. offered t = Some r \<and> ag_heap ag r = Some u \<and> u_Notification u = n)}"

lemma offering_Union: "offering nlib ag ts = (\<Union>t \<in> set_mset ts. offering nlib ag {#t#})"
  by (auto simp: offering_def)

lemma offering_insert: "offering nlib ag (add_mset t ts) = offering nlib ag {#t#} \<union> offering nlib ag ts"
  by (auto simp: offering_def)

lemma offering_union [simp]:
  "offering nlib ag {#} = {}" "offering nlib ag (ts + ts') = offering nlib ag ts \<union> offering nlib ag ts'"
  by (auto simp: offering_def)

lemma offering_one:
  "offering nlib ag {#t#} = (case offered t of None \<Rightarrow> {} | Some r \<Rightarrow>
     (case ag_heap ag r of None \<Rightarrow> {} | Some u \<Rightarrow>
        if verifies nlib (ag_PublicKey ag) (u_Notification u) then {u_Notification u} else {}))"
  by (auto simp: offering_def split: option.split)

lemma offered_live: "goroutine_ok nlib ag t \<Longrightarrow> offered t = Some r \<Longrightarrow> live ag r"
  by (cases t) (auto simp: held_def live_def)

lemma offering_guarded:
  assumes "guarded own ag ag'" "\<forall>t \<in># ts. goroutine_ok nlib ag t"
  shows "offering nlib ag' ts = offering nlib ag ts"
proof -
  have key: "ag_PublicKey ag' = ag_PublicKey ag" using assms(1) by (simp add: guarded_def)
  have "offering nlib ag' {#t#} = offering nlib ag {#t#}" if t: "t \<in># ts" for t
  proof (cases "offered t")
    case (Some r)
    then obtain u where u: "ag_heap ag r = Some u"
      using offered_live [OF bspec [OF assms(2) t]] by (auto simp: live_def)
    obtain u' where "ag_heap ag' r = Some u'" "u_Notification u' = u_Notification u"
      using guarded_heap [OF assms(1) u] by blast
    with u Some key show ?thesis by (simp add: offering_one)
  qed (simp add: offering_one)
  then have "(\<Union>t \<in> set_mset ts. offering nlib ag' {#t#}) = (\<Union>t \<in> set_mset ts. offering nlib ag {#t#})"
    by (intro SUP_cong refl)
  then show ?thesis using offering_Union [of nlib ag ts] offering_Union [of nlib ag' ts] by argo
qed

definition taken_by :: "'pub agent \<Rightarrow> goroutine \<Rightarrow> notification list" where
  "taken_by ag t = (case t of StartAdd r \<Rightarrow> [u_Notification (the (ag_heap ag r))] | _ \<Rightarrow> [])"

lemma keeps_monitor_turn:
  assumes "monitor_turn lib nlib env s r ag = Done res ag'"
  shows "keeps_objects ag ag'"
  using assms by (cases rule: monitor_turn_Done) (simp add: keeps_objects_def)

lemma keeps_Save:
  "final_state (Update_Save js openf wrote r ag) = Some ag' \<Longrightarrow> keeps_objects ag ag'"
  using Save_final [of js openf wrote r ag ag'] by (simp add: keeps_objects_def)

lemma goroutine_run_keeps:
  assumes "agent_ok nlib ag" "goroutine_ok nlib ag t" "goroutine_run lib nlib js env t ag = Done new ag'"
    and "\<And>r. t \<noteq> StartAdd r" "\<And>uuid. t \<noteq> DeleteMap uuid"
  shows "keeps_objects ag ag'"
proof (cases t)
  case (StartLock r)
  then show ?thesis using assms(3) keeps_set_locked by (auto simp: locking_Done split: option.splits)
next
  case (StartStop r old)
  then show ?thesis using assms(3) keeps_Stop [of old ag ag'] by (auto simp: bind_outcome_Done)
next
  case (StartDelete r old)
  then show ?thesis using assms(3) keeps_Delete [of "te_start env" old ag ag'] by (auto simp: bind_outcome_Done)
next
  case (StartActivate r)
  then obtain u err where u: "ag_heap ag r = Some u" "verifies nlib (ag_PublicKey ag) (u_Notification u)"
      "activate nlib (te_start env) r u ag = Done err ag'"
    using assms(2,3) by (auto simp: held_def bind_outcome_Done)
  then show ?thesis using activate_final [OF assms(1) u(1) refl u(2), of "te_start env" ag'] by simp
next
  case (DeleteStop r)
  then show ?thesis using assms(3) keeps_Stop [of r ag ag'] by (auto simp: bind_outcome_Done)
next
  case (DeleteFiles r)
  then show ?thesis using assms(3) keeps_Delete [of "te_start env" r ag ag'] by (auto simp: bind_outcome_Done)
next
  case (MonitorTurn r s)
  then show ?thesis using assms(3) keeps_monitor_turn by (auto simp: bind_outcome_Done)
next
  case (MonitorSave r)
  have "final_state (Update_Save js (me_open (te_monitor env)) (me_wrote (te_monitor env)) r ag) = Some ag'"
    using assms(3) MonitorSave by (auto split: outcome.splits)
  then show ?thesis by (rule keeps_Save)
next
  case (MonitorWrite r)
  have "ag' = ag \<or> final_state (Update_Save js None (me_wrote (te_monitor env)) r ag) = Some ag'"
    using assms(3) MonitorWrite by (auto simp: locking_Done split: outcome.splits if_splits)
  then show ?thesis using keeps_Save by fastforce
qed (use assms(4,5) in simp_all)

lemma step_content:
  assumes "agent_ok nlib ag" "goroutine_ok nlib ag t" "goroutine_run lib nlib js env t ag = Done new ag'"
    and "\<And>uuid. t \<noteq> DeleteMap uuid"
  shows "agent_content ag' = agent_store.newest (agent_content ag) (taken_by ag t)"
proof (cases "\<exists>r. t = StartAdd r")
  case True
  then obtain r u where t: "t = StartAdd r" "ag_heap ag r = Some u" using assms(2) by (auto simp: held_def)
  let ?n = "u_Notification u" and ?v = "verdict_of n_UUID n_Version (u_Notification u) (agent_content ag)"
  have "heap_wf ag" using assms(1) by (simp add: agent_ok_def)
  note add = addUpdate_verdict [OF this t(2)]
  have "agent_content ag' = keep_newest n_UUID n_Version ?n (agent_content ag)"
  proof (cases "?v = Accepted")
    case True
    then have "ag' = ag\<lparr>ag_updates := (ag_updates ag)(n_UUID ?n \<mapsto> r)\<rparr>"
      using assms(3) t(1) by (auto simp: add split: option.splits)
    then show ?thesis using True content_update [OF t(2)] by (simp add: keep_newest_def)
  next
    case False
    then have "ag' = set_locked False r ag" using assms(3) t(1) by (cases ?v) (simp_all add: add)
    then show ?thesis using False keeps_content [OF keeps_set_locked] by (simp add: keep_newest_def)
  qed
  then show ?thesis by (simp add: taken_by_def t)
next
  case False
  then have "keeps_objects ag ag'" using goroutine_run_keeps [OF assms(1-3)] assms(4) by blast
  then show ?thesis using False keeps_content by (auto simp: taken_by_def split: goroutine.split)
qed

lemma offered_short_lived: "\<not> short_lived t \<Longrightarrow> offered t = None"
  by (cases t) (simp_all add: short_lived_def)

lemma offering_monitor:
  assumes "goroutine_run lib nlib js env t ag = Done new ag'" "\<not> short_lived t"
  shows "offering nlib ag' (mset new) = {}"
proof -
  have "\<forall>t' \<in> set new. offered t' = None" using monitor_next [OF assms] offered_short_lived by blast
  then show ?thesis by (auto simp: offering_def)
qed

lemma step_offering:
  assumes "agent_ok nlib ag" "goroutine_ok nlib ag t" "goroutine_run lib nlib js env t ag = Done new ag'"
  shows "set (taken_by ag t) \<union> offering nlib ag' (mset new) = offering nlib ag {#t#}"
proof (cases t)
  case (StartLock r)
  then obtain u where u: "ag_heap ag r = Some u" "\<not> u_locked u" using assms(3) by (auto simp: locking_Done)
  show ?thesis
    using assms(3) StartLock u Update_Verify_None [of nlib "ag_PublicKey ag" u]
    by (auto simp: locking_def taken_by_def offering_one set_locked_Some split: option.splits)
next
  case (StartAdd r)
  then have "offering nlib ag' (mset new) = {}"
    using assms(3) by (auto simp: offering_one split: prod.splits sum.splits option.splits)
  with StartAdd assms(2) show ?thesis by (auto simp: taken_by_def offering_one held_def)
next
  case (StartActivate r)
  then show ?thesis
    using assms(3) by (auto simp: taken_by_def offering_one bind_outcome_Done split: option.splits if_splits)
next
  case (DeleteMap uuid)
  then show ?thesis
    using assms(3) by (auto simp: taken_by_def offering_one split: option.splits prod.splits)
qed (use assms(3) offering_monitor [OF assms(3)] in \<open>auto simp: taken_by_def offering_one bind_outcome_Done short_lived_def\<close>)

definition no_removals :: "goroutine multiset \<Rightarrow> bool" where
  "no_removals ts \<longleftrightarrow> (\<forall>uuid. DeleteMap uuid \<notin># ts)"

lemma no_removals_step:
  assumes "goroutine_run lib nlib js env t ag = Done new ag'" "no_removals (add_mset t ts)"
  shows "no_removals (mset new + ts)"
proof -
  have "DeleteMap uuid \<notin> set new" for uuid
  proof (cases "short_lived t")
    case True
    then show ?thesis
      using assms(1) by (cases t) (auto simp: short_lived_def bind_outcome_Done locking_Done
          split: option.splits prod.splits sum.splits if_splits)
  next
    case False
    then show ?thesis using monitor_next [OF assms(1), of "DeleteMap uuid"] by (auto simp: short_lived_def)
  qed
  with assms(2) show ?thesis by (auto simp: no_removals_def)
qed

definition taking :: "('priv, 'pub) notif_lib \<Rightarrow> 'pub threads \<Rightarrow> 'pub threads \<Rightarrow> notification list \<Rightarrow> bool" where
  "taking nlib c c' us \<longleftrightarrow>
     no_removals (snd c') \<and>
     agent_content (fst c') = agent_store.newest (agent_content (fst c)) us \<and>
     set us \<union> offering nlib (fst c') (snd c') = offering nlib (fst c) (snd c)"

lemma taking_step:
  assumes "threads_ok nlib (ag, add_mset t ts)" "taking nlib c (ag, add_mset t ts) us"
    and "goroutine_run lib nlib js env t ag = Done new ag'"
  shows "taking nlib c (ag', mset new + ts) (us @ taken_by ag t)"
proof -
  have ok: "agent_ok nlib ag" "goroutine_ok nlib ag t" "\<forall>t2 \<in># ts. goroutine_ok nlib ag t2"
    using assms(1) by (simp_all add: threads_ok_def)
  have "t \<noteq> DeleteMap uuid" for uuid using assms(2) by (auto simp: taking_def no_removals_def)
  then have content: "agent_content ag' = agent_store.newest (agent_content ag) (taken_by ag t)"
    using step_content [OF ok(1,2) assms(3)] by blast
  have "guarded (holds t) ag ag'"
    using goroutine_run_ok [OF ok(1,2) assms(3)] by (simp add: step_ok_def)
  note rest = offering_guarded [OF this ok(3)]
  show ?thesis
    using assms(2) content rest step_offering [OF ok(1,2) assms(3)] no_removals_step [OF assms(3)]
    by (auto simp: taking_def agent_store.newest_def offering_insert [of nlib ag t ts])
qed

lemma schedule_taking:
  "schedule lib nlib js n c c' \<Longrightarrow> threads_ok nlib c \<Longrightarrow> no_removals (snd c) \<Longrightarrow> \<exists>us. taking nlib c c' us"
proof (induction rule: schedule.induct)
  case (start c)
  then show ?case by (intro exI [of _ "[]"]) (simp add: taking_def)
next
  case (work n c ag t ts env new ag')
  then show ?case using taking_step schedule_ok by blast
next
  case (monitor n c ag t ts new env ag')
  then show ?case using taking_step schedule_ok by blast
qed

lemma schedule_content:
  assumes "threads_ok nlib c" "schedule lib nlib js n c (ag, ts)" "no_removals (snd c)"
    and "agent_content (fst c) = Map.empty" "\<forall>t \<in># ts. offered t = None"
    and "versions_identify n_UUID n_Version (offering nlib (fst c) (snd c))"
  shows "agent_content ag uuid = Some m \<longleftrightarrow>
    m \<in> offering nlib (fst c) (snd c) \<and> n_UUID m = uuid \<and>
    (\<forall>m' \<in> offering nlib (fst c) (snd c). n_UUID m' = uuid \<longrightarrow> n_Version m' \<le> n_Version m)"
proof -
  obtain us where us: "taking nlib c (ag, ts) us" using schedule_taking [OF assms(2,1,3)] by blast
  have "offering nlib ag ts = {}" using assms(5) by (auto simp: offering_def)
  with us have "set us = offering nlib (fst c) (snd c)" "agent_content ag = agent_store.newest Map.empty us"
    using assms(4) by (simp_all add: taking_def)
  with agent_store.newest_iff [of us uuid m] assms(6) show ?thesis by simp
qed

end
