(* ===== verification/Agent_Atomic.thy ===== *)
theory Agent_Atomic
  imports Agent_Schedule Agent_Store
begin

section \<open>Whole methods among the interleavings\<close>

text \<open>
  A method that returns without being interrupted is one of the runs of its goroutine, with any others
  standing by: the steps of \<open>Agent_Run\<close> are steps of \<open>Agent_Threads\<close> taken together.  Then a run that is
  not: the metadata file that comes back after its update was deleted.
\<close>

subsection \<open>Start\<close>

lemma tstep_run:
  "goroutine_run lib nlib js env t ag = Done new ag' \<Longrightarrow> mset new + ts = ts' \<Longrightarrow>
   tstep lib nlib js (ag, add_mset t ts) (ag', ts')"
  using tstep.run by blast

text \<open>What \<open>retire\<close> does, step by step.\<close>

lemma retire_run:
  assumes "retire env old ag = Done () ag'"
  shows "(tstep lib nlib js)\<^sup>*\<^sup>* (ag, add_mset (case old of None \<Rightarrow> StartActivate r | Some x \<Rightarrow> StartStop r x) ts)
    (ag', add_mset (StartActivate r) ts)"
proof (cases old)
  case None
  then show ?thesis using assms by (simp add: retire_def)
next
  case (Some x)
  then obtain ag1 err where run: "Update_Stop x ag = Done () ag1" "Update_Delete env x ag1 = Done err ag'"
    using assms by (auto simp: retire_def bind_outcome_Done)
  have "tstep lib nlib js (ag, add_mset (StartStop r x) ts) (ag1, add_mset (StartDelete r x) ts)"
    by (rule tstep_run [where env = "\<lparr>te_start = env, te_monitor = undefined, te_linked = True\<rparr>"]) (simp_all add: run)
  moreover have "tstep lib nlib js (ag1, add_mset (StartDelete r x) ts) (ag', add_mset (StartActivate r) ts)"
    by (rule tstep_run [where env = "\<lparr>te_start = env, te_monitor = undefined, te_linked = True\<rparr>"]) (simp_all add: run)
  ultimately show ?thesis by (simp add: Some)
qed

text \<open>\<open>Stop\<close> and \<open>Delete\<close> of another object leave an object as it is.\<close>

lemma retire_leaves:
  assumes "retire env old ag = Done () ag'" "ag_heap ag r = Some u" "u_locked u"
  shows "ag_heap ag' r = Some u"
proof (cases old)
  case None
  then show ?thesis using assms by (simp add: retire_def)
next
  case (Some x)
  then obtain ag1 err where run: "Update_Stop x ag = Done () ag1" "Update_Delete env x ag1 = Done err ag'"
    using assms(1) by (auto simp: retire_def bind_outcome_Done)
  have "guarded None ag ag1" by (rule guarded_Stop [OF run(1)])
  with assms(2,3) have "ag_heap ag1 r = Some u" by (auto simp: guarded_def)
  then show ?thesis by (simp add: Delete_Done_sel(1) [OF run(2)])
qed

lemma activate_relock: "activate nlib env r (u\<lparr>u_locked := b\<rparr>) ag = activate nlib env r u ag"
  by (cases u) (simp add: activate_def split: sum.split)

text \<open>The part of \<open>Start\<close> after the map has taken the update.\<close>

lemma accepted_run:
  assumes add: "addUpdate r ag = (Inr old, ag1)" "ag_heap ag r = Some u" "u_locked u"
    and ret: "retire env old ag1 = Done () ag2" and act: "activate nlib env r u ag2 = Done err ag'"
  shows "(tstep lib nlib js)\<^sup>*\<^sup>* (ag, add_mset (StartAdd r) ts)
    (ag', (if err = None then {#MonitorTurn r True#} else {#}) + ts)"
proof -
  let ?env = "\<lparr>te_start = env, te_monitor = undefined, te_linked = True\<rparr>"
  have "tstep lib nlib js (ag, add_mset (StartAdd r) ts)
      (ag1, add_mset (case old of None \<Rightarrow> StartActivate r | Some x \<Rightarrow> StartStop r x) ts)"
    by (rule tstep_run [where env = ?env]) (simp_all add: add split: option.split)
  moreover have "ag_heap ag2 r = Some u"
    using retire_leaves [OF ret _ add(3)] add(2) by (simp add: addUpdate_heap [OF add(1)])
  then have "tstep lib nlib js (ag2, add_mset (StartActivate r) ts)
      (ag', (if err = None then {#MonitorTurn r True#} else {#}) + ts)"
    by (intro tstep_run [where env = ?env]) (auto simp: act)
  ultimately show ?thesis
    using retire_run [OF ret, of lib nlib js r ts] by (meson converse_rtranclp_into_rtranclp rtranclp.rtrancl_into_rtrancl)
qed

lemma Start_is_run:
  assumes "Update_Start nlib env r ag = Done err ag'"
  shows "(tstep lib nlib js)\<^sup>*\<^sup>* (ag, add_mset (StartLock r) ts)
    (ag', (if err = None then {#MonitorTurn r True#} else {#}) + ts)"
proof -
  let ?env = "\<lparr>te_start = env, te_monitor = undefined, te_linked = True\<rparr>"
  obtain u where u: "ag_heap ag r = Some u" "\<not> u_locked u"
    using assms by (auto simp: Update_Start_def locking_Done)
  let ?u0 = "u\<lparr>u_locked := True\<rparr>"
  let ?ag0 = "set_update r ?u0 ag"
  show ?thesis
  proof (cases "Update_Verify nlib (ag_PublicKey ag) u")
    case (Some e)
    then have "set_locked False r ?ag0 = ag'" "err = Some e"
      using assms u by (simp_all add: Update_Start_def locking_def set_locked_Some)
    moreover have "set_locked False r ?ag0 = ag"
      using u by (simp add: set_locked_Some set_update_def fun_upd_idem)
    ultimately have "ag' = ag" "err = Some e" by simp_all
    then show ?thesis
      using tstep_run [of lib nlib js ?env "StartLock r" ag "[]" ag ts ts] u Some
      by (simp add: locking_def r_into_rtranclp)
  next
    case ver: None
    have lock: "tstep lib nlib js (ag, add_mset (StartLock r) ts) (?ag0, add_mset (StartAdd r) ts)"
      by (rule tstep_run [where env = ?env]) (simp_all add: locking_def u ver set_locked_Some)
    obtain res ag1 where add: "addUpdate r ?ag0 = (res, ag1)" by (cases "addUpdate r ?ag0")
    show ?thesis
    proof (cases res)
      case (Inl e)
      then have "tstep lib nlib js (?ag0, add_mset (StartAdd r) ts) (set_locked False r ag1, ts)"
        by (intro tstep_run [where env = ?env]) (simp_all add: add)
      moreover have "ag' = set_locked False r ag1" "err = Some e"
        using assms u ver Inl by (simp_all add: Update_Start_def locking_def set_locked_Some add)
      ultimately show ?thesis using lock by simp
    next
      case (Inr old)
      then obtain ag2 where ret: "retire env old ag1 = Done () ag2" and act: "activate nlib env r u ag2 = Done err ag'"
        using assms u ver by (auto simp: Update_Start_def locking_def set_locked_Some add bind_outcome_Done)
      have "activate nlib env r ?u0 ag2 = Done err ag'" using act by (simp add: activate_relock)
      from accepted_run [OF add [unfolded Inr] _ _ ret this, of lib js ts]
      have "(tstep lib nlib js)\<^sup>*\<^sup>* (?ag0, add_mset (StartAdd r) ts)
          (ag', (if err = None then {#MonitorTurn r True#} else {#}) + ts)" by simp
      with lock show ?thesis by (rule converse_rtranclp_into_rtranclp)
    qed
  qed
qed

subsection \<open>Delete and monitor\<close>

lemma Delete_is_run:
  assumes "requestDeleteUpdate env uuid ag = Done rep ag'"
  shows "(tstep lib nlib js)\<^sup>*\<^sup>* (ag, add_mset (DeleteMap uuid) ts) (ag', ts)"
proof -
  let ?env = "\<lparr>te_start = pe_start env, te_monitor = undefined, te_linked = True\<rparr>"
  obtain old ag1 where del: "deleteUpdate uuid ag = (old, ag1)" by (cases "deleteUpdate uuid ag")
  show ?thesis
  proof (cases old)
    case None
    then have "ag' = ag1" using assms by (simp add: requestDeleteUpdate_def del)
    then show ?thesis
      using tstep_run [of lib nlib js ?env "DeleteMap uuid" ag "[]" ag1 ts ts] None by (simp add: del r_into_rtranclp)
  next
    case (Some r)
    then obtain ag2 err where run: "Update_Stop r ag1 = Done () ag2" "Update_Delete (pe_start env) r ag2 = Done err ag'"
      using assms by (auto simp: requestDeleteUpdate_def del bind_outcome_Done)
    have "tstep lib nlib js (ag, add_mset (DeleteMap uuid) ts) (ag1, add_mset (DeleteStop r) ts)"
      by (rule tstep_run [where env = ?env]) (simp_all add: del Some)
    moreover have "tstep lib nlib js (ag1, add_mset (DeleteStop r) ts) (ag2, add_mset (DeleteFiles r) ts)"
      by (rule tstep_run [where env = ?env]) (simp_all add: run)
    moreover have "tstep lib nlib js (ag2, add_mset (DeleteFiles r) ts) (ag', ts)"
      by (rule tstep_run [where env = ?env]) (simp_all add: run)
    ultimately show ?thesis by simp
  qed
qed

lemma monitor_is_run:
  assumes "monitor_step lib nlib js env toSave r ag = Done again ag'"
  shows "(tstep lib nlib js)\<^sup>*\<^sup>* (ag, add_mset (MonitorTurn r toSave) ts)
    (ag', (if again then {#MonitorTurn r False#} else {#}) + ts)"
proof -
  let ?env = "\<lparr>te_start = undefined, te_monitor = env, te_linked = True\<rparr>"
  obtain res ag1 where turn: "monitor_turn lib nlib env toSave r ag = Done res ag1"
    using assms by (auto simp: monitor_step_def bind_outcome_Done)
  let ?next = "case res of None \<Rightarrow> {#} | Some save \<Rightarrow> {#if save then MonitorSave r else MonitorTurn r False#}"
  have first: "tstep lib nlib js (ag, add_mset (MonitorTurn r toSave) ts) (ag1, ?next + ts)"
    by (rule tstep_run [where env = ?env]) (auto simp: turn split: option.split)
  show ?thesis
  proof (cases "res = Some True")
    case True
    then obtain err where save: "Update_Save js (me_open env) (me_wrote env) r ag1 = Done err ag'" and again
      using assms by (auto simp: monitor_step_def turn bind_outcome_Done)
    have "tstep lib nlib js (ag1, add_mset (MonitorSave r) ts) (ag', add_mset (MonitorTurn r False) ts)"
      by (rule tstep_run [where env = ?env]) (simp_all add: save)
    with first True \<open>again\<close> show ?thesis by simp
  next
    case False
    then have "ag' = ag1" "again \<longleftrightarrow> res \<noteq> None"
      using assms by (auto simp: monitor_step_def turn split: option.splits if_splits)
    with first False show ?thesis by (auto split: option.splits)
  qed
qed

subsection \<open>A lock that stays taken\<close>

text \<open>
  A lock that no goroutine holds and that belongs to an update nobody starts is never freed, whatever
  happens, and a goroutine that needs it waits for ever.
\<close>

definition stuck :: "nat \<Rightarrow> goroutine \<Rightarrow> 'pub threads \<Rightarrow> bool" where
  "stuck r t c \<longleftrightarrow> locked (fst c) r \<and> starters r (snd c) = 0 \<and> awaits t = Some r \<and> t \<in># snd c"

lemma awaits_blocked:
  "awaits t = Some r \<Longrightarrow> locked ag r \<Longrightarrow> goroutine_run lib nlib js env t ag \<noteq> Done new ag'"
  by (cases t) (auto simp: locking_Done locked_def bind_outcome_Done Update_Stop_def Update_Delete_def monitor_turn_def)

lemma guarded_locked: "guarded own ag ag' \<Longrightarrow> own \<noteq> Some r \<Longrightarrow> locked ag r \<Longrightarrow> locked ag' r"
  by (fastforce simp: guarded_def locked_def)

lemma stuck_tstep:
  assumes "threads_ok nlib c" "stuck r t c" "tstep lib nlib js c c'"
  shows "stuck r t c'"
  using assms(3)
proof (cases rule: tstep.cases)
  case (run env t2 ag new ag' ts)
  have c: "locked ag r" "starters r (add_mset t2 ts) = 0" "awaits t = Some r" "t \<in># add_mset t2 ts"
    using assms(2) by (simp_all add: stuck_def run(1))
  have "t2 \<noteq> t" using awaits_blocked [OF c(3,1)] run(3) by blast
  have "agent_ok nlib ag" "goroutine_ok nlib ag t2" using assms(1) by (simp_all add: threads_ok_def run(1))
  then have step: "guarded (holds t2) ag ag'" "starters r (mset new) \<le> (if starts t2 = Some r then 1 else 0)"
    using goroutine_run_ok [OF _ _ run(3)] by (simp_all add: step_ok_def)
  have "starts t2 \<noteq> Some r" using c(2) by (auto split: if_splits)
  then have "holds t2 \<noteq> Some r" using holds_starts by blast
  with step c \<open>t2 \<noteq> t\<close> \<open>starts t2 \<noteq> Some r\<close> show ?thesis
    by (auto simp: stuck_def run(2) intro: guarded_locked)
qed

lemma stuck_cstep:
  assumes "threads_ok nlib c" "stuck r t c" "cstep lib nlib js c c'"
  shows "stuck r t c'"
  using assms(3)
proof (cases rule: cstep.cases)
  case goroutine
  then show ?thesis using stuck_tstep assms(1,2) by blast
next
  case (offer u ag r2 ag' ts)
  note new = new_object_sel [OF offer(5)]
  have "locked ag r" using assms(2) by (simp add: stuck_def offer(1))
  moreover have "r2 \<noteq> r"
    using assms(1) new(1) calculation unfolding threads_ok_def agent_ok_def heap_wf_def locked_def offer(1) fst_conv
    by (metis less_irrefl)
  ultimately show ?thesis using assms(2) new(2) by (simp add: stuck_def offer(1,2) locked_def)
next
  case (request ag ts uuid)
  then show ?thesis using assms(2) by (simp add: stuck_def)
next
  case (overlay ag ts ov)
  then show ?thesis using assms(2) by (simp add: stuck_def locked_def)
qed

lemma stuck_forever:
  "(cstep lib nlib js)\<^sup>*\<^sup>* c c' \<Longrightarrow> threads_ok nlib c \<Longrightarrow> stuck r t c \<Longrightarrow> t \<in># snd c' \<and> locked (fst c') r"
proof -
  assume "(cstep lib nlib js)\<^sup>*\<^sup>* c c'" "threads_ok nlib c" "stuck r t c"
  then have "threads_ok nlib c' \<and> stuck r t c'"
    by (induction rule: rtranclp_induct) (auto intro: cstep_ok stuck_cstep)
  then show ?thesis by (simp add: stuck_def)
qed

text \<open>A monitor whose turn comes between \<open>Stop\<close> and \<open>Delete\<close> leaves such a lock behind.\<close>

lemma monitor_blocks_delete:
  assumes "threads_ok nlib (ag, add_mset (DeleteStop r) (add_mset (MonitorTurn r toSave) ts))" "starters r ts = 0"
    and "\<not> locked ag r"
  shows "\<exists>ag'. (tstep lib nlib js)\<^sup>*\<^sup>* (ag, add_mset (DeleteStop r) (add_mset (MonitorTurn r toSave) ts)) (ag', add_mset (DeleteFiles r) ts) \<and>
    stuck r (DeleteFiles r) (ag', add_mset (DeleteFiles r) ts)"
proof -
  let ?env = "\<lparr>te_start = undefined, te_monitor = undefined, te_linked = True\<rparr>"
  have "live ag r" using assms(1) by (simp add: threads_ok_def)
  then obtain u where u: "ag_heap ag r = Some u" "\<not> u_locked u" using assms(3) by (auto simp: live_def locked_def)
  obtain ag1 where stop: "Update_Stop r ag = Done () ag1" using Stop_runs [OF \<open>live ag r\<close> assms(3)] by blast
  have heap1: "ag_heap ag1 r = Some (u\<lparr>u_Stopped := True, u_torrent := None\<rparr>)"
    using stop Stop_Done [OF u] by (auto split: option.splits)
  let ?ag2 = "set_locked True r ag1"
  have turn: "monitor_turn lib nlib (te_monitor ?env) toSave r ag1 = Done None ?ag2"
    using heap1 u(2) by (simp add: monitor_turn_def locking_def)
  have "tstep lib nlib js (ag, add_mset (DeleteStop r) (add_mset (MonitorTurn r toSave) ts))
      (ag1, add_mset (MonitorTurn r toSave) (add_mset (DeleteFiles r) ts))"
    by (rule tstep_run [where env = ?env]) (simp_all add: stop add_mset_commute)
  moreover have "tstep lib nlib js (ag1, add_mset (MonitorTurn r toSave) (add_mset (DeleteFiles r) ts))
      (?ag2, add_mset (DeleteFiles r) ts)"
    by (rule tstep_run [where env = ?env]) (use turn in simp_all)
  moreover have "stuck r (DeleteFiles r) (?ag2, add_mset (DeleteFiles r) ts)"
    using assms(2) heap1 by (simp add: stuck_def set_locked_Some locked_def)
  ultimately show ?thesis by (meson converse_rtranclp_into_rtranclp r_into_rtranclp)
qed

subsection \<open>The file of a deleted update\<close>

text \<open>
  A monitor frees the lock before it saves: when the update is stopped and deleted in between, \<open>Save\<close>
  writes the metadata file again.
\<close>

lemma save_after_delete:
  fixes ag :: "'pub agent"
  assumes "ag_updates ag uuid = Some r" "ag_heap ag r = Some u" "\<not> u_locked u" "ue_rm_meta env = None"
    and "uj_encode js (u\<lparr>u_Stopped := True, u_torrent := None\<rparr>) = Inr data"
  shows "\<exists>deleted ag'. requestDeleteUpdate (penv\<lparr>pe_start := env\<rparr>) uuid ag = Done (200, NoBody) deleted \<and>
    ag_disk deleted (MetadataFilename (u_Notification u) ag) = None \<and>
    (tstep lib nlib js)\<^sup>*\<^sup>* (ag, {#DeleteMap uuid, MonitorSave r#}) (deleted, {#MonitorSave r#}) \<and>
    tstep lib nlib js (deleted, {#MonitorSave r#}) (ag', {#MonitorTurn r False#}) \<and>
    ag_updates ag' uuid = None \<and> ag_disk ag' (MetadataFilename (u_Notification u) ag) = Some data"
proof -
  let ?u = "u\<lparr>u_Stopped := True, u_torrent := None\<rparr>"
  let ?file = "MetadataFilename (u_Notification u) ag"
  let ?ag1 = "ag\<lparr>ag_updates := (ag_updates ag)(uuid := None)\<rparr>"
  define acts where "acts = (case u_torrent u of None \<Rightarrow> [] | Some h \<Rightarrow> [DropTorrent h])"
  have "ag_heap ?ag1 r = Some u" using assms(2) by simp
  from Stop_Done [OF this assms(3)]
  have stop: "Update_Stop r ?ag1 = Done () (emit acts (set_update r ?u ?ag1))"
    by (simp add: acts_def split: option.split)
  let ?ag2 = "emit acts (set_update r ?u ?ag1)"
  have same_name: "MetadataFilename n a = MetadataFilename n ag" if "ag_metadataDir a = ag_metadataDir ag" for n and a :: "'pub agent"
    using that by (simp add: MetadataFilename_def)
  obtain deleted where del: "Update_Delete env r ?ag2 = Done None deleted"
      "ag_disk deleted = (ag_disk ag)(?file := None)" "ag_updates deleted = ag_updates ?ag1"
      "ag_heap deleted r = Some ?u" "ag_metadataDir deleted = ag_metadataDir ag"
    using assms(3,4) same_name [of ?ag2] by (auto simp: Update_Delete_def locking_def Let_def)
  have req: "requestDeleteUpdate (penv\<lparr>pe_start := env\<rparr>) uuid ag = Done (200, NoBody) deleted"
    by (simp add: requestDeleteUpdate_def deleteUpdate_def assms(1) stop del(1))
  let ?ag' = "deleted\<lparr>ag_disk := (ag_disk deleted)(?file \<mapsto> data)\<rparr>"
  have "Update_Save js None None r deleted = Done None ?ag'"
    using assms(3,5) same_name [OF del(5)] by (simp add: Update_Save_def del(4) Let_def)
  then have "tstep lib nlib js (deleted, {#MonitorSave r#}) (?ag', {#MonitorTurn r False#})"
    by (intro tstep_run [where env = "\<lparr>te_start = env, te_monitor = undefined\<lparr>me_open := None, me_wrote := None\<rparr>, te_linked = True\<rparr>"])
      simp_all
  moreover have "ag_disk deleted ?file = None" "ag_updates ?ag' uuid = None" "ag_disk ?ag' ?file = Some data"
    by (simp_all add: del)
  ultimately show ?thesis
    using req Delete_is_run [OF req, of lib nlib js "{#MonitorSave r#}"] by - (rule exI [of _ deleted], rule exI [of _ ?ag'], simp)
qed

text \<open>A restart finds the file and starts the update.\<close>

lemma restart_loads:
  assumes "agent_ok nlib ag" "no_locks ag" "ag_disk ag (path_Join (ag_metadataDir ag) f) = Some data"
    and "LoadUpdateFromFile js (Inr data) = Inr u" "u_torrent u = None" "\<not> u_locked u"
    and "verifies nlib (ag_PublicKey ag) (u_Notification u)" "ag_updates ag (n_UUID (u_Notification u)) = None"
  shows "\<exists>ag'. load_files nlib js envs [f] ag = Done () ag' \<and>
    agent_content ag' (n_UUID (u_Notification u)) = Some (u_Notification u)"
proof -
  let ?n = "u_Notification u"
  obtain r ag1 where new: "new_object u ag = (r, ag1)" by (cases "new_object u ag")
  note sel = new_object_sel [OF new]
  have wf: "heap_wf ag" using assms(1) by (simp add: agent_ok_def)
  have ok1: "agent_ok nlib ag1" using agent_ok_new_object [OF assms(1,5)] new by simp
  have locks: "no_locks ag1" using assms(2,6) sel(2) by (auto simp: no_locks_def)
  have heap: "ag_heap ag1 r = Some u" by (simp add: sel(2))
  obtain err ag' where start: "Update_Start nlib (envs (n_UUID ?n)) r ag1 = Done err ag'"
    using Start_returns [OF heap_wf_new_object [OF wf new] locks heap new_object_fresh [OF wf new]] by blast
  have "agent_content ag' = keep_newest n_UUID n_Version ?n (agent_content ag1)"
    using Start_final [OF ok1 heap assms(6), of "envs (n_UUID ?n)" ag'] start assms(7) sel(5) by simp
  moreover have "agent_content ag1 (n_UUID ?n) = None"
    using assms(8) content_new_object [OF wf new] by (simp add: agent_content_def)
  ultimately have "agent_content ag' (n_UUID ?n) = Some ?n"
    by (simp add: keep_newest_def verdict_of_def)
  with assms(3,4,7) show ?thesis
    by (simp add: new start Update_Verify_None)
qed

end
