(* ===== verification/Props_Threads.thy ===== *)
theory Props_Threads
  imports Agent_Atomic Examples_Node
begin

section \<open>Properties of the agent's goroutines\<close>

text \<open>
  The claims about the goroutines of \<open>agent.go\<close>, \<open>update.go\<close> and \<open>api.go\<close> when they are interleaved, each
  with a concrete instance.  The instances start from the agent \<open>ex_busy\<close> that runs version 1 of an
  update and has two more objects to start.
\<close>

subsection \<open>The agent of the instances\<close>

definition ex_new :: "64 word \<Rightarrow> update" where
  "ex_new v = blank_update\<lparr>u_Notification := ex_notif v, u_Stopped := True\<rparr>"

lemma ex_new_sel [simp]:
  "u_Notification (ex_new v) = ex_notif v" "u_torrent (ex_new v) = None" "\<not> u_locked (ex_new v)" "u_Stopped (ex_new v)"
  by (simp_all add: ex_new_def blank_update_def)

lemma ex_new_verified [simp]: "Update_Verify ref_notif ex_key (ex_new v) = None"
  by (simp add: Update_Verify_None)

definition ex_racing :: "bytes agent" where
  "ex_racing = ex_agent\<lparr>ag_heap := [0 \<mapsto> ex_new 3, 2 \<mapsto> ex_new 2], ag_next := 3\<rparr>"

lemma ex_racing_sel [simp]:
  "ag_updates ex_racing = Map.empty" "ag_heap ex_racing = [0 \<mapsto> ex_new 3, 2 \<mapsto> ex_new 2]"
  "ag_PublicKey ex_racing = ex_key" "ag_next ex_racing = 3"
  by (simp_all add: ex_racing_def)

lemma ex_racing_ok: "agent_ok ref_notif ex_racing" "no_locks ex_racing"
  by (auto simp: agent_ok_def heap_wf_def all_verified_def no_locks_def split: if_splits)

lemma ex_racing_threads: "threads_ok ref_notif (ex_racing, {#StartLock 0, StartLock 2#})"
  using ex_racing_ok by (auto simp: threads_ok_def live_def)

definition ex_goroutine_env :: goroutine_env where
  "ex_goroutine_env = \<lparr>te_start = ex_update_env,
     te_monitor = \<lparr>me_now = 0, me_missing = 0, me_files = [],
       me_deploy = \<lparr>de_stat = (\<lambda>_. Inr False), de_sh = (\<lambda>_. None), de_zip = (\<lambda>_. Inr []), de_temp = ''/tmp''\<rparr>,
       me_write = (\<lambda>_. None), me_order = [], me_open = None, me_wrote = None\<rparr>,
     te_linked = True\<rparr>"

definition ex_threads_api :: api_env where
  "ex_threads_api = \<lparr>pe_stat = (\<lambda>_. None), pe_copy = None, pe_start = ex_update_env, pe_write = (\<lambda>_. None),
     pe_order = [], pe_uuids = [], pe_nodes = []\<rparr>"

definition ex_stopped :: update where
  "ex_stopped = ex_update\<lparr>u_Stopped := True, u_torrent := None\<rparr>"

lemma no_locks_held: "no_locks ag \<Longrightarrow> locks_held (ag, ts)"
  by (auto simp: no_locks_def locks_held_def locked_def)

subsection \<open>The properties\<close>



text \<open>C10. Goroutines that start or delete updates never deadlock, as long as no monitor has ended: in whatever order
  they and the monitors run, while one of them is left one of them can run, whatever the environment
  answers; they take no more steps than \<open>todo\<close> counts, and they can all be run to their end.\<close>

theorem starts_never_deadlock:
  assumes "threads_ok nlib c" "locks_held c" "schedule lib nlib js n c (ag, ts)"
  shows "n + total_todo ts \<le> total_todo (snd c) \<and>
    ((\<exists>t \<in># ts. short_lived t) \<longrightarrow> (\<exists>t \<in># ts. short_lived t \<and> runnable lib nlib js ag t)) \<and>
    (\<exists>m ag' ts'. schedule lib nlib js m c (ag', ts') \<and> (\<forall>t \<in># ts'. \<not> short_lived t))"
  using schedule_bound [OF assms(3)] schedule_progress [OF assms] schedule_completes [OF assms] by auto

lemma starts_never_deadlock_witness:
  "\<exists>ag t. schedule ref_stun ref_notif (ex_one_json ex_update) 1 (ex_racing, {#StartLock 0, StartLock 2#})
      (ag, {#StartAdd 0, StartLock 2#}) \<and>
    t \<in># {#StartAdd 0, StartLock 2#} \<and> runnable ref_stun ref_notif (ex_one_json ex_update) ag t"
proof -
  let ?js = "ex_one_json ex_update"
  have lock: "goroutine_run ref_stun ref_notif ?js ex_goroutine_env (StartLock 0) ex_racing =
      Done [StartAdd 0] (set_locked True 0 ex_racing)"
    by (simp add: locking_def)
  have "schedule ref_stun ref_notif ?js (Suc 0) (ex_racing, {#StartLock 0, StartLock 2#})
      (set_locked True 0 ex_racing, mset [StartAdd 0] + {#StartLock 2#})"
    by (rule schedule.work [OF schedule.start _ lock]) (simp add: short_lived_def)
  then have run: "schedule ref_stun ref_notif ?js 1 (ex_racing, {#StartLock 0, StartLock 2#})
      (set_locked True 0 ex_racing, {#StartAdd 0, StartLock 2#})"
    by (simp add: add_mset_commute [of "StartLock 2"])
  have "\<exists>t \<in># {#StartAdd 0, StartLock 2#}. short_lived t" by (simp add: short_lived_def)
  with starts_never_deadlock [OF ex_racing_threads no_locks_held [OF ex_racing_ok(2)] run] run
  show ?thesis by blast
qed

text \<open>C11. Updates started at the same time leave the same map in whatever order the goroutines run: under each UUID the
  newest of those that verify, when versions identify them, the map was empty, nothing is deleted and
  every goroutine has got past \<open>addUpdate\<close>.\<close>

theorem concurrent_starts_converge:
  assumes "threads_ok nlib c" "schedule lib nlib js n c (ag, ts)" "no_removals (snd c)"
    and "agent_content (fst c) = Map.empty" "\<forall>t \<in># ts. offered t = None"
    and "versions_identify n_UUID n_Version (offering nlib (fst c) (snd c))"
  shows "agent_content ag uuid = Some m \<longleftrightarrow>
    m \<in> offering nlib (fst c) (snd c) \<and> n_UUID m = uuid \<and>
    (\<forall>m' \<in> offering nlib (fst c) (snd c). n_UUID m' = uuid \<longrightarrow> n_Version m' \<le> n_Version m)"
  by (rule schedule_content [OF assms])

lemma ex_racing_offering:
  "offering ref_notif ex_racing {#StartLock 0, StartLock 2#} = {ex_notif 3, ex_notif 2}"
  by (auto simp: offering_insert [of _ _ "StartLock 0"] offering_one)

lemma concurrent_starts_converge_witness:
  "\<exists>n ag ts. schedule ref_stun ref_notif (ex_one_json ex_update) n (ex_racing, {#StartLock 0, StartLock 2#}) (ag, ts) \<and>
    agent_content ag UUIDShell = Some (ex_notif 3)"
proof -
  let ?c = "(ex_racing, {#StartLock 0, StartLock 2#})"
  obtain n ag ts where run: "schedule ref_stun ref_notif (ex_one_json ex_update) n ?c (ag, ts)"
      "\<forall>t \<in># ts. \<not> short_lived t"
    using schedule_completes [OF ex_racing_threads no_locks_held [OF ex_racing_ok(2)] schedule.start] by blast
  have "\<forall>t \<in># ts. offered t = None"
    using run(2) offered_short_lived by blast
  moreover have "versions_identify n_UUID n_Version (offering ref_notif (fst ?c) (snd ?c))"
    by (auto simp: ex_racing_offering versions_identify_def dest: arg_cong [where f = n_Version])
  moreover have "agent_content (fst ?c) = Map.empty" by (simp add: agent_content_def fun_eq_iff)
  moreover have "no_removals (snd ?c)" by (simp add: no_removals_def)
  ultimately have "agent_content ag UUIDShell = Some (ex_notif 3)"
    using concurrent_starts_converge [OF ex_racing_threads run(1), of UUIDShell "ex_notif 3"]
    by (simp add: ex_racing_offering)
  with run(1) show ?thesis by blast
qed



text \<open>C13. An update that was deleted comes back: when the request to delete it runs between a monitor's release of the
  lock and its \<open>Save\<close>, the request answers 200 with the metadata file removed, the monitor writes the
  file again, and an agent that starts with this directory has the update in its map.\<close>

theorem deleted_update_returns:
  assumes "update_json_laws js" "uj_encode js (u\<lparr>u_Stopped := True, u_torrent := None\<rparr>) = Inr data"
    and "ag_updates ag (n_UUID (u_Notification u)) = Some r" "ag_heap ag r = Some u" "\<not> u_locked u"
    and "ue_rm_meta env = None" "verifies nlib key (u_Notification u)"
  shows "\<exists>deleted ag'. requestDeleteUpdate (penv\<lparr>pe_start := env\<rparr>) (n_UUID (u_Notification u)) ag = Done (200, NoBody) deleted \<and>
    ag_disk deleted (MetadataFilename (u_Notification u) ag) = None \<and>
    (tstep lib nlib js)\<^sup>*\<^sup>* (ag, {#DeleteMap (n_UUID (u_Notification u)), MonitorSave r#}) (ag', {#MonitorTurn r False#}) \<and>
    ag_updates ag' (n_UUID (u_Notification u)) = None \<and>
    (\<forall>next. agent_ok nlib next \<and> no_locks next \<and> ag_updates next = Map.empty \<and> ag_PublicKey next = key \<and>
        ag_metadataDir next = ag_metadataDir ag \<and> ag_disk next = ag_disk ag' \<longrightarrow>
      (\<exists>next'. load_files nlib js envs [n_UUID (u_Notification u) @ ''-v'' @ nat_dec (unat (n_Version (u_Notification u)))] next = Done () next' \<and>
        agent_content next' (n_UUID (u_Notification u)) = Some (u_Notification u)))"
proof -
  let ?n = "u_Notification u" and ?u = "u\<lparr>u_Stopped := True, u_torrent := None\<rparr>"
  let ?name = "n_UUID ?n @ ''-v'' @ nat_dec (unat (n_Version ?n))"
  obtain deleted ag' where run: "requestDeleteUpdate (penv\<lparr>pe_start := env\<rparr>) (n_UUID ?n) ag = Done (200, NoBody) deleted"
      "ag_disk deleted (MetadataFilename ?n ag) = None"
      "(tstep lib nlib js)\<^sup>*\<^sup>* (ag, {#DeleteMap (n_UUID ?n), MonitorSave r#}) (deleted, {#MonitorSave r#})"
      "tstep lib nlib js (deleted, {#MonitorSave r#}) (ag', {#MonitorTurn r False#})"
      "ag_updates ag' (n_UUID ?n) = None" "ag_disk ag' (MetadataFilename ?n ag) = Some data"
    using save_after_delete [OF assms(3-6,2), of penv lib nlib] by blast
  have loads: "LoadUpdateFromFile js (Inr data) = Inr (?u\<lparr>u_locked := False\<rparr>)"
    using assms(1,2) by (simp add: update_json_laws_def LoadUpdateFromFile_def decode_update_def blank_update_def)
  have "\<exists>next'. load_files nlib js envs [?name] next = Done () next' \<and> agent_content next' (n_UUID ?n) = Some ?n"
    if "agent_ok nlib next" "no_locks next" "ag_updates next = Map.empty" "ag_PublicKey next = key"
      "ag_metadataDir next = ag_metadataDir ag" "ag_disk next = ag_disk ag'" for "next"
    using restart_loads [OF that(1,2) _ loads, of ?name envs] that run(6) assms(7) by (simp add: MetadataFilename_def)
  moreover have "(tstep lib nlib js)\<^sup>*\<^sup>* (ag, {#DeleteMap (n_UUID ?n), MonitorSave r#}) (ag', {#MonitorTurn r False#})"
    using run(3,4) by (rule rtranclp.rtrancl_into_rtrancl)
  ultimately show ?thesis using run(1,2,5) by blast
qed

lemma deleted_update_returns_witness:
  "\<exists>deleted ag' next'. requestDeleteUpdate (ex_threads_api\<lparr>pe_start := ex_update_env\<rparr>) UUIDShell ex_busy = Done (200, NoBody) deleted \<and>
    (tstep ref_stun ref_notif (ex_one_json ex_stopped))\<^sup>*\<^sup>* (ex_busy, {#DeleteMap UUIDShell, MonitorSave 0#}) (ag', {#MonitorTurn 0 False#}) \<and>
    load_files ref_notif (ex_one_json ex_stopped) (\<lambda>_. ex_update_env) [UUIDShell @ ''-v1''] (ex_agent\<lparr>ag_disk := ag_disk ag'\<rparr>) = Done () next' \<and>
    agent_content next' UUIDShell = Some (ex_notif 1)"
proof -
  have enc: "uj_encode (ex_one_json ex_stopped) (ex_update\<lparr>u_Stopped := True, u_torrent := None\<rparr>) = Inr [1]"
    by (simp add: ex_one_json_def ex_stopped_def)
  note returned = deleted_update_returns [OF ex_one_json_laws enc, where ag = ex_busy and r = 0 and env = ex_update_env and nlib = ref_notif and key = ex_key
    and penv = ex_threads_api and lib = ref_stun and envs = "\<lambda>_. ex_update_env"]
  have one: "nat_dec (unat (1 :: 64 word)) = ''1''" by (simp add: nat_dec.simps)
  have env: "ue_rm_meta ex_update_env = None" by (simp add: ex_update_env_def)
  obtain deleted ag' where run: "requestDeleteUpdate (ex_threads_api\<lparr>pe_start := ex_update_env\<rparr>) UUIDShell ex_busy = Done (200, NoBody) deleted"
      "(tstep ref_stun ref_notif (ex_one_json ex_stopped))\<^sup>*\<^sup>* (ex_busy, {#DeleteMap UUIDShell, MonitorSave 0#}) (ag', {#MonitorTurn 0 False#})"
      "\<forall>next. agent_ok ref_notif next \<and> no_locks next \<and> ag_updates next = Map.empty \<and> ag_PublicKey next = ex_key \<and>
        ag_metadataDir next = ag_metadataDir ex_busy \<and> ag_disk next = ag_disk ag' \<longrightarrow>
        (\<exists>next'. load_files ref_notif (ex_one_json ex_stopped) (\<lambda>_. ex_update_env) [UUIDShell @ ''-v'' @ nat_dec (unat (1 :: 64 word))] next = Done () next' \<and>
          agent_content next' UUIDShell = Some (ex_notif 1))"
    using returned [unfolded ex_update_sel ex_notif_sel] env by (simp del: load_files.simps) blast
  let ?next = "ex_agent\<lparr>ag_disk := ag_disk ag'\<rparr>"
  have "agent_ok ref_notif ?next" "no_locks ?next"
    using agent_ok_cong [of ?next ex_agent ref_notif] by (simp_all add: no_locks_def)
  then have "\<exists>next'. load_files ref_notif (ex_one_json ex_stopped) (\<lambda>_. ex_update_env) [UUIDShell @ ''-v1''] ?next = Done () next' \<and>
      agent_content next' UUIDShell = Some (ex_notif 1)"
    using spec [OF run(3) [unfolded one], of ?next] by (simp add: ex_busy_def del: load_files.simps)
  with run(1,2) show ?thesis by blast
qed

text \<open>C34. A request to delete an update can wait for ever: when the turn of the update's monitor comes between \<open>Stop\<close>
  and \<open>Delete\<close>, the monitor ends without freeing the lock, and from then on, whatever the goroutines and
  the environment do, the lock stays taken and the request never gets past it.\<close>

theorem delete_waits_forever:
  assumes "threads_ok nlib (ag, add_mset (DeleteStop r) (add_mset (MonitorTurn r toSave) ts))"
    and "starters r ts = 0" "\<not> locked ag r"
  shows "\<exists>ag'. (tstep lib nlib js)\<^sup>*\<^sup>* (ag, add_mset (DeleteStop r) (add_mset (MonitorTurn r toSave) ts))
      (ag', add_mset (DeleteFiles r) ts) \<and>
    (\<forall>c'. (cstep lib nlib js)\<^sup>*\<^sup>* (ag', add_mset (DeleteFiles r) ts) c' \<longrightarrow>
       DeleteFiles r \<in># snd c' \<and> locked (fst c') r \<and>
       (\<forall>env new next. goroutine_run lib nlib js env (DeleteFiles r) (fst c') \<noteq> Done new next))"
proof -
  obtain ag' where ag': "(tstep lib nlib js)\<^sup>*\<^sup>* (ag, add_mset (DeleteStop r) (add_mset (MonitorTurn r toSave) ts))
      (ag', add_mset (DeleteFiles r) ts)" "stuck r (DeleteFiles r) (ag', add_mset (DeleteFiles r) ts)"
    using monitor_blocks_delete [OF assms] by blast
  have "threads_ok nlib (ag', add_mset (DeleteFiles r) ts)"
    using ag'(1) assms(1) by (rule tsteps_ok)
  note forever = stuck_forever [OF _ this ag'(2)]
  have "goroutine_run lib nlib js env (DeleteFiles r) (fst c') \<noteq> Done new next"
    if "(cstep lib nlib js)\<^sup>*\<^sup>* (ag', add_mset (DeleteFiles r) ts) c'" for c' env new "next"
    using forever [OF that] by (intro awaits_blocked [where r = r]) simp_all
  with ag'(1) forever show ?thesis by blast
qed

lemma delete_waits_forever_witness:
  "\<exists>ag'. (tstep ref_stun ref_notif (ex_one_json ex_update))\<^sup>*\<^sup>* (ex_busy, {#DeleteStop 0, MonitorTurn 0 False#}) (ag', {#DeleteFiles 0#}) \<and>
    (\<nexists>c'. (cstep ref_stun ref_notif (ex_one_json ex_update))\<^sup>*\<^sup>* (ag', {#DeleteFiles 0#}) c' \<and> snd c' = {#})"
proof -
  have "threads_ok ref_notif (ex_busy, {#DeleteStop 0, MonitorTurn 0 False#})"
    by (auto simp: threads_ok_def live_def)
  moreover have "\<not> locked ex_busy 0" by (simp add: locked_def)
  ultimately obtain ag' where "(tstep ref_stun ref_notif (ex_one_json ex_update))\<^sup>*\<^sup>* (ex_busy, {#DeleteStop 0, MonitorTurn 0 False#}) (ag', {#DeleteFiles 0#})"
      "\<forall>c'. (cstep ref_stun ref_notif (ex_one_json ex_update))\<^sup>*\<^sup>* (ag', {#DeleteFiles 0#}) c' \<longrightarrow> DeleteFiles 0 \<in># snd c'"
    using delete_waits_forever [of ref_notif ex_busy 0 False "{#}" ref_stun "ex_one_json ex_update"] by auto
  then show ?thesis by (metis empty_not_add_mset multi_member_split)
qed

end
