(* ===== verification/Gossip.thy ===== *)
theory Gossip
  imports Agent_Run Overlay_Send
begin

section \<open>A notification from one program to another\<close>

text \<open>
  The two halves of gossip.  Sending: a turn of an update's monitor writes its notification to the
  overlay, which sends it to the peers of its table.  Receiving: an overlay takes the datagram, its
  message passes the overlay's channel, and the next turn of the agent's gossip loop offers the
  notification to the map.  The second half serves whoever built the data message, the server or an agent.
\<close>

subsection \<open>Receiving\<close>

text \<open>An overlay that waits for the next datagram, with the sender's password and room for this one.\<close>

definition listens_for :: "string \<Rightarrow> bytes \<Rightarrow> overlay \<Rightarrow> bool" where
  "listens_for password datagram ov \<longleftrightarrow>
     tables_ok ov \<and> ov_state ov = StateListening \<and> overlay_sock ov \<noteq> None \<and> ov_peerDataChan ov = [] \<and>
     oc_StunPassword (ov_Config ov) = password \<and> 0 \<le> oc_ListeningBufferSize (ov_Config ov) \<and>
     length datagram \<le> nat (oc_ListeningBufferSize (ov_Config ov))"

lemma datagram_reaches_channel:
  assumes "stun_laws lib"
    and "lib_build lib [lib_rand_tid lib, lib_set_type lib stunDataIndication, PeerMessage_AddTo lib w,
      PeerID_AddTo lib i, lib_add_integrity lib p, lib_add_fingerprint lib] = Inr m"
    and ov: "listens_for p (lib_raw lib m) ov"
  shows "\<exists>ov'. (ostep lib cl)\<^sup>*\<^sup>* (Running ov (add_mset (TCallback CbListening) T)) (Running ov' (add_mset (TCallback CbListening) T)) \<and>
    ov' = ov\<lparr>ov_channelExpired := ov_channelExpired ov', ov_msg := lib_raw lib m, ov_senderAddr := ov_senderAddr ov',
      ov_peerDataChan := [w]\<rparr>"
proof -
  have "cb_processingMessage lib ov1 = Some (ov1\<lparr>ov_peerDataChan := [w]\<rparr>, [], Some EventSuccess)"
    if "ov_msg ov1 = lib_raw lib m" "ov_Config ov1 = ov_Config ov" "ov_peerDataChan ov1 = ov_peerDataChan ov" for ov1
    using data_received_from [OF assms(1), of w i ov1 m] assms(2) ov that
    by (simp add: listens_for_def chan_send_def peerDataChan_cap_def)
  then show ?thesis using steps_message [of ov "lib_raw lib m" lib "[w]"] ov unfolding listens_for_def by blast
qed

lemma received_ready:
  assumes "listens_for p b ov" "ov' = ov\<lparr>ov_channelExpired := t, ov_msg := b, ov_senderAddr := a, ov_peerDataChan := [w]\<rparr>"
  shows "ov_peerDataChan ov' = [w]" "Ready ov'"
  using assms by (simp_all add: listens_for_def Ready_def online_states_def)

text \<open>What waits in the channel is offered to the map.\<close>

lemma channel_reaches_map:
  assumes "ov_peerDataChan ov = [w]" "Ready ov" "length w \<le> 64 * 1024"
    and "agent_ok nlib ag" "no_locks ag" "nl_bdecode nlib w (ag_buf ag) = (n, None)"
  shows "\<exists>ag'. readOverlay nlib envs False (ag\<lparr>ag_Overlay := Some ov\<rparr>) = Done () ag' \<and>
    agent_content ag' = (if verifies nlib (ag_PublicKey ag) n
      then keep_newest n_UUID n_Version n (agent_content ag) else agent_content ag)"
proof -
  have read: "overlay_Read False (64 * 1024) ov = Returns (w, None, ov\<lparr>ov_peerDataChan := []\<rparr>)"
    using assms(1-3) by (simp add: overlay_Read_def chan_recv_def)
  let ?ag = "ag\<lparr>ag_Overlay := Some (ov\<lparr>ov_peerDataChan := []\<rparr>), ag_buf := n\<rparr>"
  have ok: "agent_ok nlib ?ag" using assms(4) agent_ok_cong [of ?ag ag nlib] by simp
  have "no_locks ?ag" using assms(5) by (simp add: no_locks_def)
  then obtain err ag' where off: "offer_notification nlib (envs (n_UUID n)) n ?ag = Done err ag'"
    using offer_returns [of ?ag nlib "envs (n_UUID n)" n] ok by (auto simp: agent_ok_def)
  have "readOverlay nlib envs False (ag\<lparr>ag_Overlay := Some ov\<rparr>) = Done () ag'"
    using read off assms(6) by (simp add: readOverlay_def handle_message_def)
  moreover have "agent_content ?ag = agent_content ag" by (simp add: agent_content_def fun_eq_iff split: option.split)
  ultimately show ?thesis
    using offer_final [OF ok, of "envs (n_UUID n)" n ag'] off by auto
qed

lemma datagram_reaches_map:
  assumes "stun_laws lib"
    and "lib_build lib [lib_rand_tid lib, lib_set_type lib stunDataIndication, PeerMessage_AddTo lib w,
      PeerID_AddTo lib i, lib_add_integrity lib p, lib_add_fingerprint lib] = Inr m"
    and "listens_for p (lib_raw lib m) ov" "length w \<le> 64 * 1024"
    and "agent_ok nlib ag" "no_locks ag" "nl_bdecode nlib w (ag_buf ag) = (n, None)"
  shows "\<exists>ov' ag'.
    (ostep lib cl)\<^sup>*\<^sup>* (Running ov (add_mset (TCallback CbListening) T)) (Running ov' (add_mset (TCallback CbListening) T)) \<and>
    readOverlay nlib envs False (ag\<lparr>ag_Overlay := Some ov'\<rparr>) = Done () ag' \<and>
    agent_content ag' = (if verifies nlib (ag_PublicKey ag) n
      then keep_newest n_UUID n_Version n (agent_content ag) else agent_content ag)"
  using datagram_reaches_channel [OF assms(1-3)] channel_reaches_map [OF received_ready [OF assms(3)] assms(4-7)] by meson

subsection \<open>Sending\<close>

text \<open>An overlay that sends: in one of the two states of \<open>Write\<close>, with its resources and usable sessions.\<close>

definition sends :: "overlay \<Rightarrow> bool" where
  "sends ov \<longleftrightarrow> ov_state ov \<in> {StateListening, StateProcessingMessage} \<and>
     resources_ok (ov_state ov) ov \<and> sessions_ok ov"

text \<open>The peers that a \<open>Write\<close> reaches: those of the range before the first failure.\<close>

definition reached :: "(udp_addr \<Rightarrow> go_error option) \<Rightarrow> overlay \<Rightarrow> peer_id list \<Rightarrow> udp_addr list" where
  "reached write ov ids = map the (takeWhile (\<lambda>t. send_to write t = None) (recipients ov ids))"

lemma agent_send_reaches:
  assumes "ag_Overlay ag = Some ov" "sends ov" "length b \<le> stunMaxPacketDataSize" "dataMessage lib ov b = Inr m"
  shows "agent_send lib write ids ag b = Some (map (WriteTo (lib_raw lib m)) (reached write ov ids), None)"
proof -
  have "Ready ov" using assms(2) by (auto simp: sends_def Ready_def online_states_def)
  then have "ov_externalAddr ov \<noteq> None" "overlay_sock ov \<noteq> None"
    using Ready_resources assms(2) by (auto simp: sends_def)
  then have "multicast_loop write (lib_raw lib m) ov None ids =
      Some (map (WriteTo (lib_raw lib m)) (reached write ov ids))"
    using multicast_loop_prefix [of ov "write" "lib_raw lib m" ids] assms(2)
    by (simp add: sends_def reached_def comp_def)
  then show ?thesis
    using assms by (auto simp: agent_send_def overlay_Write_def multicastMessage_def sends_def Current_def)
qed

text \<open>A turn of the monitor of an update that has not been sent.\<close>

lemma monitor_gossips:
  assumes u: "ag_heap ag r = Some u" "\<not> u_locked u" "\<not> u_Stopped u" "u_torrent u = Some h" "\<not> u_Sent u"
    and ov: "ag_Overlay ag = Some ov" "sends ov"
    and w: "nl_bencode nlib (u_Notification u) = Inr w" "length w \<le> stunMaxPacketDataSize" "dataMessage lib ov w = Inr m"
  shows "\<exists>save u' acts. monitor_turn lib nlib env toSave r ag =
      Done (Some save) (emit (map (\<lambda>a. Net (WriteTo (lib_raw lib m) a)) (reached (me_write env) ov (me_order env)) @ acts)
        (set_update r u' ag)) \<and> u_Sent u' \<and> u_Notification u' = u_Notification u"
proof -
  let ?acts = "map (\<lambda>a. Net (WriteTo (lib_raw lib m) a)) (reached (me_write env) ov (me_order env))"
  let ?u = "u\<lparr>u_Sent := True\<rparr>"
  have "agent_send lib (me_write env) (me_order env) ag w =
      Some (map (WriteTo (lib_raw lib m)) (reached (me_write env) ov (me_order env)), None)"
    using agent_send_reaches [OF ov w(2,3)] .
  then have send: "monitor_send lib nlib env toSave u ag = Some (?u, True, ?acts)"
    using u(5) w(1) by (simp add: monitor_send_def Notification_Write_def comp_def)
  obtain u' save acts where prog: "monitor_progress env h True ?u ag = (u', save, acts)"
    by (cases "monitor_progress env h True ?u ag") auto
  then have "monitor_turn lib nlib env toSave r ag = Done (Some save) (emit (?acts @ acts) (set_update r u' ag))"
    using u send by (simp add: monitor_turn_def locking_def)
  moreover have "u_Sent u'" "u_Notification u' = u_Notification u"
    using monitor_progress_frame [of env h True ?u ag] prog by simp_all
  ultimately show ?thesis by blast
qed

end
