(* ===== verification/Gossip_Path.thy ===== *)
theory Gossip_Path
  imports Gossip
begin

section \<open>A notification along a path of agents\<close>

text \<open>
  One hop of gossip takes a notification from an agent that runs its update to a peer that lacks it.
  The peer then runs the update itself and has not sent it, so its monitor sends it on with the next
  turn: \<open>hop\<close> is one such turn with the peer's reception, \<open>travels\<close> a sequence of them.
\<close>

subsection \<open>Hops\<close>

text \<open>The agent runs the notification's update, and its monitor has not sent it.\<close>

definition about_to_send :: "notification \<Rightarrow> 'pub agent \<Rightarrow> bool" where
  "about_to_send n ag \<longleftrightarrow> (\<exists>r u. ag_updates ag (n_UUID n) = Some r \<and> ag_heap ag r = Some u \<and> u_Notification u = n \<and>
     \<not> u_locked u \<and> \<not> u_Stopped u \<and> u_torrent u \<noteq> None \<and> \<not> u_Sent u)"

text \<open>
  A turn of the sender's monitor writes a datagram to the external address of the receiver's overlay; the
  overlay takes it, and the receiver's gossip loop reads it.
\<close>

inductive hop ::
  "'m stun_lib \<Rightarrow> ('priv, 'pub) notif_lib \<Rightarrow> (string \<Rightarrow> update_env) \<Rightarrow> notification
     \<Rightarrow> 'pub agent \<Rightarrow> 'pub agent \<Rightarrow> 'pub agent \<Rightarrow> 'pub agent \<Rightarrow> bool"
  for lib :: "'m stun_lib" and nlib :: "('priv, 'pub) notif_lib" and envs :: "string \<Rightarrow> update_env" and n :: notification where
  hop: "ag_updates ag (n_UUID n) = Some r \<Longrightarrow> monitor_turn lib nlib env toSave r ag = Done (Some save) ag' \<Longrightarrow>
    Net (WriteTo b ext) \<in> set (drop (length (ag_log ag)) (ag_log ag')) \<Longrightarrow>
    ag_Overlay bg = Some ov \<Longrightarrow> ov_externalAddr ov = Some ext \<Longrightarrow>
    (ostep lib False)\<^sup>*\<^sup>* (Running ov {#TCallback CbListening#}) (Running ov' {#TCallback CbListening#}) \<Longrightarrow> ov_msg ov' = b \<Longrightarrow>
    readOverlay nlib envs False (bg\<lparr>ag_Overlay := Some ov'\<rparr>) = Done () bg' \<Longrightarrow>
    hop lib nlib envs n ag bg ag' bg'"

text \<open>The agents of a path after the hops along it.\<close>

inductive travels ::
  "'m stun_lib \<Rightarrow> ('priv, 'pub) notif_lib \<Rightarrow> (string \<Rightarrow> update_env) \<Rightarrow> notification
     \<Rightarrow> 'pub agent \<Rightarrow> 'pub agent list \<Rightarrow> 'pub agent list \<Rightarrow> bool"
  for lib :: "'m stun_lib" and nlib :: "('priv, 'pub) notif_lib" and envs :: "string \<Rightarrow> update_env" and n :: notification where
  arrived: "travels lib nlib envs n ag [] [ag]"
| onward: "hop lib nlib envs n ag bg ag' bg' \<Longrightarrow> travels lib nlib envs n bg' bgs rs \<Longrightarrow>
    travels lib nlib envs n ag (bg # bgs) (ag' # rs)"

subsection \<open>An accepted update runs and has not been sent\<close>

lemma offer_runs:
  assumes "heap_wf ag" "no_locks ag" "verifies nlib (ag_PublicKey ag) n"
    and "verdict_of n_UUID n_Version n (agent_content ag) = Accepted"
    and "torrentMetainfo nlib n = Inr mi" "ue_add env = Inr h"
  shows "\<exists>ag'. offer_notification nlib env n ag = Done None ag' \<and> about_to_send n ag' \<and> ag_Overlay ag' = ag_Overlay ag"
proof -
  obtain r ag1 u where new: "NewUpdate n ag = (r, ag1)" and u: "ag_heap ag1 r = Some u" "u_Notification u = n"
    and offer: "offer_notification nlib env n ag = activate nlib env r u
       (let ag2 = (set_update r (u\<lparr>u_locked := True\<rparr>) ag1)\<lparr>ag_updates := (ag_updates ag)(n_UUID n \<mapsto> r)\<rparr> in
        case ag_updates ag (n_UUID n) of
          None \<Rightarrow> ag2
        | Some old \<Rightarrow> retired env old (the (ag_heap ag old)) ag2)"
    using offer_accepted [OF assms(1-4), of env thesis] by blast
  have fresh: "\<not> u_Sent u" "ag_Overlay ag1 = ag_Overlay ag"
    using new u(1) new_object_sel(2,6) [OF new [unfolded NewUpdate_def]] by auto
  let ?u = "u\<lparr>u_torrent := Some h, u_Stopped := False, u_locked := False\<rparr>"
  let ?ag2 = "case ag_updates ag (n_UUID n) of
      None \<Rightarrow> (set_update r (u\<lparr>u_locked := True\<rparr>) ag1)\<lparr>ag_updates := (ag_updates ag)(n_UUID n \<mapsto> r)\<rparr>
    | Some old \<Rightarrow> retired env old (the (ag_heap ag old))
        ((set_update r (u\<lparr>u_locked := True\<rparr>) ag1)\<lparr>ag_updates := (ag_updates ag)(n_UUID n \<mapsto> r)\<rparr>)"
  have "ag_updates ?ag2 (n_UUID n) = Some r" "ag_Overlay ?ag2 = ag_Overlay ag"
    using fresh(2) by (auto simp: retired_sel retired_def Let_def split: option.split)
  moreover have "offer_notification nlib env n ag = Done None (emit [AddTorrent mi, SpawnMonitor r] (set_update r ?u ?ag2))"
    by (simp add: offer activate_def u(2) assms(5,6) Let_def)
  ultimately show ?thesis using u(2) fresh(1) by (auto simp: about_to_send_def)
qed

subsection \<open>Who can hear whom\<close>

text \<open>
  \<open>a\<close> reaches \<open>b\<close> with the encoding \<open>w\<close>: its overlay sends, in some order of its peers and with some answers of
  the socket the external address of \<open>b\<close> comes before the first failure, and \<open>b\<close>'s overlay waits for the
  datagram with the same password.
\<close>

definition link :: "'m stun_lib \<Rightarrow> bytes \<Rightarrow> 'pub agent \<Rightarrow> 'pub agent \<Rightarrow> bool" where
  "link lib w a b \<longleftrightarrow> (\<exists>ova ovb m (env :: monitor_env) ext.
     ag_Overlay a = Some ova \<and> sends ova \<and> dataMessage lib ova w = Inr m \<and>
     ag_Overlay b = Some ovb \<and> listens_for (oc_StunPassword (ov_Config ova)) (lib_raw lib m) ovb \<and>
     ov_externalAddr ovb = Some ext \<and> ext \<in> set (reached (me_write env) ova (me_order env)))"

text \<open>An agent that can take the notification: it verifies, nothing as new is there, its torrent can be added.\<close>

definition newcomer ::
  "('priv, 'pub) notif_lib \<Rightarrow> (string \<Rightarrow> update_env) \<Rightarrow> bytes \<Rightarrow> notification \<Rightarrow> 'pub agent \<Rightarrow> bool" where
  "newcomer nlib envs w n ag \<longleftrightarrow> heap_wf ag \<and> no_locks ag \<and> verifies nlib (ag_PublicKey ag) n \<and>
     verdict_of n_UUID n_Version n (agent_content ag) = Accepted \<and> nl_bdecode nlib w (ag_buf ag) = (n, None) \<and>
     \<not> is_err (torrentMetainfo nlib n) \<and> \<not> is_err (ue_add (envs (n_UUID n)))"

text \<open>What a reception changes in an overlay does not matter for sending.\<close>

definition same_overlay :: "'pub agent \<Rightarrow> 'pub agent \<Rightarrow> bool" where
  "same_overlay ag ag' \<longleftrightarrow> (\<exists>ov t b a. ag_Overlay ag = Some ov \<and>
     ag_Overlay ag' = Some (ov\<lparr>ov_channelExpired := t, ov_msg := b, ov_senderAddr := a\<rparr>))"

lemma sends_cong: "sends (ov\<lparr>ov_channelExpired := t, ov_msg := b, ov_senderAddr := a\<rparr>) = sends ov"
  by (simp add: sends_def resources_ok_def conn_live_def sessions_ok_def)

lemma dataMessage_cong:
  "dataMessage lib (ov\<lparr>ov_channelExpired := t, ov_msg := b, ov_senderAddr := a\<rparr>) w = dataMessage lib ov w"
  by (simp add: dataMessage_def)

lemma peer_target_cong: "peer_target (ov\<lparr>ov_channelExpired := t, ov_msg := b, ov_senderAddr := a\<rparr>) s = peer_target ov s"
  by (simp add: peer_target_def split: list.split option.split)

lemma reached_cong: "reached write (ov\<lparr>ov_channelExpired := t, ov_msg := b, ov_senderAddr := a\<rparr>) ids = reached write ov ids"
  by (simp add: reached_def recipients_def peer_target_cong)

lemma link_same:
  assumes "same_overlay ag ag'" "link lib w ag bg"
  shows "link lib w ag' bg"
proof -
  obtain ov t b a where ov: "ag_Overlay ag = Some ov"
    "ag_Overlay ag' = Some (ov\<lparr>ov_channelExpired := t, ov_msg := b, ov_senderAddr := a\<rparr>)"
    using assms(1) by (auto simp: same_overlay_def)
  from assms(2) ov(1) show ?thesis unfolding link_def ov(2) by (auto simp: sends_cong dataMessage_cong reached_cong)
qed

subsection \<open>One hop\<close>

lemma newcomer_reads:
  assumes "newcomer nlib envs w n bg" "length w \<le> 64 * 1024"
    and "ov_peerDataChan ov = [w]" "Ready ov"
  shows "\<exists>bg'. readOverlay nlib envs False (bg\<lparr>ag_Overlay := Some ov\<rparr>) = Done () bg' \<and> about_to_send n bg' \<and>
    ag_Overlay bg' = Some (ov\<lparr>ov_peerDataChan := []\<rparr>)"
proof -
  have read: "overlay_Read False (64 * 1024) ov = Returns (w, None, ov\<lparr>ov_peerDataChan := []\<rparr>)"
    using assms(2-4) by (simp add: overlay_Read_def chan_recv_def)
  let ?bg = "bg\<lparr>ag_Overlay := Some (ov\<lparr>ov_peerDataChan := []\<rparr>), ag_buf := n\<rparr>"
  obtain mi h where ok: "torrentMetainfo nlib n = Inr mi" "ue_add (envs (n_UUID n)) = Inr h"
    using assms(1) by (auto simp: newcomer_def not_is_err_iff)
  have "agent_content ?bg = agent_content bg" by (simp add: agent_content_def fun_eq_iff split: option.split)
  then have "heap_wf ?bg" "no_locks ?bg" "verifies nlib (ag_PublicKey ?bg) n"
      "verdict_of n_UUID n_Version n (agent_content ?bg) = Accepted"
    using assms(1) heap_wf_cong [of ?bg bg] by (simp_all add: newcomer_def no_locks_def)
  then obtain bg' where "offer_notification nlib (envs (n_UUID n)) n ?bg = Done None bg'" "about_to_send n bg'"
      "ag_Overlay bg' = ag_Overlay ?bg"
    using offer_runs [of ?bg nlib n mi "envs (n_UUID n)" h] ok by blast
  then show ?thesis
    using read assms(1) by (simp add: readOverlay_def handle_message_def newcomer_def)
qed

lemma hop_exists:
  assumes "stun_laws lib" "nl_bencode nlib n = Inr w" "length w \<le> stunMaxPacketDataSize"
    and "about_to_send n ag" "link lib w ag bg" "newcomer nlib envs w n bg"
  shows "\<exists>ag' bg'. hop lib nlib envs n ag bg ag' bg' \<and> agent_content ag' (n_UUID n) = Some n \<and>
    about_to_send n bg' \<and> same_overlay bg bg'"
proof -
  obtain r u h where r: "ag_updates ag (n_UUID n) = Some r"
    and u: "ag_heap ag r = Some u" "\<not> u_locked u" "\<not> u_Stopped u" "u_torrent u = Some h" "\<not> u_Sent u" "u_Notification u = n"
    using assms(4) by (auto simp: about_to_send_def)
  obtain ova ovb m ext and env :: monitor_env where link: "ag_Overlay ag = Some ova" "sends ova" "dataMessage lib ova w = Inr m"
    "ag_Overlay bg = Some ovb" "listens_for (oc_StunPassword (ov_Config ova)) (lib_raw lib m) ovb"
    "ov_externalAddr ovb = Some ext" "ext \<in> set (reached (me_write env) ova (me_order env))"
    using assms(5) unfolding link_def by blast
  obtain save u' acts where turn: "monitor_turn lib nlib env True r ag =
      Done (Some save) (emit (map (\<lambda>a. Net (WriteTo (lib_raw lib m) a)) (reached (me_write env) ova (me_order env)) @ acts)
        (set_update r u' ag))" and u': "u_Notification u' = n"
    using monitor_gossips [OF u(1-5) link(1,2), of nlib w lib m env True] assms(2,3) link(3) u(6) by auto
  obtain ov where recv: "(ostep lib False)\<^sup>*\<^sup>* (Running ovb {#TCallback CbListening#}) (Running ov {#TCallback CbListening#})"
    and ov: "ov = ovb\<lparr>ov_channelExpired := ov_channelExpired ov, ov_msg := lib_raw lib m, ov_senderAddr := ov_senderAddr ov,
      ov_peerDataChan := [w]\<rparr>"
    using datagram_reaches_channel [OF assms(1) link(3) [unfolded dataMessage_def] link(5), of False "{#}"] by blast
  have "length w \<le> 64 * 1024" using assms(3) by (simp add: stunMaxPacketDataSize_def)
  then obtain bg' where read: "readOverlay nlib envs False (bg\<lparr>ag_Overlay := Some ov\<rparr>) = Done () bg'"
    and bg': "about_to_send n bg'" "ag_Overlay bg' = Some (ov\<lparr>ov_peerDataChan := []\<rparr>)"
    using newcomer_reads [OF assms(6) _ received_ready [OF link(5) ov]] by blast
  have "hop lib nlib envs n ag bg (emit (map (\<lambda>a. Net (WriteTo (lib_raw lib m) a)) (reached (me_write env) ova (me_order env)) @ acts)
        (set_update r u' ag)) bg'"
    using link(7) arg_cong [OF ov, of ov_msg]
    by (intro hop.intros [OF r turn _ link(4,6) recv _ read]) (auto simp: emit_def set_update_def)
  moreover have "ov_peerDataChan ovb = []" using link(5) by (simp add: listens_for_def)
  then have "ov\<lparr>ov_peerDataChan := []\<rparr> = ovb\<lparr>ov_channelExpired := ov_channelExpired ov, ov_msg := lib_raw lib m, ov_senderAddr := ov_senderAddr ov\<rparr>"
    by (subst ov) (cases ovb, simp)
  then have "same_overlay bg bg'" using link(4) bg'(2) unfolding same_overlay_def by metis
  ultimately show ?thesis using r u' bg'(1) by (auto simp: agent_content_def intro!: exI)
qed

subsection \<open>The whole path\<close>

lemma travels_exists:
  assumes "stun_laws lib" "nl_bencode nlib n = Inr w" "length w \<le> stunMaxPacketDataSize"
    and "about_to_send n ag" "successively (link lib w) (ag # bgs)" "\<forall>bg \<in> set bgs. newcomer nlib envs w n bg"
  shows "\<exists>rs. travels lib nlib envs n ag bgs rs \<and> length rs = Suc (length bgs) \<and>
    (\<forall>r \<in> set rs. agent_content r (n_UUID n) = Some n)"
  using assms(4-6)
proof (induction bgs arbitrary: ag)
  case Nil
  then have "agent_content ag (n_UUID n) = Some n" by (auto simp: about_to_send_def agent_content_def)
  then show ?case using travels.arrived [of lib nlib envs n ag] by fastforce
next
  case (Cons bg bgs)
  obtain ag' bg' where hop: "hop lib nlib envs n ag bg ag' bg'" "agent_content ag' (n_UUID n) = Some n"
    and bg': "about_to_send n bg'" "same_overlay bg bg'"
    using hop_exists [OF assms(1-3) Cons.prems(1)] Cons.prems(2,3) by fastforce
  have "successively (link lib w) (bg' # bgs)"
    using Cons.prems(2) link_same [OF bg'(2)] by (cases bgs) auto
  then obtain rs where "travels lib nlib envs n bg' bgs rs" "length rs = Suc (length bgs)"
      "\<forall>r \<in> set rs. agent_content r (n_UUID n) = Some n"
    using Cons.IH [OF bg'(1)] Cons.prems(3) by auto
  then show ?case using travels.onward [OF hop(1)] hop(2) by (intro exI [of _ "ag' # rs"]) auto
qed

end
