(* ===== verification/Cli.thy ===== *)
theory Cli
  imports Agent_Store Exec_Every
begin

section \<open>The command line (\<open>main.go\<close>)\<close>

text \<open>
  The three commands: \<open>submit\<close> builds, signs and sends a notification, \<open>agent\<close> and \<open>server\<close> start the
  two programs from their configurations.  The flags are records; \<open>main\<close>'s table of flags gives the
  values of the missing ones.
\<close>

subsection \<open>Submitting an update\<close>

text \<open>
  \<open>submitCmd\<close> up to what it does with the update: where the notification goes, or the error.  The flags
  are the command line's, with \<open>main\<close>'s defaults.
\<close>

record 'priv submit_env =
  se_abs :: string                          \<comment> \<open>\<open>filepath.Abs\<close> of the file\<close>
  se_stat :: "go_error option"
  se_now :: int
  se_key :: "'priv result"
  se_open :: "go_error option"
  se_print :: "go_error option"             \<comment> \<open>encoding to the output\<close>
  se_agent :: "(int result) result"         \<comment> \<open>encoding, then the status code or an error\<close>
  se_server :: "(int result) result"

record submit_flags =
  sf_uuid :: string
  sf_version :: "64 word"
  sf_output :: string
  sf_tracker :: string
  sf_piece_length :: int
  sf_server :: string
  sf_torrent_file :: bool

datatype submit_action = PrintTorrent string update | PrintJson string update | PostAgent update | PostServer notification

text \<open>
  \<open>submitToAgent\<close> and \<open>submitToServer\<close>, given the error of encoding the body as JSON, else the error or
  the status of the request: anything but status 200 is an error.
\<close>

definition submitToServer :: "(int result) result \<Rightarrow> go_error option" where
  "submitToServer answer =
     (case answer of
        Inl e \<Rightarrow> Some (ErrMsg ''submitToServer - failed encoding notification'')
      | Inr (Inl e) \<Rightarrow> Some (ErrMsg ''submitToServer - failed http request'')
      | Inr (Inr code) \<Rightarrow> if code \<noteq> 200 then Some (ErrMsg ''submitToServer - status code'') else None)"

definition submitToAgent :: "(int result) result \<Rightarrow> go_error option" where
  "submitToAgent answer =
     (case answer of
        Inl e \<Rightarrow> Some (ErrMsg ''submitToAgent - failed encoding update'')
      | Inr (Inl e) \<Rightarrow> Some (ErrMsg ''submitToAgent - failed http request'')
      | Inr (Inr code) \<Rightarrow> if code \<noteq> 200 then Some (ErrMsg ''submitToAgent - status code'') else None)"

definition submitCmd ::
  "('priv, 'pub) notif_lib \<Rightarrow> 'priv submit_env \<Rightarrow> submit_flags \<Rightarrow> go_error option \<times> submit_action list" where
  "submitCmd nlib env fl =
     (if se_stat env \<noteq> None then (Some (ErrMsg ''update file does not exist''), [])
      else if sf_uuid fl = [] then (Some (ErrMsg ''UUID is empty''), [])
      else
        let ver = (if sf_version fl \<le> 0 then word_of_int (se_now env div second) else sf_version fl) in
        case se_key env of
          Inl e \<Rightarrow> (Some (ErrMsg ''failed loading private key''), [])
        | Inr key \<Rightarrow>
            (case NewNotification nlib (se_now env div second) (se_abs env) (sf_uuid fl) ver (sf_tracker fl)
                    (sf_piece_length fl) key of
               Inl e \<Rightarrow> (Some e, [])
             | Inr mi \<Rightarrow>
                 (let u = blank_update\<lparr>u_Source := se_abs env, u_Notification := mi\<rparr> in
                  if sf_output fl \<noteq> [] then
                    (if sf_output fl \<noteq> ''-'' \<and> se_open env \<noteq> None then (se_open env, [])
                     else if sf_torrent_file fl then (se_print env, [PrintTorrent (sf_output fl) u])
                     else (se_print env, [PrintJson (sf_output fl) u]))
                  else case submitToAgent (se_agent env) of
                    Some e \<Rightarrow> (Some (ErrMsg ''failed submitting to agent''), [PostAgent u])
                  | None \<Rightarrow>
                      (if sf_server fl = [] then (None, [PostAgent u])
                       else case submitToServer (se_server env) of
                         Some e \<Rightarrow> (Some (ErrMsg ''failed submitting to server''), [PostAgent u, PostServer mi])
                       | None \<Rightarrow> (None, [PostAgent u, PostServer mi])))))"

definition submit_flag_defaults :: submit_flags where
  "submit_flag_defaults =
     \<lparr>sf_uuid = UUIDShell, sf_version = 0, sf_output = [], sf_tracker = DefaultTracker,
      sf_piece_length = DefaultPieceLength, sf_server = defaultServerAddr @ '':'' @ int_dec defaultServerPort,
      sf_torrent_file = False\<rparr>"

subsection \<open>Starting the agent and the server\<close>

text \<open>\<open>agentCmd\<close>: the configuration it prints, or how creating the agent ends.\<close>

definition agentCmd ::
  "('priv, 'pub) notif_lib \<Rightarrow> update_json \<Rightarrow> (string \<Rightarrow> update_env) \<Rightarrow> 'pub agent_env \<Rightarrow> string result
     \<Rightarrow> (bytes \<Rightarrow> config \<Rightarrow> config \<times> go_error option) \<Rightarrow> (string \<rightharpoonup> bytes) \<Rightarrow> bool \<Rightarrow> bytes result
     \<Rightarrow> config + (go_error option, 'pub agent option) outcome" where
  "agentCmd nlib js envs env user decode disk print_default file =
     (if print_default then Inl (DefaultConfig user)
      else Inr (case NewConfig user decode file of
        (cfg, Some e) \<Rightarrow> Done (Some e) None
      | (cfg, None) \<Rightarrow> NewAgent nlib js envs env cfg disk))"

text \<open>\<open>serverCmd\<close> up to \<open>run\<close>; \<open>addr\<close> resolves the configured address, \<open>pub\<close> loads a key file.\<close>

definition serverCmd ::
  "(bytes \<Rightarrow> (string \<rightharpoonup> notification) result) \<Rightarrow> (string \<Rightarrow> udp_addr result) \<Rightarrow> peer_id result
     \<Rightarrow> (string \<Rightarrow> 'pub result) \<Rightarrow> go_error option \<Rightarrow> (string \<Rightarrow> bytes option) \<Rightarrow> server_flags \<Rightarrow> 'pub server result" where
  "serverCmd decode addr pid pub openf files fl =
     (let cfg = serverCmd_config fl in
      NewServer decode cfg (addr (sc_Address cfg)) pid (pub (key_Filename (sc_PublicKey cfg))) openf (files (sc_Database cfg)))"

subsection \<open>The table of commands\<close>

text \<open>
  \<open>main\<close>'s table: each command with its flags, a flag as its names and its default.  Names are separated
  by commas, as the \<open>cli\<close> library documents; a command asks for a flag by one of them.
\<close>

datatype flag_default = StringFlag string | Uint64Flag "64 word" | Int64Flag int | IntFlag int | BoolFlag

type_synonym cli_flag = "string \<times> flag_default"

definition submit_table :: "string result \<Rightarrow> cli_flag list" where
  "submit_table user =
     [(''file, f'', StringFlag []), (''version, v'', Uint64Flag 0), (''uuid, u'', StringFlag UUIDShell),
      (''private-key, k'', StringFlag (home_dir user @ ''/.ssh/id_rsa'')), (''output, o'', StringFlag []),
      (''tracker, r'', StringFlag DefaultTracker), (''piece-length, l'', Int64Flag DefaultPieceLength),
      (''unix-socket, x'', StringFlag defaultUnixSocket),
      (''server, s'', StringFlag (defaultServerAddr @ '':'' @ int_dec defaultServerPort)),
      (''torrent-file, t'', BoolFlag)]"

definition agent_table :: "cli_flag list" where
  "agent_table = [(''config-file, c'', StringFlag ''config.json''), (''default-config, d'', BoolFlag)]"

definition server_table :: "string result \<Rightarrow> cli_flag list" where
  "server_table user =
     [(''address, a'', StringFlag '':3478''), (''advertise-session, s'', IntFlag 60),
      (''database, d'', StringFlag ''/var/lib/p2pupdate-server.db''), (''snapshot-time, n'', IntFlag 10),
      (''public-key, k'', StringFlag (home_dir user @ ''/.ssh/id_rsa.pub'')),
      (''stun-password, p'', StringFlag []), (''log-file, g'', StringFlag ''/var/log/p2pupdate-server.log'')]"

definition app_commands :: "string result \<Rightarrow> (string \<times> cli_flag list) list" where
  "app_commands user =
     [(''submit'', submit_table user), (''agent'', agent_table), (''server'', server_table user)]"

definition flag_names :: "string \<Rightarrow> string list" where
  "flag_names spec = map trim (split_on (CHR '','') spec)"

definition flag_value :: "string \<Rightarrow> cli_flag list \<Rightarrow> flag_default option" where
  "flag_value name table = map_option snd (find (\<lambda>(spec, v). name \<in> set (flag_names spec)) table)"

lemmas flag_simps = flag_value_def flag_names_def trim_def is_space_def

text \<open>No two flags of a command answer to the same name.\<close>

lemma flag_names_distinct:
  "(c, table) \<in> set (app_commands user) \<Longrightarrow> distinct (concat (map (\<lambda>(spec, v). flag_names spec) table))"
  by (auto simp: app_commands_def submit_table_def agent_table_def server_table_def flag_names_def trim_def is_space_def)

text \<open>The commands ask only for flags that are declared, and get the defaults of the records above.\<close>

lemma submit_defaults:
  "flag_value ''uuid'' (submit_table user) = Some (StringFlag (sf_uuid submit_flag_defaults))"
  "flag_value ''version'' (submit_table user) = Some (Uint64Flag (sf_version submit_flag_defaults))"
  "flag_value ''output'' (submit_table user) = Some (StringFlag (sf_output submit_flag_defaults))"
  "flag_value ''tracker'' (submit_table user) = Some (StringFlag (sf_tracker submit_flag_defaults))"
  "flag_value ''piece-length'' (submit_table user) = Some (Int64Flag (sf_piece_length submit_flag_defaults))"
  "flag_value ''server'' (submit_table user) = Some (StringFlag (sf_server submit_flag_defaults))"
  "flag_value ''torrent-file'' (submit_table user) = Some BoolFlag"
  by (simp_all add: submit_table_def submit_flag_defaults_def flag_simps)

lemma server_defaults:
  "flag_value ''address'' (server_table user) = Some (StringFlag (fl_address (server_flag_defaults user)))"
  "flag_value ''advertise-session'' (server_table user) = Some (IntFlag (fl_advertise_session (server_flag_defaults user)))"
  "flag_value ''database'' (server_table user) = Some (StringFlag (fl_database (server_flag_defaults user)))"
  "flag_value ''snapshot-time'' (server_table user) = Some (IntFlag (fl_snapshot_time (server_flag_defaults user)))"
  "flag_value ''public-key'' (server_table user) = Some (StringFlag (fl_public_key (server_flag_defaults user)))"
  "flag_value ''stun-password'' (server_table user) = Some (StringFlag (fl_stun_password (server_flag_defaults user)))"
  "flag_value ''log-file'' (server_table user) = Some (StringFlag (fl_log_file (server_flag_defaults user)))"
  by (simp_all add: server_table_def server_flag_defaults_def flag_simps)

subsection \<open>What submit sends\<close>

lemma submitCmd_sends:
  assumes "submitCmd nlib env fl = (err, acts)"
  shows "(\<forall>u. PostAgent u \<in> set acts \<longrightarrow> (\<exists>key ver. se_key env = Inr key \<and>
      NewNotification nlib (se_now env div second) (se_abs env) (sf_uuid fl) ver (sf_tracker fl) (sf_piece_length fl) key =
        Inr (u_Notification u))) \<and>
    (\<forall>n. PostServer n \<in> set acts \<longrightarrow> (\<exists>u. PostAgent u \<in> set acts \<and> u_Notification u = n) \<and> submitToAgent (se_agent env) = None)"
  using assms
  by (auto simp: submitCmd_def Let_def split: if_splits sum.splits option.splits)

text \<open>The server only hears of an update the agent has taken, and nothing is sent that could not be signed.\<close>

lemma submitCmd_verified:
  assumes "submitCmd nlib env fl = (err, acts)" "\<And>key. se_key env = Inr key \<Longrightarrow> key_pair nlib key pub"
  shows "(PostAgent u \<in> set acts \<longrightarrow> verifies nlib pub (u_Notification u)) \<and>
    (PostServer n \<in> set acts \<longrightarrow> verifies nlib pub n \<and> submitToAgent (se_agent env) = None)"
proof -
  have agent: "verifies nlib pub (u_Notification u)" if sent: "PostAgent u \<in> set acts" for u
  proof -
    obtain key ver where key: "se_key env = Inr key"
      and n: "NewNotification nlib (se_now env div second) (se_abs env) (sf_uuid fl) ver (sf_tracker fl)
        (sf_piece_length fl) key = Inr (u_Notification u)"
      using submitCmd_sends [OF assms(1)] sent by blast
    show ?thesis by (rule NewNotification_Inr(2) [OF n assms(2) [OF key]])
  qed
  have "verifies nlib pub n" "submitToAgent (se_agent env) = None" if sent: "PostServer n \<in> set acts"
  proof -
    obtain v where "PostAgent v \<in> set acts" "u_Notification v = n" "submitToAgent (se_agent env) = None"
      using submitCmd_sends [OF assms(1)] sent by blast
    then show "verifies nlib pub n" "submitToAgent (se_agent env) = None" using agent [of v] by simp_all
  qed
  then show ?thesis using agent by simp
qed

end
