(* ===== verification/Lifecycle.thy ===== *)
theory Lifecycle
  imports P2P_Prelude Transition
begin

section \<open>Stopping the agent (\<open>Agent.Stop\<close>, \<open>Agent.Wait\<close>, \<open>API.Start\<close>, signals)\<close>

text \<open>
  The main goroutine creates the agent and waits for a value on its channel \<open>quit\<close>, which has no
  buffer; another goroutine takes the signals and calls \<open>Stop\<close>; a third one serves the REST interface and
  ends the process when it cannot.  \<open>lc_quit\<close> says that the field \<open>quit\<close> is not nil, \<open>lc_file\<close> that the file
  of the unix socket exists.
\<close>

datatype main_phase = Starting | Waiting_quit | Returned | Killed

datatype handler_phase = Listening_signals | Sending_quit

record lifecycle =
  lc_quit :: bool
  lc_file :: bool
  lc_main :: main_phase
  lc_handler :: handler_phase

text \<open>\<open>ListenAndServeUNIX\<close> returns only with an error, and \<open>log.Fatalf\<close> ends the process with status 1.\<close>

definition API_Start :: "go_error option \<Rightarrow> nat option" where
  "API_Start listen_err = (case listen_err of None \<Rightarrow> None | Some e \<Rightarrow> Some 1)"

text \<open>
  \<open>Wait\<close> reads the field and receives from it.  \<open>Stop\<close> does nothing when the field is nil; otherwise it
  removes the file (\<open>removed\<close>: the call succeeds), sends, and sets the field to nil.  A send and a
  receive on a channel without buffer happen together.  A killed process takes no step.
\<close>

inductive life :: "go_error option \<Rightarrow> lifecycle \<Rightarrow> lifecycle \<Rightarrow> bool" for listen_err :: "go_error option" where
  wait_nil: "lc_main s = Starting \<Longrightarrow> \<not> lc_quit s \<Longrightarrow> life listen_err s (s\<lparr>lc_main := Returned\<rparr>)"
| wait: "lc_main s = Starting \<Longrightarrow> lc_quit s \<Longrightarrow> life listen_err s (s\<lparr>lc_main := Waiting_quit\<rparr>)"
| signal_nil: "lc_main s \<noteq> Killed \<Longrightarrow> lc_handler s = Listening_signals \<Longrightarrow> \<not> lc_quit s \<Longrightarrow> life listen_err s s"
| signal: "lc_main s \<noteq> Killed \<Longrightarrow> lc_handler s = Listening_signals \<Longrightarrow> lc_quit s \<Longrightarrow>
    life listen_err s (s\<lparr>lc_file := lc_file s \<and> \<not> removed, lc_handler := Sending_quit\<rparr>)"
| rendezvous: "lc_handler s = Sending_quit \<Longrightarrow> lc_main s = Waiting_quit \<Longrightarrow>
    life listen_err s (s\<lparr>lc_main := Returned, lc_handler := Listening_signals, lc_quit := False\<rparr>)"
| api_fails: "API_Start listen_err = Some status \<Longrightarrow> lc_main s = Starting \<or> lc_main s = Waiting_quit \<Longrightarrow>
    life listen_err s (s\<lparr>lc_main := Killed\<rparr>)"

inductive_cases lifeE: "life listen_err s t"

definition life_init :: "lifecycle \<Rightarrow> bool" where
  "life_init s \<longleftrightarrow> lc_quit s \<and> lc_main s = Starting \<and> lc_handler s = Listening_signals"

text \<open>
  The main goroutine returns exactly when the channel has been used, and nobody sends afterwards; the
  process is killed only when the REST interface cannot be served.
\<close>

definition life_ok :: "go_error option \<Rightarrow> lifecycle \<Rightarrow> bool" where
  "life_ok listen_err s \<longleftrightarrow> (lc_main s = Returned \<longleftrightarrow> \<not> lc_quit s) \<and> (\<not> lc_quit s \<longrightarrow> lc_handler s = Listening_signals) \<and>
     (lc_main s = Killed \<longrightarrow> listen_err \<noteq> None)"

interpretation life_sys: invariant_system life_init "life listen_err" "life_ok listen_err" for listen_err
  by unfold_locales (auto simp: life_init_def life_ok_def API_Start_def elim!: lifeE split: option.splits)

text \<open>A signal always ends the agent: once \<open>Stop\<close> is sending, the main goroutine can return, however far it is.\<close>

lemma signal_stops:
  assumes "reach life_init (life listen_err) s" "lc_handler s = Sending_quit" "lc_main s \<noteq> Killed"
  shows "\<exists>t. (life listen_err)\<^sup>*\<^sup>* s t \<and> lc_main t = Returned \<and> \<not> lc_quit t"
proof -
  have ok: "life_ok listen_err s" by (rule life_sys.reach_inv [OF assms(1)])
  have finish: "\<exists>t. (life listen_err)\<^sup>*\<^sup>* u t \<and> lc_main t = Returned \<and> \<not> lc_quit t"
    if "lc_handler u = Sending_quit" "lc_main u = Waiting_quit" for u
    by (intro exI [of _ "u\<lparr>lc_main := Returned, lc_handler := Listening_signals, lc_quit := False\<rparr>"])
      (simp add: r_into_rtranclp [where r = "life listen_err", OF life.rendezvous [OF that]])
  show ?thesis
  proof (cases "lc_main s")
    case Starting
    have "life listen_err s (s\<lparr>lc_main := Waiting_quit\<rparr>)"
      using ok Starting assms(2) by (intro life.wait) (auto simp: life_ok_def)
    then show ?thesis using finish [of "s\<lparr>lc_main := Waiting_quit\<rparr>"] assms(2) by (auto intro: converse_rtranclp_into_rtranclp)
  qed (use finish ok assms(2,3) in \<open>auto simp: life_ok_def\<close>)
qed

text \<open>Without a signal the main goroutine does not return.\<close>

lemma waits_without_signal:
  assumes "life listen_err s t" "life_ok listen_err s" "lc_main s \<noteq> Returned" "lc_main t = Returned"
  shows "lc_handler s = Sending_quit"
  using assms by (auto simp: life_ok_def elim!: lifeE)

text \<open>Whatever happens before, an agent whose REST interface cannot be served may be killed until it has returned.\<close>

lemma killed_without_api:
  assumes "reach life_init (life (Some e)) s" "lc_main s \<noteq> Returned"
  shows "\<exists>t. (life (Some e))\<^sup>*\<^sup>* s t \<and> lc_main t = Killed"
proof (cases "lc_main s = Killed")
  case False
  then have "lc_main s = Starting \<or> lc_main s = Waiting_quit" using assms(2) by (cases "lc_main s") simp_all
  then have "life (Some e) s (s\<lparr>lc_main := Killed\<rparr>)" by (intro life.api_fails [of _ 1]) (simp_all add: API_Start_def)
  then show ?thesis by (intro exI [of _ "s\<lparr>lc_main := Killed\<rparr>"]) auto
qed blast

end
