(* ===== verification/Server_Start.thy ===== *)
theory Server_Start
  imports Server_Run Exec_Every
begin

section \<open>Starting the server (\<open>Server.run\<close>, \<open>Server.serveTCP\<close>, \<open>Server.serveUDP\<close>)\<close>

text \<open>
  \<open>serverCmd\<close> runs \<open>run\<close> in a goroutine and waits for it; \<open>run\<close> starts \<open>serveTCP\<close> in another one and calls
  \<open>serveUDP\<close>, whose loops begin once its socket and its two tickers exist.  The two goroutines open their
  sockets in any order.  The process ends with status 1 after \<open>log.Fatalf\<close>, with 2 after a panic, and with 0 when
  \<open>run\<close> returns.
\<close>

subsection \<open>The two goroutines\<close>

text \<open>\<open>ListenAndServe\<close> returns only with an error, and \<open>log.Fatalf\<close> ends the process.\<close>

definition serveTCP :: "go_error option \<Rightarrow> nat option" where
  "serveTCP listen_err = (case listen_err of None \<Rightarrow> None | Some e \<Rightarrow> Some 1)"

text \<open>
  \<open>serveUDP\<close> up to its loops: \<open>Inl\<close> the status with which the process ends, \<open>Inr\<close> the server with its socket.
  Without a socket it returns, and so does \<open>run\<close>.
\<close>

definition open_serveUDP :: "nat result \<Rightarrow> 'pub server \<Rightarrow> nat + 'pub server" where
  "open_serveUDP listen sv =
     (case listen of
        Inl e \<Rightarrow> Inl 0
      | Inr conn \<Rightarrow>
          (if serve_tickers id id (sv_cfg sv) [] [] () = None then Inl 2
           else Inr (sv\<lparr>sv_udpConn := Some conn\<rparr>)))"

record start_env =
  se_tcp :: "go_error option"
  se_udp :: "nat result"

text \<open>Whether HTTP is served, and the server, which has a socket once \<open>serveUDP\<close> has come to its loops.\<close>

datatype 'pub process = Alive bool "'pub server" | Ended nat

inductive run_step :: "start_env \<Rightarrow> 'pub process \<Rightarrow> 'pub process \<Rightarrow> bool" for env :: start_env where
  tcp_serves: "serveTCP (se_tcp env) = None \<Longrightarrow> run_step env (Alive False sv) (Alive True sv)"
| tcp_fails: "serveTCP (se_tcp env) = Some status \<Longrightarrow> run_step env (Alive False sv) (Ended status)"
| udp_serves: "sv_udpConn sv = None \<Longrightarrow> open_serveUDP (se_udp env) sv = Inr sv' \<Longrightarrow> run_step env (Alive tcp sv) (Alive tcp sv')"
| udp_ends: "sv_udpConn sv = None \<Longrightarrow> open_serveUDP (se_udp env) sv = Inl status \<Longrightarrow> run_step env (Alive tcp sv) (Ended status)"

inductive_cases run_stepE: "run_step env s t"

subsection \<open>When the server comes up\<close>

definition periods_ok :: "server_config \<Rightarrow> bool" where
  "periods_ok cfg \<longleftrightarrow> 0 < seconds (sc_SessionAdvertiseTime cfg) \<and> 0 < seconds (sc_SnapshotTime cfg)"

lemma open_serveUDP_Inr:
  "open_serveUDP listen sv = Inr sv' \<longleftrightarrow>
     (\<exists>conn. listen = Inr conn \<and> periods_ok (sv_cfg sv) \<and> sv' = sv\<lparr>sv_udpConn := Some conn\<rparr>)"
  by (auto simp: open_serveUDP_def serve_tickers_panic periods_ok_def not_le split: sum.split)

lemma open_serveUDP_Inl:
  "open_serveUDP listen sv = Inl status \<longleftrightarrow>
     (is_err listen \<and> status = 0) \<or> (\<not> is_err listen \<and> \<not> periods_ok (sv_cfg sv) \<and> status = 2)"
  by (cases listen) (auto simp: open_serveUDP_def serve_tickers_panic periods_ok_def not_le)

text \<open>What a start from the server \<open>sv0\<close> may have come to.\<close>

fun start_ok :: "start_env \<Rightarrow> 'pub server \<Rightarrow> 'pub process \<Rightarrow> bool" where
  "start_ok env sv0 (Alive tcp sv) \<longleftrightarrow> (tcp \<longrightarrow> se_tcp env = None) \<and>
     (sv = sv0 \<or> (\<exists>conn. se_udp env = Inr conn \<and> periods_ok (sv_cfg sv0) \<and> sv = sv0\<lparr>sv_udpConn := Some conn\<rparr>))"
| "start_ok env sv0 (Ended status) \<longleftrightarrow>
     (status = 0 \<and> is_err (se_udp env)) \<or> (status = 1 \<and> se_tcp env \<noteq> None) \<or>
     (status = 2 \<and> \<not> is_err (se_udp env) \<and> \<not> periods_ok (sv_cfg sv0))"

abbreviation started :: "'pub server \<Rightarrow> 'pub process \<Rightarrow> bool" where
  "started sv0 s \<equiv> s = Alive False sv0"

interpretation start_sys: invariant_system "started sv0" "run_step env" "start_ok env sv0" for sv0 env
proof unfold_locales
  show "start_ok env sv0 s" if "started sv0 s" for s using that by simp
  show "start_ok env sv0 t" if "start_ok env sv0 s" "run_step env s t" for s t
    using that(2,1) by cases (auto simp: open_serveUDP_Inr open_serveUDP_Inl serveTCP_def split: option.splits)
qed

text \<open>With two sockets and good periods the server comes up, and nothing else can happen.\<close>

lemma start_succeeds:
  assumes "reach (started sv0) (run_step env) s" "sv_udpConn sv0 = None"
    and "se_tcp env = None" "se_udp env = Inr conn" "periods_ok (sv_cfg sv0)"
  shows "(run_step env)\<^sup>*\<^sup>* s (Alive True (sv0\<lparr>sv_udpConn := Some conn\<rparr>))"
proof -
  let ?up = "sv0\<lparr>sv_udpConn := Some conn\<rparr>"
  obtain tcp sv where s: "s = Alive tcp sv" "sv = sv0 \<or> sv = ?up"
    using start_sys.reach_inv [OF assms(1)] assms(3-5) by (cases s) auto
  have udp: "run_step env (Alive tcp sv0) (Alive tcp ?up)"
    using assms(2,4,5) by (intro run_step.udp_serves) (simp_all add: open_serveUDP_Inr)
  have tcp: "run_step env (Alive False ?up) (Alive True ?up)"
    using assms(3) by (intro run_step.tcp_serves) (simp add: serveTCP_def)
  have "(run_step env)\<^sup>*\<^sup>* s (Alive tcp ?up)" using s udp by auto
  moreover have "(run_step env)\<^sup>*\<^sup>* (Alive tcp ?up) (Alive True ?up)" using tcp by (cases tcp) auto
  ultimately show ?thesis by (rule rtranclp_trans)
qed

text \<open>A server that gets no UDP socket ends as if all were well, also when HTTP is served already.\<close>

lemma no_socket_ends_with_zero:
  assumes "sv_udpConn sv = None" "se_udp env = Inl e"
  shows "run_step env (Alive tcp sv) (Ended 0)" and "start_ok env sv0 (Alive tcp' sv') \<Longrightarrow> sv' = sv0"
  using assms by (auto intro!: run_step.udp_ends simp: open_serveUDP_Inl)

text \<open>The server that has come up, with idle workers and an empty channel, is an initial node of \<open>Server_Run\<close>.\<close>

lemma started_node_init:
  assumes "NewServer decode cfg (Inr addr) (Inr pid) (Inr pub) openf db = Inr sv" "updates_verified nlib sv"
  shows "node_init nlib (Up \<lparr>nd_server = sv\<lparr>sv_udpConn := Some conn\<rparr>, nd_jobs = [],
    nd_workers = replicate 3 Waiting, nd_db = db\<rparr>)"
  using assms unfolding node_init_def by blast

end
