(* ===== verification/Piece_Length.thy ===== *)
theory Piece_Length
  imports Complex_Main
begin

section \<open>The length of a piece (\<open>PieceLength\<close> of \<open>notification.go\<close>)\<close>

text \<open>
  \<open>PieceLength\<close> computes in \<open>float64\<close>.  A float is a rational number or one of the special values; a result is
  rounded to 53 bits, to the nearest and to even on ties.  The numbers here lie between \<open>2 ^ -63\<close> and \<open>2 ^ 63\<close>,
  so the range of the exponent does not matter, and the sign of a zero is not observed.  The binary
  logarithm is an argument: how it rounds depends on the processor.  So is the integer that a float out of the
  range of \<open>int\<close> is converted to, which Go leaves to the implementation.
\<close>

subsection \<open>Floats\<close>

datatype float64 = Num rat | PosInf | NegInf | NotANumber

fun bit_length :: "nat \<Rightarrow> nat" where
  "bit_length n = (if n = 0 then 0 else Suc (bit_length (n div 2)))"

declare bit_length.simps [simp del]

text \<open>\<open>2 ^ k \<le> x < 2 ^ (k + 1)\<close> for a positive \<open>x\<close>.\<close>

definition exponent :: "rat \<Rightarrow> int" where
  "exponent x = (if 1 \<le> x then int (bit_length (nat \<lfloor>x\<rfloor>)) - 1 else - int (bit_length (nat (\<lceil>1 / x\<rceil> - 1))))"

definition round_even :: "rat \<Rightarrow> int" where
  "round_even x =
     (let d = x - of_int \<lfloor>x\<rfloor> in
      if d < 1 / 2 then \<lfloor>x\<rfloor> else if d > 1 / 2 then \<lfloor>x\<rfloor> + 1 else if even \<lfloor>x\<rfloor> then \<lfloor>x\<rfloor> else \<lfloor>x\<rfloor> + 1)"

definition round53 :: "rat \<Rightarrow> rat" where
  "round53 x =
     (if x = 0 then 0
      else let u = 2 powi (exponent \<bar>x\<bar> - 52) in sgn x * of_int (round_even (\<bar>x\<bar> / u)) * u)"

definition float_of_int :: "int \<Rightarrow> float64" where
  "float_of_int i = Num (round53 (of_int i))"

fun float_div :: "float64 \<Rightarrow> float64 \<Rightarrow> float64" where
  "float_div (Num x) (Num y) =
     (if y \<noteq> 0 then Num (round53 (x / y)) else if x > 0 then PosInf else if x < 0 then NegInf else NotANumber)"
| "float_div _ _ = NotANumber"

fun float_less :: "float64 \<Rightarrow> float64 \<Rightarrow> bool" where
  "float_less (Num x) (Num y) \<longleftrightarrow> x < y"
| "float_less NegInf (Num y) \<longleftrightarrow> True"
| "float_less _ _ \<longleftrightarrow> False"

text \<open>\<open>math.Log2\<close> of a float that is not less than a positive number, \<open>math.Ceil\<close>, and \<open>math.Pow\<close> with base 2.\<close>

fun float_log2 :: "(rat \<Rightarrow> rat) \<Rightarrow> float64 \<Rightarrow> float64" where
  "float_log2 lg (Num x) = Num (lg x)"
| "float_log2 lg PosInf = PosInf"
| "float_log2 lg _ = NotANumber"

fun float_ceil :: "float64 \<Rightarrow> float64" where
  "float_ceil (Num x) = Num (of_int \<lceil>x\<rceil>)"
| "float_ceil f = f"

fun float_pow2 :: "float64 \<Rightarrow> float64" where
  "float_pow2 (Num x) = Num (2 powi \<lfloor>x\<rfloor>)"
| "float_pow2 PosInf = PosInf"
| "float_pow2 NegInf = Num 0"
| "float_pow2 NotANumber = NotANumber"

definition int_of_float :: "(float64 \<Rightarrow> int) \<Rightarrow> float64 \<Rightarrow> int" where
  "int_of_float other f =
     (case f of
        Num x \<Rightarrow> (let i = (if x < 0 then \<lceil>x\<rceil> else \<lfloor>x\<rfloor>) in if - (2 ^ 63) \<le> i \<and> i < 2 ^ 63 then i else other f)
      | _ \<Rightarrow> other f)"

subsection \<open>The function\<close>

definition minPieceLength :: int where
  "minPieceLength = 32768"

definition PieceLength :: "(rat \<Rightarrow> rat) \<Rightarrow> (float64 \<Rightarrow> int) \<Rightarrow> int \<Rightarrow> int \<Rightarrow> int" where
  "PieceLength lg other fileSize maxNumPieces =
     (let len = float_div (float_of_int fileSize) (float_of_int maxNumPieces) in
      if float_less len (Num (of_int minPieceLength)) then minPieceLength
      else let p = float_ceil (float_log2 lg len) in int_of_float other (float_pow2 p))"

subsection \<open>Rounding\<close>

lemma bit_length_bounds: "n > 0 \<Longrightarrow> 2 ^ (bit_length n - 1) \<le> n \<and> n < 2 ^ bit_length n \<and> bit_length n > 0"
proof (induction n rule: bit_length.induct)
  case (1 n)
  show ?case
  proof (cases "n div 2 = 0")
    case True
    then have "n = 1" using 1(2) by simp
    then show ?thesis by (simp add: bit_length.simps)
  next
    case False
    then have IH: "2 ^ (bit_length (n div 2) - 1) \<le> n div 2" "n div 2 < 2 ^ bit_length (n div 2)" "bit_length (n div 2) > 0"
      using 1 by simp_all
    obtain k where k: "bit_length (n div 2) = Suc k" using IH(3) by (cases "bit_length (n div 2)") simp_all
    have "bit_length n = Suc (Suc k)" using 1(2) k by (simp add: bit_length.simps [of n])
    then show ?thesis using IH k by simp linarith
  qed
qed

lemma exponent_ge_1:
  assumes "1 \<le> x"
  obtains k where "exponent x = int k" "2 ^ k \<le> x" "x < 2 ^ Suc k"
proof -
  let ?n = "nat \<lfloor>x\<rfloor>"
  have n: "?n > 0" "of_nat ?n \<le> x" "x < of_nat ?n + 1" using assms by (simp_all add: le_nat_floor) linarith+
  note b = bit_length_bounds [OF n(1)]
  obtain k where k: "bit_length ?n = Suc k" using b by (cases "bit_length ?n") auto
  have "2 ^ k \<le> ?n" "Suc ?n \<le> 2 ^ Suc k" using b k by auto
  then have "(2 ^ k :: rat) \<le> of_nat ?n" "of_nat ?n + 1 \<le> (2 ^ Suc k :: rat)"
    by (metis of_nat_le_iff of_nat_numeral of_nat_power of_nat_Suc add.commute)+
  then have "2 ^ k \<le> x" "x < 2 ^ Suc k" using n(2,3) by linarith+
  moreover have "exponent x = int k" using assms k by (simp add: exponent_def)
  ultimately show thesis using that by blast
qed

lemma round_even_bounds:
  assumes "of_int a \<le> x" "x \<le> of_int b"
  shows "a \<le> round_even x \<and> round_even x \<le> b"
proof -
  have "a \<le> \<lfloor>x\<rfloor>" using assms(1) by (simp add: le_floor_iff)
  moreover have "\<lfloor>x\<rfloor> + 1 \<le> b" if "x - of_int \<lfloor>x\<rfloor> > 0"
  proof -
    have "of_int \<lfloor>x\<rfloor> < (of_int b :: rat)" using that assms(2) by linarith
    then show ?thesis by simp
  qed
  moreover have "\<lfloor>x\<rfloor> \<le> b" using assms(2) by linarith
  ultimately show ?thesis by (auto simp: round_even_def Let_def) 
qed

lemma round_even_int: "round_even (of_int i) = i"
  by (simp add: round_even_def)

text \<open>Rounding does not leave the interval between two powers of two.\<close>

lemma round53_between:
  assumes "2 ^ k \<le> x" "x < 2 ^ Suc k"
  shows "2 ^ k \<le> round53 x \<and> round53 x \<le> 2 ^ Suc k"
proof -
  have one: "1 \<le> x" using assms(1) one_le_power [of "2::rat" k] by linarith
  obtain j where j: "exponent x = int j" "2 ^ j \<le> x" "x < 2 ^ Suc j" by (rule exponent_ge_1 [OF one])
  have "j = k"
  proof -
    have "(2::rat) ^ j < 2 ^ Suc k" "(2::rat) ^ k < 2 ^ Suc j" using assms j by linarith+
    then show ?thesis by (simp add: power_strict_increasing_iff del: power_Suc)
  qed
  define u :: rat where "u = 2 powi (int k - 52)"
  have u: "u > 0" "2 ^ k = 2 ^ 52 * u" "2 ^ Suc k = 2 ^ 53 * u"
    by (simp_all add: u_def power_int_diff)
  have "of_int (2 ^ 52) \<le> x / u" "x / u \<le> of_int (2 ^ 53)"
    using assms u by (simp_all add: field_simps)
  then have "2 ^ 52 \<le> round_even (x / u) \<and> round_even (x / u) \<le> 2 ^ 53" by (rule round_even_bounds)
  then have "rat_of_int (2 ^ 52) \<le> of_int (round_even (x / u))" "of_int (round_even (x / u)) \<le> rat_of_int (2 ^ 53)"
    by (simp_all only: of_int_le_iff)
  then have "2 ^ 52 * u \<le> of_int (round_even (x / u)) * u" "of_int (round_even (x / u)) * u \<le> 2 ^ 53 * u"
    using u(1) by (simp_all only: mult_right_mono of_int_power of_int_numeral less_imp_le)
  moreover have "round53 x = of_int (round_even (x / u)) * u"
    using one j(1) \<open>j = k\<close> by (simp add: round53_def u_def Let_def)
  ultimately show ?thesis by (simp only: u(2,3))
qed

text \<open>An integer of at most 53 bits is a float.\<close>

lemma round53_int:
  assumes "0 < n" "n < 2 ^ 53"
  shows "round53 (of_int n) = of_int n"
proof -
  have "1 \<le> (of_int n :: rat)" using assms(1) by simp
  then obtain k where k: "exponent (of_int n) = int k" "2 ^ k \<le> (of_int n :: rat)" by (rule exponent_ge_1)
  have "(2::rat) ^ k < 2 ^ 53"
  proof -
    have "(of_int n :: rat) < of_int (2 ^ 53)" using assms(2) by (simp only: of_int_less_iff)
    then show ?thesis using k(2) by (simp only: of_int_power of_int_numeral)
  qed
  then have "k \<le> 52" by (simp only: power_strict_increasing_iff)
  then have u: "2 powi (int k - 52) = 1 / (2 :: rat) ^ (52 - k)"
    by (simp add: power_int_def nat_diff_distrib inverse_eq_divide power_one_over flip: of_nat_diff)
  have "of_int n * 2 ^ (52 - k) = (of_int (n * 2 ^ (52 - k)) :: rat)" by simp
  then have "round_even (of_int n * 2 ^ (52 - k)) = n * 2 ^ (52 - k)" by (simp only: round_even_int)
  then show ?thesis using assms(1) by (simp add: round53_def k(1) u)
qed

lemma round_even_le: "of_int (round_even x) \<le> x + 1"
  by (auto simp: round_even_def Let_def) linarith+

lemma round53_small:
  assumes "0 < x" "x < 1"
  shows "round53 x \<le> 2"
proof -
  define u :: rat where "u = 2 powi (exponent x - 52)"
  have "exponent x \<le> 0" using assms by (simp add: exponent_def)
  then have "u \<le> 2 powi 0" unfolding u_def by (intro power_int_increasing) simp_all
  then have u: "0 < u" "u \<le> 1" by (simp_all add: u_def)
  have "of_int (round_even (x / u)) * u \<le> (x / u + 1) * u"
    using round_even_le u(1) by (intro mult_right_mono) simp_all
  also have "\<dots> = x + u" using u(1) by (simp add: field_simps)
  finally show ?thesis using assms u by (simp add: round53_def u_def [symmetric] Let_def)
qed

subsection \<open>The bounds\<close>

text \<open>A logarithm that is off by rounding stays between those of the powers of two around its argument.\<close>

definition log2_near :: "(rat \<Rightarrow> rat) \<Rightarrow> bool" where
  "log2_near lg \<longleftrightarrow> (\<forall>k x. 2 ^ k \<le> x \<and> x \<le> 2 ^ Suc k \<longrightarrow> of_nat k \<le> lg x \<and> lg x \<le> of_nat (Suc k))"

lemma log2_nearD: "log2_near lg \<Longrightarrow> 2 ^ k \<le> x \<Longrightarrow> x \<le> 2 ^ Suc k \<Longrightarrow> of_nat k \<le> lg x \<and> lg x \<le> of_nat (Suc k)"
  unfolding log2_near_def by blast

lemma PieceLength_of_len:
  assumes "0 < fileSize" "fileSize < 2 ^ 53" "0 < maxNumPieces" "maxNumPieces < 2 ^ 53"
  shows "PieceLength lg other fileSize maxNumPieces =
    (let len = round53 (of_int fileSize / of_int maxNumPieces) in
     if len < 32768 then 32768 else int_of_float other (Num (2 powi \<lceil>lg len\<rceil>)))"
  using assms(1,3) by (simp add: PieceLength_def float_of_int_def round53_int [OF assms(1,2)] round53_int [OF assms(3,4)]
      minPieceLength_def Let_def)

lemma int_of_float_pow2: "k < 63 \<Longrightarrow> int_of_float other (Num (2 powi int k)) = 2 ^ k"
proof -
  assume "k < 63"
  then have "(2::int) ^ k < 2 ^ 63" by (rule power_strict_increasing) simp
  moreover have "\<lfloor>(2::rat) ^ k\<rfloor> = 2 ^ k" by (metis floor_of_int of_int_numeral of_int_power)
  moreover have "- (2 ^ 63) \<le> (2::int) ^ k" by (rule order_trans [of _ 0]) simp_all
  ultimately show ?thesis by (simp add: int_of_float_def Let_def)
qed

lemma PieceLength_interval:
  assumes "log2_near lg" "0 < fileSize" "fileSize < 2 ^ 53" "0 < maxNumPieces" "maxNumPieces < 2 ^ 53"
    and "2 ^ k \<le> (of_int fileSize / of_int maxNumPieces :: rat)" "of_int fileSize / of_int maxNumPieces < (2 ^ Suc k :: rat)" "15 \<le> k"
  shows "PieceLength lg other fileSize maxNumPieces \<in> {2 ^ k, 2 ^ Suc k}"
proof -
  define len :: rat where "len = round53 (of_int fileSize / of_int maxNumPieces)"
  have len: "2 ^ k \<le> len" "len \<le> 2 ^ Suc k" using round53_between [OF assms(6,7)] by (simp_all add: len_def)
  have "(2 ^ 15 :: rat) \<le> 2 ^ k" using assms(8) by (intro power_increasing) simp_all
  then have "\<not> len < 32768" using len(1) by simp
  have "of_nat k \<le> lg len" "lg len \<le> of_nat (Suc k)" using log2_nearD [OF assms(1) len] by simp_all
  then have "int k \<le> \<lceil>lg len\<rceil>" "\<lceil>lg len\<rceil> \<le> int (Suc k)"
    by (simp_all add: ceiling_le_iff le_ceiling_iff)
  then have p: "\<lceil>lg len\<rceil> = int k \<or> \<lceil>lg len\<rceil> = int (Suc k)" by linarith
  have "(2 ^ k :: rat) < 2 ^ 53"
  proof -
    have "(of_int fileSize / of_int maxNumPieces :: rat) \<le> of_int fileSize" using assms(2,4) by (simp add: field_simps)
    moreover have "(of_int fileSize :: rat) < of_int (2 ^ 53)" using assms(3) by (simp only: of_int_less_iff)
    ultimately show ?thesis using assms(6) by (simp only: of_int_power of_int_numeral)
  qed
  then have "k < 53" by (simp only: power_strict_increasing_iff)
  then show ?thesis
    using p \<open>\<not> len < 32768\<close> int_of_float_pow2 [of k other] int_of_float_pow2 [of "Suc k" other]
    by (auto simp: PieceLength_of_len [OF assms(2-5)] len_def [symmetric] Let_def simp del: of_nat_Suc power_Suc)
qed

lemma PieceLength_min:
  assumes "log2_near lg" "0 < fileSize" "fileSize < 2 ^ 53" "0 < maxNumPieces" "maxNumPieces < 2 ^ 53"
    and "(of_int fileSize / of_int maxNumPieces :: rat) < 32768"
  shows "PieceLength lg other fileSize maxNumPieces = minPieceLength"
proof -
  let ?q = "of_int fileSize / of_int maxNumPieces :: rat"
  have pos: "?q > 0" using assms(2,4) by simp
  have "round53 ?q \<le> 32768"
  proof (cases "?q < 1")
    case True
    then show ?thesis using round53_small [OF pos] by simp
  next
    case False
    then obtain k where k: "2 ^ k \<le> ?q" "?q < 2 ^ Suc k" using exponent_ge_1 [of ?q] by auto
    have "(2 ^ k :: rat) < 2 ^ 15" using k(1) assms(6) by simp
    then have "k < 15" by (simp only: power_strict_increasing_iff)
    then have "(2 ^ Suc k :: rat) \<le> 2 ^ 15" by (intro power_increasing) simp_all
    then show ?thesis using round53_between [OF k] by simp
  qed
  moreover have "lg 32768 = 15"
    using log2_nearD [OF assms(1), of 15 32768] log2_nearD [OF assms(1), of 14 32768] by simp
  ultimately show ?thesis
    using int_of_float_pow2 [of 15 other]
    by (auto simp: PieceLength_of_len [OF assms(2-5)] Let_def minPieceLength_def less_le)
qed

text \<open>
  The result is a power of two, the least allowed one or within a factor of two of what the caller asks
  for: a file may get twice the pieces it is allowed.
\<close>

lemma PieceLength_bounds:
  assumes "log2_near lg" "0 < fileSize" "fileSize < 2 ^ 53" "0 < maxNumPieces" "maxNumPieces < 2 ^ 53"
  shows "(\<exists>k. PieceLength lg other fileSize maxNumPieces = 2 ^ k) \<and>
    minPieceLength \<le> PieceLength lg other fileSize maxNumPieces \<and>
    fileSize \<le> 2 * maxNumPieces * PieceLength lg other fileSize maxNumPieces"
proof (cases "(of_int fileSize / of_int maxNumPieces :: rat) < 32768")
  case True
  then have "(of_int fileSize :: rat) < of_int (32768 * maxNumPieces)" using assms(4) by (simp add: field_simps)
  then have "fileSize < 32768 * maxNumPieces" by (simp only: of_int_less_iff)
  moreover have "\<exists>k. (32768 :: int) = 2 ^ k" by (intro exI [of _ 15]) simp
  ultimately show ?thesis
    using assms(4) by (simp add: PieceLength_min [OF assms True] minPieceLength_def)
next
  case False
  let ?q = "of_int fileSize / of_int maxNumPieces :: rat" and ?p = "PieceLength lg other fileSize maxNumPieces"
  have "1 \<le> ?q" using False by simp
  then obtain k where k: "2 ^ k \<le> ?q" "?q < 2 ^ Suc k" by (rule exponent_ge_1)
  have "(2 ^ 15 :: rat) < 2 ^ Suc k" using k(2) False by simp
  then have "15 \<le> k" by (simp only: power_strict_increasing_iff)
  then have p: "?p \<in> {2 ^ k, 2 ^ Suc k}" using PieceLength_interval [OF assms k] by blast
  have "(2 ^ 15 :: int) \<le> 2 ^ k" using \<open>15 \<le> k\<close> by (intro power_increasing) simp_all
  then have "32768 \<le> ?p" using p by auto
  have "(of_int fileSize :: rat) \<le> of_int (2 ^ Suc k * maxNumPieces)" using k(2) assms(4) by (simp add: field_simps)
  then have "fileSize \<le> 2 ^ Suc k * maxNumPieces" by (simp only: of_int_le_iff)
  also have "\<dots> \<le> (2 * ?p) * maxNumPieces" using p assms(4) by (intro mult_right_mono) auto
  finally have "fileSize \<le> 2 * maxNumPieces * ?p" by (simp only: mult.commute mult.left_commute)
  moreover have "\<exists>k. ?p = 2 ^ k" using p by blast
  ultimately show ?thesis using \<open>32768 \<le> ?p\<close> by (simp add: minPieceLength_def)
qed

text \<open>No pieces at all: the quotient is infinite, and the result is up to the implementation.\<close>

lemma PieceLength_no_pieces:
  assumes "0 < fileSize" "fileSize < 2 ^ 53"
  shows "PieceLength lg other fileSize 0 = other PosInf"
proof -
  have "float_of_int 0 = Num 0" by (simp add: float_of_int_def round53_def)
  then show ?thesis
    using assms(1) by (simp add: PieceLength_def float_of_int_def round53_int [OF assms] int_of_float_def Let_def)
qed

text \<open>The bound is sharp: with a logarithm that always rounds down, a file gets twice the pieces it is allowed.\<close>

definition ex_log2 :: "rat \<Rightarrow> rat" where
  "ex_log2 x = of_int (exponent x)"

lemma ex_log2_near: "log2_near ex_log2"
  unfolding log2_near_def
proof (intro allI impI)
  fix k and x :: rat
  assume x: "2 ^ k \<le> x \<and> x \<le> 2 ^ Suc k"
  have "1 \<le> x" using x one_le_power [of "2::rat" k] by linarith
  then obtain j where j: "exponent x = int j" "2 ^ j \<le> x" "x < 2 ^ Suc j" by (rule exponent_ge_1)
  have "(2::rat) ^ k < 2 ^ Suc j" "(2::rat) ^ j \<le> 2 ^ Suc k" using x j by linarith+
  then have "k < Suc j" "j \<le> Suc k" by (simp_all only: power_strict_increasing_iff power_increasing_iff one_less_numeral_iff semiring_norm)
  then show "of_nat k \<le> ex_log2 x \<and> ex_log2 x \<le> of_nat (Suc k)" by (simp add: ex_log2_def j(1))
qed

lemma PieceLength_twice:
  "PieceLength ex_log2 other 65535 1 = 32768"
  using round53_int [of 65535]
  by (simp add: PieceLength_of_len Let_def ex_log2_def exponent_def bit_length.simps int_of_float_def)

end
