(* ===== verification/Spec2Isabelle.thy ===== *)
theory Spec2Isabelle
  imports Props_Overlay Props_Peer Props_Server Props_Agent Props_Threads Gossip_Path Cli Lifecycle Server_Start Piece_Length
begin

text \<open>
  A model of p2p-update, a Go program that distributes signed updates to machines behind NATs.

  \<^bold>\<open>The program.\<close>  A \<^emph>\<open>server\<close> (\<open>server.go\<close>) answers STUN binding requests, so that agents learn their
  external address and appear in a table of sessions, which the server advertises; over HTTP it takes
  notifications of updates and keeps the newest of each UUID.  An \<^emph>\<open>agent\<close> (\<open>agent.go\<close>) holds an
  \<^emph>\<open>overlay connection\<close> (\<open>overlaysock.go\<close>), a state machine (\<open>automata.go\<close>) that registers with the
  server, keeps the NAT open and exchanges messages with the peers of the table.  Notifications
  (\<open>notification.go\<close>) reach the agent by gossip, by polling the server, from its own files and through
  its REST interface (\<open>api.go\<close>); for each update that verifies and is newer than the one it has, it
  downloads the files by BitTorrent and deploys them (\<open>update.go\<close>).  The command line (\<open>main.go\<close>)
  starts either program and submits updates.

  \<^bold>\<open>Theories and code.\<close>
  \<^item> \<open>P2P_Prelude\<close>: results and panics, decimal and hexadecimal text, the development's collections of
    rules.  \<open>Transition\<close>: the locale of an invariant of a step relation.  \<open>Channel\<close>: the locale of a
    bounded channel.  \<open>Versioned_Store\<close>: the locales of a store that keeps the newest version.  \<open>Lock_Order\<close>:
    the locales of locks taken in an order and of a system that drains.
  \<^item> \<open>Automata\<close>: \<open>automata.go\<close>.
  \<^item> \<open>Net_Addr\<close>, \<open>Peer\<close>: Go's addresses; identities, sessions and the local machine of \<open>common.go\<close>.
  \<^item> \<open>Stun_Msg\<close>: the attributes of \<open>common.go\<close> over the STUN library, whose operations are the record
    \<open>stun_lib\<close> and whose documented behaviour is \<open>stun_laws\<close>; \<open>Stun_Reference\<close> shows that it can hold.
  \<^item> \<open>Overlay\<close>: the struct \<open>OverlayConn\<close> and each of its methods.  \<open>Overlay_Run\<close>: how events, callbacks
    and replies follow one another (\<open>ostep\<close>).  \<open>Overlay_Safety\<close>, \<open>Overlay_Limits\<close>, \<open>Overlay_Send\<close>,
    \<open>Overlay_Stack\<close>: the invariant, the error counters, sending, the nesting of \<open>Event\<close>.
  \<^item> \<open>Notification\<close>: \<open>notification.go\<close>, over a record of the signature, JSON, bencode and torrent
    libraries (\<open>notif_lib\<close>).  \<open>Config\<close>: constants and configurations.
  \<^item> \<open>Server\<close>: the operations of \<open>server.go\<close> on the record \<open>server\<close>.  \<open>Server_Run\<close>: job queue, workers,
    timers and HTTP as a step relation (\<open>nstep\<close>), with the workers' turns cut where the lock is free.
    \<open>Server_Safety\<close>: what a message does, the agreement of request and reply, the database.
  \<^item> \<open>Deploy\<close>, \<open>Update\<close>: \<open>update.go\<close>; the agent's state with a heap of updates and their locks.  \<open>Agent\<close>,
    \<open>Api\<close>: \<open>agent.go\<close> and \<open>api.go\<close>.  \<open>Agent_Safety\<close>, \<open>Agent_Behaviour\<close>, \<open>Agent_Run\<close>, \<open>Agent_Store\<close>: the
    invariant, starting and replacing updates, the agent as a step relation (\<open>agent_step\<close>), files and ports.
  \<^item> \<open>Agent_Threads\<close>: the goroutines of \<open>Update.Start\<close>, \<open>Update.monitor\<close> and \<open>requestDeleteUpdate\<close>
    interleaved where they release a lock (\<open>goroutine_run\<close>, \<open>tstep\<close>, \<open>cstep\<close>).  \<open>Agent_Schedule\<close>: no
    deadlock, and what the map contains for every schedule.  \<open>Agent_Atomic\<close>: whole methods are schedules.
  \<^item> \<open>Gossip\<close>: the turn of a monitor that sends a notification and the way of the datagram into a peer's map;
    \<open>Gossip_Path\<close>: a notification on its way along a path of agents (\<open>hop\<close>, \<open>travels\<close>).
  \<^item> \<open>Exec_Every\<close>: periodic execution.  \<open>Server_Start\<close>: how the server's goroutines come up, to an initial state of
    \<open>Server_Run\<close>.  \<open>Lifecycle\<close>: how a signal or a failing REST interface stops the agent.  \<open>Piece_Length\<close>: \<open>PieceLength\<close>.  \<open>Cli\<close>: \<open>main.go\<close>.
  \<^item> \<open>Examples\<close>, \<open>Examples_Node\<close>: concrete states.  \<open>Props_Overlay\<close>, \<open>Props_Peer\<close>, \<open>Props_Server\<close>,
    \<open>Props_Agent\<close>, \<open>Props_Threads\<close> and this theory: the properties C1 to C40, each with a concrete instance.

  \<^bold>\<open>How the code is read.\<close>  A struct is a record, a map a partial map; a method is a function of the
  state.  A function that returns an error has type \<open>go_error + 'a\<close>.  A run-time panic is \<open>None\<close> (type
  \<open>may_panic\<close>) or \<open>Panicked\<close>; a call that waits is \<open>Blocks\<close> or \<open>Blocked\<close>.  What the outside answers
  (sockets, clock, files, libraries, the order in which Go ranges over a map) is an argument.  Each
  method that runs under a lock is one step; where the code releases the lock in between, or never
  releases it, the steps show it.  Times are integers in nanoseconds and the products of configured
  periods with \<open>time.Second\<close> are exact, except where a ticker is created (\<open>seconds\<close> in \<open>Exec_Every\<close>
  wraps around at 64 bits); the other products are right below 9223372037 seconds.

  \<^bold>\<open>What the lemmas show.\<close>  The overlay: its automaton is the documented diagram, nobody but a caller of
  \<open>Close\<close> makes it crash, it reconnects, it delivers messages; and the ways in which it goes wrong
  (shared error counter, nested calls, poisoned sessions, sends that stop at the first failure).  The
  server: the invariant of its running form, the only panics that remain, the effect of each message
  and each POST, what it does to a peer that has moved.  The agent: only verified updates enter its map
  or run, offering always returns, a newer version replaces an older one, and this for every interleaving
  of its goroutines, which never deadlock until a monitor ends; and the updates that get stuck or come back.
  Across the programs: registration, a notification on its way from the server or from an agent into
  another agent's map, its way along a path of agents, the agreement of the stores, the path of a submitted update.

  \<^bold>\<open>Bounds and fuel.\<close>  No operation has fuel; \<open>todo\<close> bounds the steps of the goroutines that end.  Only
  \<open>nested\<close> counts stack frames, because its theorem is that no number of them is enough.  \<open>PieceLength\<close> is
  bounded for arguments that fit the 53 bits of a float; how its logarithm rounds is an argument.

  \<^bold>\<open>Not modelled.\<close>  The parsing of the command line by the \<open>cli\<close> library, the HTTP client of \<open>submit\<close> and
  log output.  The STUN, MessagePack, bencode, JSON, torrent, PEM and RSA libraries are arguments.  A
  database or a reply of the server whose JSON has a null in place of a notification is modelled for
  the agent (it panics) and not for the server.  The wait for the torrent's info dictionary in a
  monitor's turn is part of that turn: the torrent is added together with its dictionary.  The methods of
  the agent are interleaved at their locks in \<open>Agent_Threads\<close> and whole in \<open>agent_step\<close>; code between two
  releases of a lock is one step in both, and unsynchronised reads of an update's fields (\<open>String\<close>, the
  REST handlers) see the state between two steps.
\<close>

section \<open>Properties across the components\<close>

subsection \<open>Registering with the server\<close>

text \<open>C1. Registration works end to end: the binding request that an agent's overlay builds is understood by a
  server that shares its password and does not know it; the server files the agent under its identity
  with the datagram's source, the address of its socket and its torrent ports, and sends a reply to
  that source; the agent's handler accepts the reply and takes the source as its external address.\<close>

theorem binding_handshake:
  assumes "stun_laws lib" "server_ok sv" "sv_peers sv (ov_ID ov) = None"
    and "overlay_sock ov = Some c" "ip_wf (IP (conn_laddr c))" "0 \<le> Port (conn_laddr c)" "Port (conn_laddr c) < 65536"
    and "ip_wf (IP peer)" "0 \<le> Port peer" "Port peer < 65536"
    and "valid_ports (oc_torrentPorts (ov_Config ov))" "oc_StunPassword (ov_Config ov) = sc_StunPassword (sv_cfg sv)"
    and "bindingRequestMessage lib ov = Some (Inr req)" "bindingSuccessMessage lib sv req peer = Inr m"
    and "write (lib_raw lib m) peer = None"
  shows "\<exists>a sv' ps ov' ext.
    processMessage lib write partial ids (UDPAddr peer) req sv = Some (None, sv', (lib_raw lib m, peer) # ps) \<and>
    sv_peers sv' = (sv_peers sv)(ov_ID ov \<mapsto> server_session peer (a, Port (conn_laddr c)) (oc_torrentPorts (ov_Config ov))) \<and>
    ip_Equal a (IP (conn_laddr c)) \<and>
    binding_handler lib now \<lparr>ev_Error = None, ev_Message = Some m\<rparr> ov = Some (ov', EventSuccess) \<and>
    ov_externalAddr ov' = Some ext \<and> ip_Equal (IP ext) (IP peer) \<and> Port ext = Port peer"
proof -
  let ?tp = "oc_torrentPorts (ov_Config ov)"
  obtain a where a: "binding_request lib sv req (ov_ID ov) (a, Port (conn_laddr c)) ?tp" "ip_Equal a (IP (conn_laddr c))"
    using request_understood [OF assms(1,13,4-7,11,12)] by blast
  let ?xa = "(a, Port (conn_laddr c))"
  have "bindingSuccessMessage lib (registered peer (ov_ID ov) ?xa ?tp sv) req peer = Inr m"
    using assms(14) by (simp add: bindingSuccessMessage_def)
  moreover have "\<not> keeps_session sv (ov_ID ov) (server_session peer ?xa ?tp)"
    using assms(3) by (simp add: keeps_session_def)
  ultimately obtain ps where server: "processMessage lib write partial ids (UDPAddr peer) req sv =
      Some (None, registered peer (ov_ID ov) ?xa ?tp sv, (lib_raw lib m, peer) # ps)"
    using registration [OF assms(2) a(1)] assms(15) by blast
  obtain b where b: "good_reply lib ov m (b, Port peer) Map.empty" "ip_Equal b (IP peer)"
    using reply_understood [OF assms(1,14,8-10,12)] by blast
  have handler: "binding_handler lib now \<lparr>ev_Error = None, ev_Message = Some m\<rparr> ov =
      Some (bound_state now (b, Port peer) Map.empty ov, EventSuccess)"
    using b(1) assms(4) by (intro handler_accepts) simp_all
  have wf: "ip_wf b" using b(1) by (simp add: good_reply_def)
  obtain ext where ext: "resolve_literal \<lparr>IP = b, Port = Port peer, Zone = []\<rparr> = Inr ext" "ip_wf (IP ext)"
      "Port ext = Port peer" "ip_Equal (IP ext) b"
    using resolve_literal_wf [of "\<lparr>IP = b, Port = Port peer, Zone = []\<rparr>"]
      resolve_literal_Equal [of "\<lparr>IP = b, Port = Port peer, Zone = []\<rparr>"] wf by auto
  have "ov_externalAddr (bound_state now (b, Port peer) Map.empty ov) = Some ext"
    by (simp add: bound_state_def ext(1))
  moreover have "ip_Equal (IP ext) (IP peer)"
    using ip_Equal_trans [OF ext(2) wf assms(8) ext(4) b(2)] .
  moreover have "sv_peers (registered peer (ov_ID ov) ?xa ?tp sv) = (sv_peers sv)(ov_ID ov \<mapsto> server_session peer ?xa ?tp)"
    by simp
  ultimately show ?thesis using server a(2) handler ext(3) by blast
qed

lemma binding_handshake_witness:
  "\<exists>req m ov' ext. bindingRequestMessage ref_stun ex_listening = Some (Inr req) \<and>
    binding_handler ref_stun 0 \<lparr>ev_Error = None, ev_Message = Some m\<rparr> ex_listening = Some (ov', EventSuccess) \<and>
    ov_externalAddr ov' = Some ext \<and> ip_Equal (IP ext) [198, 51, 100, 7] \<and> Port ext = 61000"
proof -
  obtain req where req: "bindingRequestMessage ref_stun ex_listening = Some (Inr req)"
    using ex_listening_request by blast
  obtain m where m: "bindingSuccessMessage ref_stun ex_node req ex_external = Inr m"
    using ref_success ex_external_wf(1) by blast
  have ports: "valid_ports (oc_torrentPorts (ov_Config ex_listening))"
    by (simp add: valid_ports_def ex_cfg_def default_overlay_config_def)
  have pwd: "oc_StunPassword (ov_Config ex_listening) = sc_StunPassword (sv_cfg ex_node)"
    using ex_password by simp
  have new: "sv_peers ex_node (ov_ID ex_listening) = None" by simp
  from binding_handshake [OF ref_stun_laws ex_node_sel(6) new ex_listening_sel(6) ex_sock_wf ex_external_wf ports pwd req m,
      of "\<lambda>_ _. None" "[]" "[]" 0]
  show ?thesis using req by (auto simp: ex_external_def)
qed

subsection \<open>A notification on its way to an agent\<close>


text \<open>The reference library with a decoder that knows one notification.\<close>

definition ex_codec :: "64 word \<Rightarrow> (bytes, bytes) notif_lib" where
  "ex_codec v = ref_notif\<lparr>nl_bdecode := (\<lambda>_ _. (ex_notif v, None))\<rparr>"

lemma ex_codec_verifies: "verifies (ex_codec v) key n = verifies ref_notif key n"
  by (simp add: verifies_iff ex_codec_def)

lemma ex_codec_ok [simp]: "agent_ok (ex_codec v) ag = agent_ok ref_notif ag"
  by (simp add: agent_ok_def all_verified_def ex_codec_verifies)








text \<open>A path of three agents: the one in the middle knows the last one under an address of its own.\<close>

definition ex_third :: udp_addr where
  "ex_third = \<lparr>IP = [192, 0, 2, 9], Port = 4000, Zone = []\<rparr>"

definition ex_middle :: "nat \<Rightarrow> overlay" where
  "ex_middle k = ex_listening\<lparr>ov_ID := ex_pid2, ov_externalAddr := Some ex_external,
     ov_peers := [ex_pid \<mapsto> [Some ex_third, Some ex_third]], ov_Config := ex_cfg\<lparr>oc_ListeningBufferSize := int k\<rparr>\<rparr>"

lemma ex_middle_sel [simp]:
  "ov_ID (ex_middle s) = ex_pid2" "ov_externalAddr (ex_middle s) = Some ex_external"
  "ov_state (ex_middle s) = StateListening" "ov_peers (ex_middle s) = [ex_pid \<mapsto> [Some ex_third, Some ex_third]]"
  "ov_Config (ex_middle s) = ex_cfg\<lparr>oc_ListeningBufferSize := int s\<rparr>"
  "overlay_sock (ex_middle s) = Some ex_sock" "ov_stun (ex_middle s) = Some 0"
  using ex_listening_sel by (simp_all add: ex_middle_def overlay_sock_def)






subsection \<open>Starting the server\<close>

text \<open>C21. From the command line to a running server: when \<open>serverCmd\<close> creates a server, both sockets can be
  opened and the two periods are below 9223372037 seconds, then the start ends neither with an error nor
  with a panic, whatever order the two goroutines take, and comes to a server that serves HTTP and UDP; with
  a verified database this is an initial state of the running server of C3.\<close>

theorem server_comes_up:
  assumes "serverCmd decode addr pid pub openf files fl = Inr sv"
    and "fl_advertise_session fl < 9223372037" "fl_snapshot_time fl < 9223372037"
    and "se_tcp env = None" "se_udp env = Inr conn" "reach (started sv) (run_step env) s"
  shows "(\<forall>status. s \<noteq> Ended status) \<and> (run_step env)\<^sup>*\<^sup>* s (Alive True (sv\<lparr>sv_udpConn := Some conn\<rparr>)) \<and>
    (updates_verified nlib sv \<longrightarrow> node_init nlib (Up \<lparr>nd_server = sv\<lparr>sv_udpConn := Some conn\<rparr>, nd_jobs = [],
      nd_workers = replicate 3 Waiting, nd_db = files (sc_Database (serverCmd_config fl))\<rparr>))"
proof -
  let ?cfg = "serverCmd_config fl"
  have new: "NewServer decode ?cfg (addr (sc_Address ?cfg)) pid (pub (key_Filename (sc_PublicKey ?cfg))) openf
      (files (sc_Database ?cfg)) = Inr sv"
    using assms(1) by (simp add: serverCmd_def Let_def)
  then obtain a i k where ok: "addr (sc_Address ?cfg) = Inr a" "pid = Inr i" "pub (key_Filename (sc_PublicKey ?cfg)) = Inr k"
    by (auto simp: NewServer_def split: sum.splits)
  have sv: "sv_udpConn sv = None" "sv_cfg sv = ?cfg"
    using new by (auto simp: NewServer_def loadUpdates_def Let_def split: sum.splits option.splits)
  have "serve_tickers id id ?cfg [] [] () \<noteq> None" by (rule server_tickers [OF assms(2,3)])
  then have periods: "periods_ok (sv_cfg sv)" by (simp add: serve_tickers_panic periods_ok_def sv(2) not_le)
  have "start_ok env sv s" by (rule start_sys.reach_inv [OF assms(6)])
  then have "s \<noteq> Ended status" for status using assms(4,5) periods by auto
  then show ?thesis
    using start_succeeds [OF assms(6) sv(1) assms(4,5) periods] started_node_init [OF new [unfolded ok]] by blast
qed

lemma server_comes_up_witness:
  "\<exists>sv. serverCmd (\<lambda>_. Inl ErrNotReady) (\<lambda>_. Inr ex_server) (Inr ex_pid2) (\<lambda>_. Inr ex_key) None (\<lambda>_. None)
      (server_flag_defaults (Inr ''/root'')) = Inr sv \<and>
    (run_step \<lparr>se_tcp = None, se_udp = Inr 5\<rparr>)\<^sup>*\<^sup>* (Alive False sv) (Alive True (sv\<lparr>sv_udpConn := Some 5\<rparr>))"
proof -
  let ?env = "\<lparr>se_tcp = None, se_udp = Inr 5\<rparr>"
  obtain sv where sv: "serverCmd (\<lambda>_. Inl ErrNotReady) (\<lambda>_. Inr ex_server) (Inr ex_pid2) (\<lambda>_. Inr ex_key) None (\<lambda>_. None)
      (server_flag_defaults (Inr ''/root'')) = Inr sv"
    by (simp add: serverCmd_def NewServer_def loadUpdates_def Let_def)
  have "reach (started sv) (run_step ?env) (Alive False sv)" by (rule reach.reach_init) simp
  moreover have "fl_advertise_session (server_flag_defaults (Inr ''/root'')) < 9223372037"
      "fl_snapshot_time (server_flag_defaults (Inr ''/root'')) < 9223372037"
    by (simp_all add: server_flag_defaults_def)
  moreover have "se_tcp ?env = None" "se_udp ?env = Inr 5" by simp_all
  ultimately show ?thesis using server_comes_up [OF sv] sv by blast
qed

subsection \<open>Two stores, one content\<close>

text \<open>The server after a sequence of POST requests.\<close>

definition post_all ::
  "('priv, 'pub) notif_lib \<Rightarrow> (bytes \<Rightarrow> notification result) \<Rightarrow> (int \<times> bytes) list \<Rightarrow> 'pub server \<Rightarrow> 'pub server" where
  "post_all nlib decode posts sv = fold (post_step nlib decode) posts sv"

lemma post_all_feed:
  fixes nlib :: "('priv, 'pub) notif_lib"
  shows "server_feed.feed TYPE('priv) nlib decode posts sv (post_all nlib decode posts sv)"
  by (induction posts arbitrary: sv) (simp_all add: post_all_def)

text \<open>C8. The server's database and the agent's map converge: a server that is sent notifications by POST requests
  and an agent that is offered the same notifications, in any order and as often as they come, end with
  the same content, as long as versions identify the notifications that verify.\<close>

theorem stores_converge:
  assumes "agent_ok nlib ag" "no_locks ag" "ag_PublicKey ag = sv_publicKey sv"
    and "sv_updates sv = Map.empty" "agent_content ag = Map.empty"
    and "set (List.map_filter (posted decode) posts) = set ns"
    and "versions_identify n_UUID n_Version {n \<in> set ns. verifies nlib (sv_publicKey sv) n}"
  shows "\<exists>ag'. offer_all nlib envs (map Some ns) ag = Done () ag' \<and>
    agent_content ag' = sv_updates (post_all nlib decode posts sv)"
proof -
  let ?newest = "agent_store.newest Map.empty (filter (\<lambda>n. verifies nlib (sv_publicKey sv) n) ns)"
  obtain ag' where ag': "offer_all nlib envs (map Some ns) ag = Done () ag'"
    using offer_all_returns [OF assms(1,2)] by blast
  have "agent_content ag' = ?newest"
    using offer_all_content [OF assms(1) ag'] assms(3,5) by simp
  moreover have "sv_updates (post_all nlib decode posts sv) = ?newest"
    by (rule server_feed.feed_converge [OF TrueI post_all_feed assms(4)])
      (use assms(6,7) in \<open>simp_all add: server_feed.passing_def\<close>)
  ultimately show ?thesis using ag' by auto
qed

lemma stores_converge_witness:
  "\<exists>ag'. offer_all ref_notif (\<lambda>_. ex_update_env) (map Some [ex_notif 1, ex_notif 2]) ex_agent = Done () ag' \<and>
    agent_content ag' = sv_updates (post_all ref_notif (\<lambda>b. Inr (ex_notif (of_nat (length b)))) [(5, [0, 0]), (6, [0]), (7, [0, 0])] ex_node)"
proof (rule stores_converge)
  show "set (List.map_filter (posted (\<lambda>b. Inr (ex_notif (of_nat (length b))))) [(5, [0, 0]), (6, [0]), (7, [0, 0])]) =
      set [ex_notif 1, ex_notif 2]"
    by (auto simp: posted_def List.map_filter_simps)
  show "versions_identify n_UUID n_Version {n \<in> set [ex_notif 1, ex_notif 2]. verifies ref_notif (sv_publicKey ex_node) n}"
    by (auto simp: versions_identify_def dest: arg_cong [where f = n_Version])
qed (simp_all add: agent_content_def fun_eq_iff)

subsection \<open>From the command line to the stores\<close>

text \<open>C19. A submitted update passes every check on its way: the command line reaches the server only after the agent
  has answered 200; the server, when it gets the notification unchanged and its key belongs to the
  private one, answers 200, 201 or 409 and holds this version or a newer one, and it answers 200 and
  spreads the notification exactly when it had nothing as new; an agent with the same key never refuses
  it as unverified.\<close>

theorem submit_pipeline:
  assumes "submitCmd nlib env fl = (err, acts)" "PostServer n \<in> set acts"
    and "\<forall>key. se_key env = Inr key \<longrightarrow> key_pair nlib key (sv_publicKey sv)"
    and "decode body = Inr n" "servePostRequest nlib decode now body sv = (code, sv', job)"
    and "agent_ok nlib ag" "no_locks ag" "ag_PublicKey ag = sv_publicKey sv"
    and "decode_update js abody blank_update = Inr u" "u_Notification u = n"
    and "pe_stat aenv (u_Source u) = None" "pe_copy aenv = None"
  shows "(\<exists>v. PostAgent v \<in> set acts \<and> u_Notification v = n) \<and> submitToAgent (se_agent env) = None \<and>
    code \<in> {200, 201, 409} \<and> (\<exists>v. sv_updates sv' (n_UUID n) = Some v \<and> n_Version n \<le> n_Version v) \<and>
    (code = 200 \<longleftrightarrow> verdict_of n_UUID n_Version n (sv_updates sv) = Accepted) \<and> (code = 200 \<longleftrightarrow> job = Some n) \<and>
    (\<exists>status ag'. requestPostUpdate nlib js aenv abody ag = Done (status, NoBody) ag' \<and> status \<in> {200, 208, 406, 500})"
proof -
  have sent: "verifies nlib (sv_publicKey sv) n" "submitToAgent (se_agent env) = None"
    using submitCmd_verified [OF assms(1), of "sv_publicKey sv"] assms(2,3) by blast+
  obtain v where v: "PostAgent v \<in> set acts" "u_Notification v = n"
    using submitCmd_sends [OF assms(1)] assms(2) by blast
  have kept: "sv_updates sv' = keep_newest n_UUID n_Version n (sv_updates sv)"
    using servePost_updates [OF assms(5)] sent(1) by (simp add: assms(4))
  have code: "(code, sv', job) = (case fst (accept_update now n sv) of
           Older \<Rightarrow> (409, snd (accept_update now n sv), None)
         | Duplicate \<Rightarrow> (201, snd (accept_update now n sv), None)
         | Accepted \<Rightarrow> (200, snd (accept_update now n sv), Some n))"
    using assms(4,5) sent(1) by (cases rule: servePost_cases [of decode body nlib now sv]) simp_all
  then have codes: "code \<in> {200, 201, 409}" "code = 200 \<longleftrightarrow> verdict_of n_UUID n_Version n (sv_updates sv) = Accepted"
      "code = 200 \<longleftrightarrow> job = Some n"
    by (auto simp: accept_update_keep split: verdict.splits)
  obtain w where "keep_newest n_UUID n_Version n (sv_updates sv) (n_UUID n) = Some w" "n_Version n \<le> n_Version w"
    using server_store.keep_newest_offered by blast
  moreover have "\<exists>status ag'. requestPostUpdate nlib js aenv abody ag = Done (status, NoBody) ag' \<and> status \<in> {200, 208, 406, 500}"
    using post_status [OF assms(6,7,9,11,12)] sent(1) assms(8,10) by (auto split: verdict.splits)
  ultimately show ?thesis using v sent(2) codes kept by auto
qed

definition ex_submit_env :: "bytes submit_env" where
  "ex_submit_env = \<lparr>se_abs = ''/root/fw.sh'', se_stat = None, se_now = 1700000000 * second, se_key = Inr ex_key,
     se_open = None, se_print = None, se_agent = Inr (Inr 200), se_server = Inr (Inr 200)\<rparr>"

lemma ex_submit:
  "\<exists>n. submitCmd ref_notif ex_submit_env submit_flag_defaults =
    (None, [PostAgent (blank_update\<lparr>u_Source := ''/root/fw.sh'', u_Notification := n\<rparr>), PostServer n])"
  by (simp add: submitCmd_def NewNotification_def Sign_def ref_notif_def ex_submit_env_def submit_flag_defaults_def
      submitToAgent_def submitToServer_def UUIDShell_def defaultServerAddr_def Let_def)

lemma submit_pipeline_witness:
  "\<exists>n sv' v. PostServer n \<in> set (snd (submitCmd ref_notif ex_submit_env submit_flag_defaults)) \<and>
    servePostRequest ref_notif (\<lambda>_. Inr n) 7 [] ex_node = (200, sv', Some n) \<and> sv_updates sv' (n_UUID n) = Some v"
proof -
  obtain n where n: "submitCmd ref_notif ex_submit_env submit_flag_defaults =
    (None, [PostAgent (blank_update\<lparr>u_Source := ''/root/fw.sh'', u_Notification := n\<rparr>), PostServer n])"
    using ex_submit by blast
  obtain code sv' job where post: "servePostRequest ref_notif (\<lambda>_. Inr n) 7 [] ex_node = (code, sv', job)"
    by (cases "servePostRequest ref_notif (\<lambda>_. Inr n) 7 [] ex_node")
  let ?js = "\<lparr>uj_encode = (\<lambda>_. Inr []), uj_decode = (\<lambda>_ _. Inr (blank_update\<lparr>u_Notification := n\<rparr>))\<rparr>"
  have dec: "decode_update ?js [] blank_update = Inr (blank_update\<lparr>u_Notification := n\<rparr>)"
    by (simp add: decode_update_def blank_update_def)
  have keys: "\<forall>key. se_key ex_submit_env = Inr key \<longrightarrow> key_pair ref_notif key (sv_publicKey ex_node)"
    by (simp add: ex_submit_env_def ref_key_pair)
  have "PostServer n \<in> set [PostAgent (blank_update\<lparr>u_Source := ''/root/fw.sh'', u_Notification := n\<rparr>), PostServer n]"
    by simp
  from submit_pipeline [OF n this keys refl post ex_agent_ok ex_agent_no_locks _ dec, of ex_api]
  have "code = 200 \<and> job = Some n \<and> (\<exists>v. sv_updates sv' (n_UUID n) = Some v)"
    by (auto simp: ex_api_def verdict_of_def)
  then show ?thesis using n post by auto
qed

end
